theory Spec2Isabelle
  imports Main "HOL-Library.Word"
begin

section \<open>Domain model (package domain)\<close>

text \<open>
  Go's \<^verbatim>\<open>time.Time\<close> is modelled as an instant counted in nanoseconds from the zero
  Time, so \<^verbatim>\<open>t.IsZero()\<close> is \<open>t = 0\<close>, \<^verbatim>\<open>t.After(u)\<close> is \<open>u < t\<close> and
  \<^verbatim>\<open>t.Add(d)\<close> is \<open>t + d\<close> for a duration \<open>d\<close> in nanoseconds.
\<close>

type_synonym time = int

type_synonym int64 = "64 word"

text \<open>\<^verbatim>\<open>type Delegation struct\<close>: every field but the two times is a Go string.\<close>

record Delegation =
  ID :: string
  Timestamp :: time
  Amount :: string
  Delegator :: string
  Level :: string
  BlockHash :: string
  OperationHash :: string
  CreatedAt :: time

section \<open>The store (package postgres)\<close>

text \<open>
  The errors a repository method returns. \<open>PgError c\<close> is a server error with SQLSTATE \<open>c\<close>;
  \<open>BindError\<close> is the driver's refusal of a statement whose bound arguments do not fit its
  placeholders; \<open>ConnError\<close> is any failure of the connection or of the call's deadline.
\<close>

datatype db_error = ConnError | BindError | PgError string

datatype error =
    SaveFailed db_error
  | BeginFailed
  | ExecItemFailed nat db_error
  | CommitFailed
  | QueryFailed db_error
  | UpdateMetadataFailed db_error
  | MigrationFailed
  | RateLimiterError
  | FetchFailed
  | UnexpectedStatus nat
  | UnmarshalFailed
  | ContextDone
  | AlreadyStarted
  | CheckExistingFailed error
  | InvalidStartDate
  | HistoricalFailed error
  | FinalBatchFailed error
  | BatchFailed error
  | FetchHistoricalFailed error
  | CountFetchFailed
  | CountParseFailed
  | DBCountFailed error
  | MissingFromTzKT int

text \<open>
  The Info, Warn and Error entries the store and the engine write (Debug entries are left
  out). The numbers of \<open>LogSavedBatch\<close> are the fields attempted, saved and duplicates of
  \<^verbatim>\<open>"Saved batch of delegations"\<close>.
\<close>

datatype log_entry =
    LogError string
  | LogInfo string
  | LogWarn string
  | LogSavedBatch nat nat nat
  | LogSavedRecent nat
  | LogSavedNew nat int64
  | LogFinalBatch nat
  | LogProgress nat

text \<open>A bound statement argument: the columns are TEXT/UUID or TIMESTAMP WITH TIME ZONE.\<close>

datatype sqlval = SText string | STime time

section \<open>The source's wire format and HTTP (packages tzkt, resty)\<close>

text \<open>\<^verbatim>\<open>type Sender struct\<close>; \<^verbatim>\<open>type Delegate struct\<close> has the same two fields.\<close>

record Sender =
  Address :: string
  Alias :: string

type_synonym Delegate = Sender

text \<open>
  \<^verbatim>\<open>type DelegationResponse struct\<close>. Its fields ID, Level, Timestamp and Amount carry the
  prefix \<open>tz\<close> here, since \<open>Delegation\<close> has fields of those names.
\<close>

record DelegationResponse =
  tzID :: int64
  tzLevel :: int64
  tzTimestamp :: time
  Block :: string
  Hash :: string
  Sender :: Sender
  NewDelegate :: "Delegate option"
  tzAmount :: int64
  PrevDelegate :: "Delegate option"
  Status :: string

text \<open>
  An object of the JSON array the source sends: its numbers are JSON numbers, which have no
  width. A body is such an array, a single number (the count endpoint), or text that
  \<^verbatim>\<open>json.Unmarshal\<close> cannot read at all.
\<close>

record json_delegation =
  js_id :: int
  js_level :: int
  js_timestamp :: time
  js_block :: string
  js_hash :: string
  js_sender :: Sender
  js_newDelegate :: "Delegate option"
  js_amount :: int
  js_prevDelegate :: "Delegate option"
  js_status :: string

datatype json_body = Malformed | JArray "json_delegation list" | JNumber int

text \<open>One HTTP exchange: a transport error, or a response with its status code and body.\<close>

datatype http_outcome = TransportError | Response nat json_body

text \<open>
  A query parameter's value, kept before its formatting as text. \<open>PDate d\<close> is a calendar
  day written as \<^verbatim>\<open>2006-01-02\<close>: the day number \<open>d\<close> counts whole days from the zero time.
\<close>

datatype param = PInt int | PTime time | PText string | PDate int

record request =
  req_url :: string
  req_query :: "string \<rightharpoonup> param"

datatype task = PollLoopTask | BackupTask

section \<open>The process and its surroundings\<close>

text \<open>
  Everything a call can read or change, passed explicitly. \<open>delegations\<close> is the table of
  the same name as the migrations 001 and 002 leave it (primary key \<open>id\<close>, unique
  \<open>operation_hash\<close>); \<open>indexing_metadata\<close> is the row with \<open>id = 1\<close> of that table, when
  it exists. \<open>db_faults\<close> scripts the store's availability: each repository call takes the
  head, and \<open>True\<close> makes that call fail on its connection; an empty script is a healthy store.
  \<open>pg_year\<close> is the database's \<^verbatim>\<open>EXTRACT(YEAR FROM timestamp)\<close>.
  \<open>uuid_gen\<close> and \<open>uuid_next\<close> stand for \<^verbatim>\<open>uuid.New()\<close>, \<open>now\<close> for \<^verbatim>\<open>time.Now()\<close>.
  \<open>http\<close> scripts the network for the context in force: the outcomes of the HTTP
  exchanges that complete before that context is done, in order; when it is empty the
  context is done. \<open>requests\<close> records what was sent. \<open>sched\<close> is the one choice the
  backfill consumer's \<^verbatim>\<open>select\<close> has: how many pages it takes before it takes a
  terminal error that is pending. \<open>goroutines\<close> lists what was started with \<^verbatim>\<open>go\<close>.
  The \<open>m_\<close> fields are the Prometheus counters and the gauge the engine writes;
  \<open>m_LastIndexedLevel\<close> is the level last handed to \<^verbatim>\<open>metrics.UpdateLastIndexedLevel\<close>,
  as an int64: the gauge's own conversion of it to a float64 is not part of \<open>world\<close>.
\<close>

record world =
  delegations :: "Delegation list"
  indexing_metadata :: "(int64 \<times> time option) option"
  db_faults :: "bool list"
  pg_year :: "time \<Rightarrow> int"
  uuid_gen :: "nat \<Rightarrow> string"
  uuid_next :: nat
  now :: time
  http :: "http_outcome list"
  requests :: "request list"
  sched :: nat
  logs :: "log_entry list"
  goroutines :: "task list"
  m_PollingErrors :: nat
  m_LastIndexedLevel :: int64
  m_DelegationsStored :: nat
  m_ProcessedSuccess :: nat
  m_ProcessedError :: nat

definition db_call :: "world \<Rightarrow> bool \<times> world" where
  "db_call w = (case db_faults w of [] \<Rightarrow> (False, w) | f # fs \<Rightarrow> (f, w\<lparr>db_faults := fs\<rparr>))"

definition uuid_New :: "world \<Rightarrow> string \<times> world" where
  "uuid_New w = (uuid_gen w (uuid_next w), w\<lparr>uuid_next := Suc (uuid_next w)\<rparr>)"

definition log_add :: "log_entry \<Rightarrow> world \<Rightarrow> world" where
  "log_add e w = w\<lparr>logs := logs w @ [e]\<rparr>"

text \<open>
  The statement both \<^verbatim>\<open>Save\<close> and \<^verbatim>\<open>SaveBatch\<close> send:
  \<^verbatim>\<open>INSERT INTO delegations (id, timestamp, amount, delegator, level, block_hash,
  operation_hash, created_at) VALUES ($1, ..., $8) ON CONFLICT (operation_hash) DO UPDATE SET
  timestamp, amount, block_hash, delegator, level = EXCLUDED...\<close>.
  A row with the proposed operation_hash is updated in place (its id, operation_hash and
  created_at stay); otherwise the row is inserted, unless its id is taken, which is the
  unique violation 23505.
\<close>

definition on_conflict_update :: "Delegation \<Rightarrow> Delegation \<Rightarrow> Delegation" where
  "on_conflict_update d r =
     (if OperationHash r = OperationHash d
      then r\<lparr>Timestamp := Timestamp d, Amount := Amount d, BlockHash := BlockHash d,
             Delegator := Delegator d, Level := Level d\<rparr>
      else r)"

definition upsert_row :: "Delegation \<Rightarrow> Delegation list \<Rightarrow> db_error + Delegation list" where
  "upsert_row d rows =
     (if OperationHash d \<in> set (map OperationHash rows)
      then Inr (map (on_conflict_update d) rows)
      else if ID d \<in> set (map ID rows) then Inl (PgError ''23505'')
      else Inr (rows @ [d]))"

text \<open>The statement has eight placeholders; the driver refuses any other argument list.\<close>

fun upsert_stmt :: "sqlval list \<Rightarrow> Delegation list \<Rightarrow> db_error + Delegation list" where
  "upsert_stmt [SText i, STime ts, SText a, SText dl, SText lv, SText bh, SText oh, STime ca] rows =
     upsert_row \<lparr>ID = i, Timestamp = ts, Amount = a, Delegator = dl, Level = lv,
                 BlockHash = bh, OperationHash = oh, CreatedAt = ca\<rparr> rows"
| "upsert_stmt args rows = Inl BindError"

text \<open>\<^verbatim>\<open>func (r *Repository) Save(delegation *domain.Delegation) error\<close>\<close>

definition fill_defaults :: "Delegation \<Rightarrow> world \<Rightarrow> Delegation \<times> world" where
  "fill_defaults d w =
     (let (d1, w1) = (if ID d = [] then (let (u, w') = uuid_New w in (d\<lparr>ID := u\<rparr>, w'))
                      else (d, w));
          d2 = (if CreatedAt d1 = 0 then d1\<lparr>CreatedAt := now w1\<rparr> else d1)
      in (d2, w1))"

definition Save :: "Delegation \<Rightarrow> world \<Rightarrow> error option \<times> Delegation \<times> world" where
  "Save delegation w =
     (let (d, w1) = fill_defaults delegation w;
          (fault, w2) = db_call w1;
          res = (if fault then Inl ConnError
                 else upsert_stmt [SText (ID d), STime (Timestamp d), SText (Amount d),
                                   SText (Delegator d), SText (Level d), SText (BlockHash d),
                                   STime (CreatedAt d)] (delegations w2))
      in case res of
           Inl e \<Rightarrow> (Some (SaveFailed e), d, log_add (LogError ''Failed to save delegation'') w2)
         | Inr rows \<Rightarrow> (None, d, w2\<lparr>delegations := rows\<rparr>))"

text \<open>
  \<^verbatim>\<open>func (r *Repository) SaveBatch(delegations []domain.Delegation) error\<close>.
  The range loop works on copies, so the caller's slice is not changed. The statements run
  in one transaction: \<open>tx_rows\<close> is the table as the transaction sees it, and after a failed
  statement the transaction is aborted, every later statement fails with 25P02 and the
  commit does not take effect.
\<close>

fun queue_batch :: "Delegation list \<Rightarrow> world \<Rightarrow> sqlval list list \<times> world" where
  "queue_batch [] w = ([], w)"
| "queue_batch (delegation # rest) w =
     (let (d, w1) = fill_defaults delegation w;
          (q, w2) = queue_batch rest w1
      in ([SText (ID d), STime (Timestamp d), SText (Amount d), SText (Delegator d),
           SText (Level d), SText (BlockHash d), SText (OperationHash d),
           STime (CreatedAt d)] # q, w2))"

record tx =
  tx_rows :: "Delegation list"
  tx_aborted :: bool

definition tx_exec :: "sqlval list \<Rightarrow> tx \<Rightarrow> db_error option \<times> tx" where
  "tx_exec args t =
     (if tx_aborted t then (Some (PgError ''25P02''), t)
      else case upsert_stmt args (tx_rows t) of
             Inl e \<Rightarrow> (Some e, t\<lparr>tx_aborted := True\<rparr>)
           | Inr rows \<Rightarrow> (None, t\<lparr>tx_rows := rows\<rparr>))"

fun exec_batch :: "sqlval list list \<Rightarrow> nat \<Rightarrow> nat \<Rightarrow> nat \<Rightarrow> tx \<Rightarrow> error + (nat \<times> nat \<times> tx)" where
  "exec_batch [] i successCount duplicateCount t = Inr (successCount, duplicateCount, t)"
| "exec_batch (q # qs) i successCount duplicateCount t =
     (case tx_exec q t of
        (Some e, t') \<Rightarrow>
          (if e = PgError ''23505'' then exec_batch qs (Suc i) successCount (Suc duplicateCount) t'
           else Inl (ExecItemFailed i e))
      | (None, t') \<Rightarrow> exec_batch qs (Suc i) (Suc successCount) duplicateCount t')"

definition SaveBatch :: "Delegation list \<Rightarrow> world \<Rightarrow> error option \<times> world" where
  "SaveBatch ds w =
     (if length ds = 0 then (None, w)
      else
        let (fault, w1) = db_call w in
        if fault then (Some BeginFailed, w1)
        else
          let (batch, w2) = queue_batch ds w1 in
          case exec_batch batch 0 0 0 \<lparr>tx_rows = delegations w2, tx_aborted = False\<rparr> of
            Inl e \<Rightarrow> (Some e, w2)
          | Inr (successCount, duplicateCount, t) \<Rightarrow>
              if tx_aborted t then (Some CommitFailed, w2)
              else (None, log_add (LogSavedBatch (length ds) successCount duplicateCount)
                            (w2\<lparr>delegations := tx_rows t\<rparr>)))"



subsection \<open>Decimal text\<close>

text \<open>
  \<^verbatim>\<open>strconv.FormatInt(i, 10)\<close>, and the reading of decimal text that the database's
  \<^verbatim>\<open>CAST(level AS BIGINT)\<close> performs. The cast is modelled on the text the service
  writes: an optional minus sign and decimal digits, within the range of a BIGINT.
\<close>

definition digit_char :: "nat \<Rightarrow> char" where
  "digit_char n = ''0123456789'' ! n"

fun digits :: "nat \<Rightarrow> string" where
  "digits n = (if n < 10 then [digit_char n] else digits (n div 10) @ [digit_char (n mod 10)])"

declare digits.simps [simp del]

definition FormatInt :: "int64 \<Rightarrow> string" where
  "FormatInt i = (if sint i < 0 then CHR ''-'' # digits (nat (- sint i)) else digits (nat (sint i)))"

definition digit_val :: "char \<Rightarrow> nat option" where
  "digit_val c = map_of (zip ''0123456789'' [0, 1, 2, 3, 4, 5, 6, 7, 8, 9]) c"

fun parse_digits :: "string \<Rightarrow> nat \<Rightarrow> nat option" where
  "parse_digits [] acc = Some acc"
| "parse_digits (c # cs) acc =
     (case digit_val c of None \<Rightarrow> None | Some d \<Rightarrow> parse_digits cs (10 * acc + d))"

definition parse_int :: "string \<Rightarrow> int option" where
  "parse_int s =
     (case s of
        [] \<Rightarrow> None
      | c # cs \<Rightarrow>
          if c = CHR ''-''
          then (if cs = [] then None else map_option (\<lambda>n. - int n) (parse_digits cs 0))
          else map_option int (parse_digits s 0))"

definition in_int64 :: "int \<Rightarrow> bool" where
  "in_int64 n = (- (2 ^ 63) \<le> n \<and> n < 2 ^ 63)"

definition cast_bigint :: "string \<Rightarrow> int option" where
  "cast_bigint s = (case parse_int s of None \<Rightarrow> None | Some n \<Rightarrow> if in_int64 n then Some n else None)"

subsection \<open>Queries\<close>

text \<open>
  \<^verbatim>\<open>func (r *Repository) FindAll(year *int) ([]domain.Delegation, error)\<close>: the rows,
  newest first; the SELECT list has no operation_hash, so that field of every result is empty.
\<close>

definition scan_row :: "Delegation \<Rightarrow> Delegation" where
  "scan_row r = r\<lparr>OperationHash := []\<rparr>"

definition FindAll :: "int option \<Rightarrow> world \<Rightarrow> (error + Delegation list) \<times> world" where
  "FindAll year w =
     (let (fault, w1) = db_call w in
      if fault then (Inl (QueryFailed ConnError), w1)
      else
        let rows = (case year of
                      Some y \<Rightarrow> filter (\<lambda>r. pg_year w1 (Timestamp r) = y) (delegations w1)
                    | None \<Rightarrow> delegations w1)
        in (Inr (map scan_row (rev (sort_key Timestamp rows))), w1))"

text \<open>
  \<^verbatim>\<open>func (r *Repository) GetLastIndexedLevel() (int64, error)\<close>:
  \<^verbatim>\<open>SELECT MAX(CAST(level AS BIGINT)) FROM delegations\<close>, NULL (no rows) read as 0.
\<close>

definition GetLastIndexedLevel :: "world \<Rightarrow> (error + int64) \<times> world" where
  "GetLastIndexedLevel w =
     (let (fault, w1) = db_call w in
      if fault then (Inl (QueryFailed ConnError), w1)
      else case those (map (\<lambda>r. cast_bigint (Level r)) (delegations w1)) of
             None \<Rightarrow> (Inl (QueryFailed (PgError ''22P02'')), w1)
           | Some [] \<Rightarrow> (Inr 0, w1)
           | Some (l # ls) \<Rightarrow> (Inr (word_of_int (fold max ls l)), w1))"

text \<open>\<^verbatim>\<open>func (r *Repository) Exists(delegator string, level string) (bool, error)\<close>\<close>

definition Exists :: "string \<Rightarrow> string \<Rightarrow> world \<Rightarrow> (error + bool) \<times> world" where
  "Exists delegator level w =
     (let (fault, w1) = db_call w in
      if fault then (Inl (QueryFailed ConnError), w1)
      else (Inr (list_ex (\<lambda>r. Delegator r = delegator \<and> Level r = level) (delegations w1)), w1))"

text \<open>
  \<^verbatim>\<open>func (r *Repository) UpdateIndexingMetadata(level int64, timestamp time.Time) error\<close>:
  an UPDATE of the row with \<open>id = 1\<close>, which changes nothing when there is no such row.
\<close>

definition UpdateIndexingMetadata :: "int64 \<Rightarrow> time \<Rightarrow> world \<Rightarrow> error option \<times> world" where
  "UpdateIndexingMetadata level timestamp w =
     (let (fault, w1) = db_call w in
      if fault then (Some (UpdateMetadataFailed ConnError), w1)
      else (None, w1\<lparr>indexing_metadata :=
                        (case indexing_metadata w1 of
                           None \<Rightarrow> None
                         | Some m \<Rightarrow> Some (level, Some timestamp))\<rparr>))"

text \<open>\<^verbatim>\<open>func (r *Repository) GetIndexingMetadata() (int64, *time.Time, error)\<close>\<close>

definition GetIndexingMetadata :: "world \<Rightarrow> (error + int64 \<times> time option) \<times> world" where
  "GetIndexingMetadata w =
     (let (fault, w1) = db_call w in
      if fault then (Inl (QueryFailed ConnError), w1)
      else case indexing_metadata w1 of
             None \<Rightarrow> (Inr (0, None), w1)
           | Some (level, timestamp) \<Rightarrow> (Inr (level, timestamp), w1))"

text \<open>
  \<^verbatim>\<open>func RunMigrations(pool, logger) error\<close>, on the tables this model holds: the last
  statement is \<^verbatim>\<open>INSERT INTO indexing_metadata (id, last_indexed_level,
  last_indexed_timestamp) VALUES (1, 0, NULL) ON CONFLICT (id) DO NOTHING\<close>; the statements
  before it create what does not exist yet and leave an existing table alone.
\<close>

definition RunMigrations :: "world \<Rightarrow> error option \<times> world" where
  "RunMigrations w =
     (let (fault, w1) = db_call w in
      if fault then (Some MigrationFailed, w1)
      else (None, log_add (LogInfo ''Successfully ran database migrations'')
                    (w1\<lparr>indexing_metadata :=
                          (case indexing_metadata w1 of
                             None \<Rightarrow> Some (0, None)
                           | Some m \<Rightarrow> Some m)\<rparr>)))"


section \<open>The source client (package tzkt)\<close>

text \<open>
  The filters and the query. The fields of \<^verbatim>\<open>QueryParams\<close>, \<^verbatim>\<open>LevelFilter\<close> and
  \<^verbatim>\<open>TimestampFilter\<close> carry the prefixes \<open>qp_\<close>, \<open>lf_\<close> and \<open>tf_\<close>.
\<close>

record LevelFilter =
  lf_Eq :: "int64 option"
  lf_Ne :: "int64 option"
  lf_Gt :: "int64 option"
  lf_Gte :: "int64 option"
  lf_Lt :: "int64 option"
  lf_Lte :: "int64 option"
  lf_In :: "int64 list"
  lf_Ni :: "int64 list"

record TimestampFilter =
  tf_Eq :: "time option"
  tf_Ne :: "time option"
  tf_Gt :: "time option"
  tf_Gte :: "time option"
  tf_Lt :: "time option"
  tf_Lte :: "time option"

record QueryParams =
  qp_Limit :: int
  qp_Offset :: int
  qp_Level :: "LevelFilter option"
  qp_Timestamp :: "TimestampFilter option"
  qp_Sort :: "string list"
  qp_Select :: "string list"

text \<open>
  \<^verbatim>\<open>type Client struct\<close> with the settings \<^verbatim>\<open>NewClient\<close> gives its resty client and its
  rate limiter. The retry count is a natural number: a negative \<^verbatim>\<open>MAX_RETRIES\<close> is outside
  this model.
\<close>

record Client =
  baseURL :: string
  maxRetries :: nat
  retryDelay :: int
  httpTimeout :: int
  httpRetryCount :: nat
  httpRetryWaitTime :: int
  httpRetryMaxWaitTime :: int
  limiterEvery :: int
  limiterBurst :: nat

definition millisecond :: int where
  "millisecond = 1000000"

definition second :: int where
  "second = 1000 * millisecond"

definition hour :: int where
  "hour = 3600 * second"

definition NewClient :: "string \<Rightarrow> int \<Rightarrow> nat \<Rightarrow> int \<Rightarrow> Client" where
  "NewClient url timeout retries delay =
     \<lparr>baseURL = url, maxRetries = retries, retryDelay = delay,
      httpTimeout = timeout, httpRetryCount = retries, httpRetryWaitTime = delay,
      httpRetryMaxWaitTime = delay * 3,
      limiterEvery = 100 * millisecond, limiterBurst = 10\<rparr>"

text \<open>
  The condition \<^verbatim>\<open>NewClient\<close> adds:
  \<^verbatim>\<open>err != nil || r.StatusCode() >= 500 || r.StatusCode() == 429\<close>.
\<close>

definition retry_condition :: "http_outcome \<Rightarrow> bool" where
  "retry_condition out =
     (case out of TransportError \<Rightarrow> True | Response code body \<Rightarrow> code \<ge> 500 \<or> code = 429)"

text \<open>
  resty's execution of one request with \<open>n\<close> retries left: an exchange is made, and it is
  made again while the condition holds and retries are left. With the context done no
  exchange is made and an error comes back.
\<close>

fun resty_execute :: "nat \<Rightarrow> request \<Rightarrow> world \<Rightarrow> http_outcome \<times> world" where
  "resty_execute n req w =
     (case http w of
        [] \<Rightarrow> (TransportError, w)
      | out # rest \<Rightarrow>
          let w1 = w\<lparr>http := rest, requests := requests w @ [req]\<rparr> in
          if retry_condition out
          then (case n of 0 \<Rightarrow> (out, w1) | Suc m \<Rightarrow> resty_execute m req w1)
          else (out, w1))"

declare resty_execute.simps [simp del]

text \<open>\<^verbatim>\<open>strings.Split(s, ".")\<close>\<close>

fun split_on :: "char \<Rightarrow> string \<Rightarrow> string list" where
  "split_on c [] = [[]]"
| "split_on c (x # xs) =
     (if x = c then [] # split_on c xs
      else (case split_on c xs of [] \<Rightarrow> [[x]] | p # ps \<Rightarrow> (x # p) # ps))"

fun join_commas :: "string list \<Rightarrow> string" where
  "join_commas [] = []"
| "join_commas [s] = s"
| "join_commas (s # t # rest) = s @ '','' @ join_commas (t # rest)"

text \<open>\<^verbatim>\<open>func (c *Client) buildQueryParams(params QueryParams) map[string]string\<close>\<close>

definition put_opt :: "string \<Rightarrow> 'a option \<Rightarrow> ('a \<Rightarrow> param) \<Rightarrow> (string \<rightharpoonup> param) \<Rightarrow> (string \<rightharpoonup> param)" where
  "put_opt k v f m = (case v of None \<Rightarrow> m | Some x \<Rightarrow> m(k \<mapsto> f x))"

definition put_sort :: "string \<Rightarrow> (string \<rightharpoonup> param) \<Rightarrow> (string \<rightharpoonup> param)" where
  "put_sort s m =
     (case split_on CHR ''.'' s of
        [field, direction] \<Rightarrow> m(''sort.'' @ direction \<mapsto> PText field)
      | _ \<Rightarrow> m)"

definition buildQueryParams :: "QueryParams \<Rightarrow> (string \<rightharpoonup> param)" where
  "buildQueryParams params =
     (let q0 = Map.empty;
          q1 = (if qp_Limit params > 0 then q0(''limit'' \<mapsto> PInt (qp_Limit params)) else q0);
          q2 = (if qp_Offset params > 0 then q1(''offset'' \<mapsto> PInt (qp_Offset params)) else q1);
          q3 = (case qp_Level params of
                  None \<Rightarrow> q2
                | Some l \<Rightarrow>
                    put_opt ''level.eq'' (lf_Eq l) (\<lambda>x. PInt (sint x))
                     (put_opt ''level.lt'' (lf_Lt l) (\<lambda>x. PInt (sint x))
                       (put_opt ''level.le'' (lf_Lte l) (\<lambda>x. PInt (sint x))
                         (put_opt ''level.gt'' (lf_Gt l) (\<lambda>x. PInt (sint x))
                           (put_opt ''level.ge'' (lf_Gte l) (\<lambda>x. PInt (sint x)) q2)))));
          q4 = (case qp_Timestamp params of
                  None \<Rightarrow> q3
                | Some t \<Rightarrow>
                    put_opt ''timestamp.lt'' (tf_Lt t) PTime
                     (put_opt ''timestamp.le'' (tf_Lte t) PTime
                       (put_opt ''timestamp.gt'' (tf_Gt t) PTime
                         (put_opt ''timestamp.ge'' (tf_Gte t) PTime q3))));
          q5 = fold put_sort (qp_Sort params) q4;
          q6 = (if length (qp_Select params) > 0
                then q5(''select'' \<mapsto> PText (join_commas (qp_Select params))) else q5)
      in q6(''status'' \<mapsto> PText ''applied''))"

text \<open>
  \<^verbatim>\<open>json.Unmarshal(resp.Body(), &delegations)\<close> into \<^verbatim>\<open>[]DelegationResponse\<close>: a JSON number
  that does not fit the int64 field it is read into is an error of the whole call.
\<close>

definition decode_delegation :: "json_delegation \<Rightarrow> DelegationResponse option" where
  "decode_delegation j =
     (if in_int64 (js_id j) \<and> in_int64 (js_level j) \<and> in_int64 (js_amount j)
      then Some \<lparr>tzID = word_of_int (js_id j), tzLevel = word_of_int (js_level j),
                 tzTimestamp = js_timestamp j, Block = js_block j, Hash = js_hash j,
                 Sender = js_sender j, NewDelegate = js_newDelegate j,
                 tzAmount = word_of_int (js_amount j), PrevDelegate = js_prevDelegate j,
                 Status = js_status j\<rparr>
      else None)"

definition unmarshal_delegations :: "json_body \<Rightarrow> DelegationResponse list option" where
  "unmarshal_delegations body =
     (case body of JArray js \<Rightarrow> those (map decode_delegation js) | _ \<Rightarrow> None)"

text \<open>
  \<^verbatim>\<open>func (c *Client) GetDelegations(ctx, params) ([]DelegationResponse, error)\<close>.
  \<^verbatim>\<open>rateLimiter.Wait(ctx)\<close> fails exactly when the context is done.
\<close>

definition GetDelegations :: "Client \<Rightarrow> QueryParams \<Rightarrow> world \<Rightarrow> (error + DelegationResponse list) \<times> world" where
  "GetDelegations c params w =
     (if http w = [] then (Inl RateLimiterError, w)
      else
        let queryParams = buildQueryParams params;
            url = baseURL c @ ''/v1/operations/delegations'';
            (out, w1) = resty_execute (httpRetryCount c) \<lparr>req_url = url, req_query = queryParams\<rparr> w
        in case out of
             TransportError \<Rightarrow> (Inl FetchFailed, w1)
           | Response code body \<Rightarrow>
               if code \<noteq> 200 then (Inl (UnexpectedStatus code), w1)
               else (case unmarshal_delegations body of
                       None \<Rightarrow> (Inl UnmarshalFailed, w1)
                     | Some dels \<Rightarrow> (Inr dels, w1)))"

definition no_level_filter :: LevelFilter where
  "no_level_filter = \<lparr>lf_Eq = None, lf_Ne = None, lf_Gt = None, lf_Gte = None, lf_Lt = None,
                       lf_Lte = None, lf_In = [], lf_Ni = []\<rparr>"

definition no_timestamp_filter :: TimestampFilter where
  "no_timestamp_filter = \<lparr>tf_Eq = None, tf_Ne = None, tf_Gt = None, tf_Gte = None, tf_Lt = None,
                           tf_Lte = None\<rparr>"

text \<open>\<^verbatim>\<open>func (c *Client) GetDelegationsSince(ctx, timestamp, limit)\<close>\<close>

definition GetDelegationsSince :: "Client \<Rightarrow> time \<Rightarrow> int \<Rightarrow> world \<Rightarrow> (error + DelegationResponse list) \<times> world" where
  "GetDelegationsSince c timestamp limit w =
     GetDelegations c
       \<lparr>qp_Limit = limit, qp_Offset = 0, qp_Level = None,
        qp_Timestamp = Some (no_timestamp_filter\<lparr>tf_Gte := Some timestamp\<rparr>),
        qp_Sort = [''id.asc''], qp_Select = []\<rparr> w"

text \<open>\<^verbatim>\<open>func (c *Client) GetDelegationsFromLevel(ctx, level, limit)\<close>\<close>

definition GetDelegationsFromLevel :: "Client \<Rightarrow> int64 \<Rightarrow> int \<Rightarrow> world \<Rightarrow> (error + DelegationResponse list) \<times> world" where
  "GetDelegationsFromLevel c level limit w =
     GetDelegations c
       \<lparr>qp_Limit = limit, qp_Offset = 0,
        qp_Level = Some (no_level_filter\<lparr>lf_Gte := Some level\<rparr>),
        qp_Timestamp = None, qp_Sort = [''id.asc''], qp_Select = []\<rparr> w"


text \<open>Every call that reaches the network uses up at least one scripted exchange.\<close>

lemma resty_execute_consumes:
  "http w \<noteq> [] \<Longrightarrow> resty_execute n req w = (out, w') \<Longrightarrow> length (http w') < length (http w)"
proof (induction n arbitrary: w out w')
  case 0
  then show ?case
    by (auto simp: resty_execute.simps [of 0] Let_def split: list.splits if_splits)
next
  case (Suc n)
  from Suc.prems obtain x rest where h: "http w = x # rest" by (cases \<open>http w\<close>) auto
  define w1 where "w1 = w\<lparr>http := rest, requests := requests w @ [req]\<rparr>"
  show ?case
  proof (cases \<open>retry_condition x \<and> rest \<noteq> []\<close>)
    case True
    with Suc.prems h have "resty_execute n req w1 = (out, w')"
      by (simp add: resty_execute.simps [of "Suc n"] w1_def Let_def)
    with Suc.IH [of w1 out w'] True have "length (http w') < length (http w1)"
      by (simp add: w1_def)
    then show ?thesis by (simp add: w1_def h)
  next
    case False
    with Suc.prems h show ?thesis
      by (auto simp: resty_execute.simps [of "Suc n"] resty_execute.simps [of n] Let_def
          split: if_splits)
  qed
qed

lemma GetDelegations_consumes:
  "GetDelegations c params w = (Inr ds, w') \<Longrightarrow> length (http w') < length (http w)"
  by (auto simp: GetDelegations_def Let_def
      split: if_splits prod.splits http_outcome.splits option.splits
      dest: resty_execute_consumes)

text \<open>
  \<^verbatim>\<open>func (c *Client) GetHistoricalDelegations(ctx, startDate, batchSize)\<close>: the goroutine
  that fills the channel, run to its end. The result is what it sent, in order, and the
  terminal error it reported, if any.
\<close>

function produce :: "Client \<Rightarrow> time \<Rightarrow> int \<Rightarrow> int \<Rightarrow> world \<Rightarrow> (DelegationResponse list list \<times> error option) \<times> world" where
  "produce c startDate batchSize offset w =
     (if http w = [] then (([], Some ContextDone), w)
      else
        case GetDelegations c
               \<lparr>qp_Limit = batchSize, qp_Offset = offset, qp_Level = None,
                qp_Timestamp = Some (no_timestamp_filter\<lparr>tf_Gte := Some startDate\<rparr>),
                qp_Sort = [''id.asc''], qp_Select = []\<rparr> w of
          (Inl err, w1) \<Rightarrow> (([], Some err), w1)
        | (Inr dels, w1) \<Rightarrow>
            if length dels = 0 then (([], None), w1)
            else
              let ((pages, err), w2) = produce c startDate batchSize (offset + int (length dels)) w1
              in ((dels # pages, err), w2))"
  by pat_completeness auto
termination
  by (relation \<open>measure (\<lambda>(c, startDate, batchSize, offset, w). length (http w))\<close>)
     (auto dest: GetDelegations_consumes [OF sym])

declare produce.simps [simp del]

definition GetHistoricalDelegations :: "Client \<Rightarrow> time \<Rightarrow> int \<Rightarrow> world \<Rightarrow> (DelegationResponse list list \<times> error option) \<times> world" where
  "GetHistoricalDelegations c startDate batchSize w = produce c startDate batchSize 0 w"


section \<open>The ingestion engine (package application)\<close>

text \<open>
  \<^verbatim>\<open>type Service struct\<close> with the fields of \<^verbatim>\<open>config.TzktAPI\<close> it reads.
  \<open>HistoricalStartDate\<close> is the result of \<^verbatim>\<open>time.Parse("2006-01-02", ...)\<close> on the
  configured text, \<open>None\<close> when it does not parse. \<open>pollingTicker\<close> holds the period of the
  ticker and whether it still runs; \<open>stopPolling\<close> says whether that channel is closed.
\<close>

record Service =
  tzktClient :: Client
  BaseURL :: string
  PollingInterval :: int
  HistoricalIndexing :: bool
  HistoricalStartDate :: "time option"
  pollingTicker :: "(int \<times> bool) option"
  stopPolling :: bool
  pollingStarted :: bool

text \<open>\<^verbatim>\<open>func (s *Service) convertToDomainDelegations(tzktDelegations) []domain.Delegation\<close>\<close>

fun convertToDomainDelegations :: "DelegationResponse list \<Rightarrow> world \<Rightarrow> Delegation list \<times> world" where
  "convertToDomainDelegations [] w = ([], w)"
| "convertToDomainDelegations (d # rest) w =
     (if Status d \<noteq> ''applied'' then convertToDomainDelegations rest w
      else
        let (u, w1) = uuid_New w;
            delegation = \<lparr>ID = u, Timestamp = tzTimestamp d, Amount = FormatInt (tzAmount d),
                          Delegator = Address (Sender d), Level = FormatInt (tzLevel d),
                          BlockHash = Block d, OperationHash = Hash d, CreatedAt = now w1\<rparr>;
            (ds, w2) = convertToDomainDelegations rest w1
        in (delegation # ds, w2))"

text \<open>
  \<^verbatim>\<open>func (s *Service) pollOnce()\<close>. Its two branches are \<open>poll_recent\<close> (the store
  is empty: \<^verbatim>\<open>lastLevel == 0\<close>) and \<open>poll_new\<close>; both convert the page they
  fetched and hand it to \<^verbatim>\<open>SaveBatch\<close>, which is \<open>save_page\<close>.
\<close>

definition save_page :: "DelegationResponse list \<Rightarrow> world \<Rightarrow> error option \<times> world" where
  "save_page dels w =
     (let (domainDelegations, w4) = convertToDomainDelegations dels w
      in SaveBatch domainDelegations w4)"

definition poll_recent :: "Service \<Rightarrow> world \<Rightarrow> world" where
  "poll_recent s w =
     (let thirtyDaysAgo = now w + (- 30 * 24 * hour) in
      case GetDelegationsSince (tzktClient s) thirtyDaysAgo 1000 w of
        (Inl err, w3) \<Rightarrow> log_add (LogError ''Failed to fetch recent delegations'') w3
      | (Inr dels, w3) \<Rightarrow>
          if length dels > 0 then
            (case save_page dels w3 of
               (Some err, w5) \<Rightarrow>
                 (log_add (LogError ''Failed to save delegations'') w5)
                   \<lparr>m_ProcessedError := Suc (m_ProcessedError w5)\<rparr>
             | (None, w5) \<Rightarrow>
                 (log_add (LogSavedRecent (length dels)) w5)
                   \<lparr>m_DelegationsStored := m_DelegationsStored w5 + length dels,
                    m_ProcessedSuccess := Suc (m_ProcessedSuccess w5)\<rparr>)
          else w3)"

definition poll_new :: "Service \<Rightarrow> int64 \<Rightarrow> world \<Rightarrow> world" where
  "poll_new s lastLevel w =
     (case GetDelegationsFromLevel (tzktClient s) (lastLevel + 1) 100 w of
        (Inl err, w3) \<Rightarrow>
          (log_add (LogError ''Failed to fetch new delegations'') w3)
            \<lparr>m_PollingErrors := Suc (m_PollingErrors w3)\<rparr>
      | (Inr dels, w3) \<Rightarrow>
          if length dels > 0 then
            (case save_page dels w3 of
               (Some err, w5) \<Rightarrow>
                 (log_add (LogError ''Failed to save new delegations'') w5)
                   \<lparr>m_ProcessedError := Suc (m_ProcessedError w5)\<rparr>
             | (None, w5) \<Rightarrow>
                 (log_add (LogSavedNew (length dels) (lastLevel + 1)) w5)
                   \<lparr>m_DelegationsStored := m_DelegationsStored w5 + length dels,
                    m_ProcessedSuccess := Suc (m_ProcessedSuccess w5),
                    m_LastIndexedLevel := lastLevel + 1\<rparr>)
          else w3)"

definition pollOnce :: "Service \<Rightarrow> world \<Rightarrow> world" where
  "pollOnce s w =
     (case GetLastIndexedLevel w of
        (Inl err, w1) \<Rightarrow>
          (log_add (LogError ''Failed to get last indexed level'') w1)
            \<lparr>m_PollingErrors := Suc (m_PollingErrors w1)\<rparr>
      | (Inr lastLevel, w1) \<Rightarrow>
          let w2 = w1\<lparr>m_LastIndexedLevel := lastLevel\<rparr> in
          if lastLevel = 0 then poll_recent s w2 else poll_new s lastLevel w2)"

text \<open>
  \<^verbatim>\<open>func (s *Service) pollLoop()\<close>. What the loop's \<^verbatim>\<open>select\<close> receives is a list of
  events: the ticker firing, with the network, the store's availability and the clock that
  the tick will find, or the closing of \<^verbatim>\<open>stopPolling\<close>. The first tick is made at
  once. When the events run out the loop is left waiting.
\<close>

datatype loop_event = Tick "http_outcome list" "bool list" time | Stop

definition tick_world :: "http_outcome list \<Rightarrow> bool list \<Rightarrow> time \<Rightarrow> world \<Rightarrow> world" where
  "tick_world net faults clock w = w\<lparr>http := net, db_faults := faults, now := clock\<rparr>"

fun pollLoop_select :: "loop_event list \<Rightarrow> Service \<Rightarrow> world \<Rightarrow> world" where
  "pollLoop_select [] s w = w"
| "pollLoop_select (Tick net faults clock # evs) s w =
     pollLoop_select evs s (pollOnce s (tick_world net faults clock w))"
| "pollLoop_select (Stop # evs) s w = w"

definition pollLoop :: "loop_event list \<Rightarrow> Service \<Rightarrow> world \<Rightarrow> world" where
  "pollLoop evs s w = pollLoop_select evs s (pollOnce s w)"

text \<open>
  The consumer goroutine of \<^verbatim>\<open>indexHistorical\<close>: \<open>pages\<close> is what the channel still
  holds, \<open>perr\<close> the terminal error the producer reported, \<open>k\<close> the number of receptions the
  \<^verbatim>\<open>select\<close> makes on the data channel before it takes that error.
\<close>

fun consume :: "DelegationResponse list list \<Rightarrow> error option \<Rightarrow> nat \<Rightarrow> Delegation list \<Rightarrow> nat \<Rightarrow> world \<Rightarrow> (error option \<times> nat) \<times> world" where
  "consume [] perr k batchBuffer processedCount w =
     (case (perr, k) of
        (Some err, 0) \<Rightarrow> ((Some (FetchHistoricalFailed err), processedCount), w)
      | _ \<Rightarrow>
          if length batchBuffer > 0 then
            (case SaveBatch batchBuffer w of
               (Some err, w1) \<Rightarrow> ((Some (FinalBatchFailed err), processedCount), w1)
             | (None, w1) \<Rightarrow>
                 ((None, processedCount),
                  (log_add (LogFinalBatch (length batchBuffer)) w1)
                    \<lparr>m_DelegationsStored := m_DelegationsStored w1 + length batchBuffer,
                     m_ProcessedSuccess := Suc (m_ProcessedSuccess w1)\<rparr>))
          else ((None, processedCount), w))"
| "consume (dels # rest) perr k batchBuffer processedCount w =
     (case (perr, k) of
        (Some err, 0) \<Rightarrow> ((Some (FetchHistoricalFailed err), processedCount), w)
      | _ \<Rightarrow>
          let (domainDelegations, w1) = convertToDomainDelegations dels w;
              batchBuffer1 = batchBuffer @ domainDelegations;
              processedCount1 = processedCount + length dels
          in
          if length batchBuffer1 \<ge> 1000 then
            (case SaveBatch batchBuffer1 w1 of
               (Some err, w2) \<Rightarrow> ((Some (BatchFailed err), processedCount1), w2)
             | (None, w2) \<Rightarrow>
                 consume rest perr (k - 1) [] processedCount1
                   ((log_add (LogProgress processedCount1) w2)
                      \<lparr>m_DelegationsStored := m_DelegationsStored w2 + length batchBuffer1,
                       m_ProcessedSuccess := Suc (m_ProcessedSuccess w2)\<rparr>))
          else consume rest perr (k - 1) batchBuffer1 processedCount1 w1)"

text \<open>
  \<^verbatim>\<open>func (s *Service) verifySyncCompleteness(startDate time.Time) error\<close>: one exchange
  with the count endpoint, without retries, and a count of the stored rows. The request
  carries the day of \<open>startDate\<close> only (\<^verbatim>\<open>startDate.Format("2006-01-02")\<close>), while the
  stored rows are counted from the instant \<open>startDate\<close>.
\<close>

definition verifySyncCompleteness :: "Service \<Rightarrow> time \<Rightarrow> world \<Rightarrow> error option \<times> world" where
  "verifySyncCompleteness s startDate w =
     (case http w of
        [] \<Rightarrow> (Some CountFetchFailed, w)
      | out # rest \<Rightarrow>
          let w1 = w\<lparr>http := rest,
                     requests := requests w @
                       [\<lparr>req_url = BaseURL s @ ''/v1/operations/delegations/count'',
                         req_query = [''timestamp.ge'' \<mapsto> PDate (startDate div (24 * hour)),
                                      ''status'' \<mapsto> PText ''applied'']\<rparr>]\<rparr>
          in case out of
               TransportError \<Rightarrow> (Some CountFetchFailed, w1)
             | Response code body \<Rightarrow>
                 (case body of
                    JNumber tzktCount \<Rightarrow>
                      if \<not> in_int64 tzktCount then (Some CountParseFailed, w1)
                      else
                        (case FindAll None w1 of
                           (Inl err, w2) \<Rightarrow> (Some (DBCountFailed err), w2)
                         | (Inr dbDelegations, w2) \<Rightarrow>
                             let dbCount = int (length (filter (\<lambda>d. startDate \<le> Timestamp d) dbDelegations));
                                 difference = tzktCount - dbCount;
                                 w3 = log_add (LogInfo ''Sync verification complete'') w2
                             in if difference > 0 then (Some (MissingFromTzKT difference), w3)
                                else (None, w3))
                  | _ \<Rightarrow> (Some CountParseFailed, w1)))"

text \<open>\<^verbatim>\<open>func (s *Service) createBackup()\<close>: the script runs in a goroutine of its own.\<close>

definition createBackup :: "world \<Rightarrow> world" where
  "createBackup w =
     (log_add (LogInfo ''Creating database backup...'') w)\<lparr>goroutines := goroutines w @ [BackupTask]\<rparr>"

text \<open>
  \<^verbatim>\<open>func (s *Service) indexHistorical() error\<close>, in three steps: the resume point
  (\<open>resume_point\<close>), the work from the freshness check on (\<open>backfill_from\<close>), and the
  function itself.
\<close>

definition resume_point :: "Service \<Rightarrow> Delegation list \<Rightarrow> world \<Rightarrow> error + time \<times> world" where
  "resume_point s existingDelegations w =
     (if length existingDelegations > 0 then
        (let lastTimestamp =
               fold (\<lambda>d last. if last < Timestamp d then Timestamp d else last)
                 existingDelegations 0
         in Inr (lastTimestamp + 1 * second,
                 log_add (LogInfo ''Continuing from existing data'') w))
      else
        (case HistoricalStartDate s of
           None \<Rightarrow> Inl InvalidStartDate
         | Some t \<Rightarrow> Inr (t, log_add (LogInfo ''Starting fresh historical indexing'') w)))"

definition backfill_from :: "Service \<Rightarrow> time \<Rightarrow> world \<Rightarrow> error option \<times> world" where
  "backfill_from s startDate w =
     (if now w - startDate < 1 * hour then
        (None, log_add (LogInfo ''Historical data is up to date, skipping historical indexing'') w)
      else
        let ((pages, perr), w3) = GetHistoricalDelegations (tzktClient s) startDate 500 w;
            ((cerr, processedCount), w4) = consume pages perr (sched w3) [] 0 w3
        in case cerr of
             Some err \<Rightarrow> (Some (HistoricalFailed err), w4)
           | None \<Rightarrow>
               let w5 = log_add (LogInfo ''Historical indexing completed'') w4;
                   (verr, w6) = verifySyncCompleteness s startDate w5;
                   w7 = (case verr of
                           Some err \<Rightarrow> log_add (LogWarn ''Sync verification detected issues'') w6
                         | None \<Rightarrow> w6);
                   w8 = (if processedCount > 0 then createBackup w7 else w7)
               in (None, w8))"

definition indexHistorical :: "Service \<Rightarrow> world \<Rightarrow> error option \<times> world" where
  "indexHistorical s w =
     (case FindAll None w of
        (Inl err, w1) \<Rightarrow> (Some (CheckExistingFailed err), w1)
      | (Inr existingDelegations, w1) \<Rightarrow>
          (case resume_point s existingDelegations w1 of
             Inl err \<Rightarrow> (Some err, w1)
           | Inr (startDate, w2) \<Rightarrow> backfill_from s startDate w2))"

text \<open>
  \<^verbatim>\<open>func (s *Service) StartPolling() error\<close>. \<^verbatim>\<open>time.NewTicker\<close> panics on a period that
  is not positive: the result \<open>None\<close> is that panic. \<^verbatim>\<open>go s.pollLoop()\<close> is the entry
  \<open>PollLoopTask\<close> of \<open>goroutines\<close>; what that goroutine does is \<open>pollLoop\<close>.
\<close>

definition StartPolling :: "Service \<Rightarrow> world \<Rightarrow> (error option \<times> Service \<times> world) option" where
  "StartPolling s w =
     (if pollingStarted s then Some (Some AlreadyStarted, s, w)
      else
        let s1 = s\<lparr>pollingStarted := True\<rparr>;
            w1 = (if HistoricalIndexing s1 then
                    (let w0 = log_add (LogInfo ''Starting historical indexing...'') w in
                     case indexHistorical s1 w0 of
                       (Some err, w') \<Rightarrow> log_add (LogError ''Historical indexing failed'') w'
                     | (None, w') \<Rightarrow> log_add (LogInfo ''Historical indexing completed successfully'') w')
                  else w)
        in if PollingInterval s1 \<le> 0 then None
           else
             let s2 = s1\<lparr>pollingTicker := Some (PollingInterval s1, True)\<rparr>;
                 w2 = w1\<lparr>goroutines := goroutines w1 @ [PollLoopTask]\<rparr>
             in Some (None, s2, log_add (LogInfo ''Polling started'') w2))"


text \<open>\<^verbatim>\<open>func NewService(repo, tzktClient, config, logger) *Service\<close>\<close>

definition NewService :: "Client \<Rightarrow> string \<Rightarrow> int \<Rightarrow> bool \<Rightarrow> time option \<Rightarrow> Service" where
  "NewService client url interval historical startDate =
     \<lparr>tzktClient = client, BaseURL = url, PollingInterval = interval,
      HistoricalIndexing = historical, HistoricalStartDate = startDate,
      pollingTicker = None, stopPolling = False, pollingStarted = False\<rparr>"


section \<open>Sample data and proof devices\<close>

text \<open>The argument list \<^verbatim>\<open>SaveBatch\<close> queues for one delegation.\<close>

definition to_args :: "Delegation \<Rightarrow> sqlval list" where
  "to_args d = [SText (ID d), STime (Timestamp d), SText (Amount d), SText (Delegator d),
           SText (Level d), SText (BlockHash d), SText (OperationHash d), STime (CreatedAt d)]"

text \<open>A healthy, empty store and two events that share their operation_hash.\<close>

definition world0 :: world where
  "world0 = \<lparr>delegations = [], indexing_metadata = Some (0, None), db_faults = [],
     pg_year = (\<lambda>t. 1 + t div (31556952 * second)),
     uuid_gen = (\<lambda>n. ''uuid-'' @ digits n), uuid_next = 0, now = 63900000000 * second,
     http = [], requests = [], sched = 0, logs = [], goroutines = [],
     m_PollingErrors = 0, m_LastIndexedLevel = 0, m_DelegationsStored = 0,
     m_ProcessedSuccess = 0, m_ProcessedError = 0\<rparr>"

definition ev1 :: Delegation where
  "ev1 = \<lparr>ID = ''id-1'', Timestamp = 63800000000 * second, Amount = ''100'', Delegator = ''tz1abc'',
          Level = ''1000'', BlockHash = ''BlockA'', OperationHash = ''op1'', CreatedAt = 5\<rparr>"

definition ev2 :: Delegation where
  "ev2 = \<lparr>ID = ''id-2'', Timestamp = 63800000030 * second, Amount = ''250'', Delegator = ''tz1abc'',
          Level = ''1001'', BlockHash = ''BlockB'', OperationHash = ''op1'', CreatedAt = 6\<rparr>"

definition world1 :: world where
  "world1 = world0\<lparr>delegations := [ev2]\<rparr>"

text \<open>What no operation of the engine or the store's batch path changes.\<close>

definition frame :: "world \<Rightarrow> world \<Rightarrow> bool" where
  "frame w w' \<longleftrightarrow> indexing_metadata w' = indexing_metadata w \<and> uuid_gen w' = uuid_gen w
     \<and> pg_year w' = pg_year w \<and> sched w' = sched w"

text \<open>A client and a service as \<^verbatim>\<open>main\<close> builds them, and a page of two events.\<close>

definition client0 :: Client where
  "client0 = NewClient ''https://api.tzkt.io'' (30 * second) 3 (5 * second)"

definition svc0 :: Service where
  "svc0 = NewService client0 ''https://api.tzkt.io'' (30 * second) True (Some (63800000000 * second))"

definition js1 :: json_delegation where
  "js1 = \<lparr>js_id = 1, js_level = 1000, js_timestamp = 63899990000 * second, js_block = ''BlockA'',
          js_hash = ''op1'', js_sender = \<lparr>Address = ''tz1abc'', Alias = []\<rparr>,
          js_newDelegate = None, js_amount = 1000000, js_prevDelegate = None,
          js_status = ''applied''\<rparr>"

definition js2 :: json_delegation where
  "js2 = \<lparr>js_id = 2, js_level = 1001, js_timestamp = 63899990030 * second, js_block = ''BlockB'',
          js_hash = ''op2'', js_sender = \<lparr>Address = ''tz1def'', Alias = []\<rparr>,
          js_newDelegate = None, js_amount = 2500000, js_prevDelegate = None,
          js_status = ''applied''\<rparr>"

definition world_seed :: world where
  "world_seed = world0\<lparr>http := [Response 200 (JArray [js1, js2])]\<rparr>"

definition convert_one :: "DelegationResponse \<Rightarrow> string \<Rightarrow> time \<Rightarrow> Delegation" where
  "convert_one d u t = \<lparr>ID = u, Timestamp = tzTimestamp d, Amount = FormatInt (tzAmount d),
                          Delegator = Address (Sender d), Level = FormatInt (tzLevel d),
                          BlockHash = Block d, OperationHash = Hash d, CreatedAt = t\<rparr>"

definition since_params :: "time \<Rightarrow> int \<Rightarrow> QueryParams" where
  "since_params timestamp limit =
     \<lparr>qp_Limit = limit, qp_Offset = 0, qp_Level = None,
      qp_Timestamp = Some (no_timestamp_filter\<lparr>tf_Gte := Some timestamp\<rparr>),
      qp_Sort = [''id.asc''], qp_Select = []\<rparr>"

definition level_params :: "int64 \<Rightarrow> int \<Rightarrow> QueryParams" where
  "level_params level limit =
     \<lparr>qp_Limit = limit, qp_Offset = 0,
      qp_Level = Some (no_level_filter\<lparr>lf_Gte := Some level\<rparr>),
      qp_Timestamp = None, qp_Sort = [''id.asc''], qp_Select = []\<rparr>"

definition delegations_request :: "Client \<Rightarrow> QueryParams \<Rightarrow> request" where
  "delegations_request c p =
     \<lparr>req_url = baseURL c @ ''/v1/operations/delegations'', req_query = buildQueryParams p\<rparr>"

definition rs1 :: DelegationResponse where
  "rs1 = \<lparr>tzID = 1, tzLevel = 1000, tzTimestamp = 63899990000 * second, Block = ''BlockA'',
           Hash = ''op1'', Sender = \<lparr>Address = ''tz1abc'', Alias = []\<rparr>, NewDelegate = None,
           tzAmount = 1000000, PrevDelegate = None, Status = ''applied''\<rparr>"

definition rs2 :: DelegationResponse where
  "rs2 = \<lparr>tzID = 2, tzLevel = 1001, tzTimestamp = 63899990030 * second, Block = ''BlockB'',
           Hash = ''op2'', Sender = \<lparr>Address = ''tz1def'', Alias = []\<rparr>, NewDelegate = None,
           tzAmount = 2500000, PrevDelegate = None, Status = ''applied''\<rparr>"

definition net_frame :: "world \<Rightarrow> world \<Rightarrow> bool" where
  "net_frame w w' \<longleftrightarrow> http w' = http w \<and> requests w' = requests w \<and> now w' = now w
     \<and> goroutines w' = goroutines w \<and> m_ProcessedSuccess w' = m_ProcessedSuccess w
     \<and> m_DelegationsStored w' = m_DelegationsStored w"

definition world_next :: world where
  "world_next = tick_world [Response 200 (JArray [])] [] (63900000030 * second) (pollOnce svc0 world_seed)"

definition world_retry :: world where
  "world_retry = world0\<lparr>http := [Response 500 Malformed, Response 500 Malformed,
                                   Response 200 (JArray [js1])]\<rparr>"

definition world_404 :: world where
  "world_404 = world0\<lparr>http := [Response 404 Malformed, Response 200 (JArray [js1])]\<rparr>"

definition world_503 :: world where
  "world_503 = world0\<lparr>http := [Response 503 Malformed, TransportError, Response 429 Malformed,
                                 Response 500 Malformed, Response 200 (JArray [js1])]\<rparr>"

definition db_frame :: "world \<Rightarrow> world \<Rightarrow> bool" where
  "db_frame w w' \<longleftrightarrow> delegations w' = delegations w \<and> db_faults w' = db_faults w
     \<and> uuid_next w' = uuid_next w \<and> logs w' = logs w \<and> now w' = now w
     \<and> goroutines w' = goroutines w \<and> m_DelegationsStored w' = m_DelegationsStored w
     \<and> m_ProcessedSuccess w' = m_ProcessedSuccess w"

definition js_big :: json_delegation where
  "js_big = js2\<lparr>js_amount := 9223372036854775808\<rparr>"

definition world_big :: world where
  "world_big = world0\<lparr>http := [Response 200 (JArray [js1, js_big])]\<rparr>"

text \<open>A store that fails its next call, and the service and the world that \<^verbatim>\<open>StartPolling\<close>
  leaves when the backfill failed on it.\<close>

definition world_down :: world where
  "world_down = world0\<lparr>db_faults := [True]\<rparr>"

definition svc_started :: Service where
  "svc_started = svc0\<lparr>pollingStarted := True, pollingTicker := Some (30 * second, True)\<rparr>"

definition world_started :: world where
  "world_started = world0\<lparr>logs := [LogInfo ''Starting historical indexing...'',
                                      LogError ''Historical indexing failed'',
                                      LogInfo ''Polling started''],
                             goroutines := [PollLoopTask]\<rparr>"

text \<open>
  The flush rule in the specification's words, on sizes only: \<open>spec_flushes buffered ns\<close>
  are the sizes of the flushes when the buffer holds \<open>buffered\<close> events and pages that add
  \<open>ns\<close> events arrive before the channel is closed; \<open>spec_remainder\<close> is what the buffer
  holds at the close. \<open>applied_count\<close> is what a page adds to the buffer.
\<close>

definition applied_count :: "DelegationResponse list \<Rightarrow> nat" where
  "applied_count dels = length (filter (\<lambda>d. Status d = ''applied'') dels)"

fun spec_flushes :: "nat \<Rightarrow> nat list \<Rightarrow> nat list" where
  "spec_flushes buffered [] = (if buffered > 0 then [buffered] else [])"
| "spec_flushes buffered (n # ns) =
     (if buffered + n \<ge> 1000 then (buffered + n) # spec_flushes 0 ns
      else spec_flushes (buffered + n) ns)"

fun spec_remainder :: "nat \<Rightarrow> nat list \<Rightarrow> nat" where
  "spec_remainder buffered [] = buffered"
| "spec_remainder buffered (n # ns) =
     (if buffered + n \<ge> 1000 then spec_remainder 0 ns else spec_remainder (buffered + n) ns)"

text \<open>
  What the log tells of the flushes: the size of every batch \<^verbatim>\<open>SaveBatch\<close> reports as
  saved, and the sizes of the batches the consumer reports as final.
\<close>

fun flush_sizes :: "log_entry list \<Rightarrow> nat list" where
  "flush_sizes [] = []"
| "flush_sizes (LogSavedBatch attempted saved duplicates # es) = attempted # flush_sizes es"
| "flush_sizes (e # es) = flush_sizes es"

fun final_sizes :: "log_entry list \<Rightarrow> nat list" where
  "final_sizes [] = []"
| "final_sizes (LogFinalBatch n # es) = n # final_sizes es"
| "final_sizes (e # es) = final_sizes es"

text \<open>The rows \<^verbatim>\<open>convertToDomainDelegations\<close> makes of applied events, the ids drawn from
  \<open>u\<close> on; and a source of 1500 applied events with hashes of their own, in pages.\<close>

definition convert_from :: "(nat \<Rightarrow> string) \<Rightarrow> time \<Rightarrow> nat \<Rightarrow> DelegationResponse list \<Rightarrow> Delegation list" where
  "convert_from g t u dels = map (\<lambda>(i, d). convert_one d (g i) t) (enumerate u dels)"

definition js_n :: "nat \<Rightarrow> json_delegation" where
  "js_n n = \<lparr>js_id = int n, js_level = 2000 + int n,
            js_timestamp = 63800000000 * second + int n, js_block = ''Block'',
            js_hash = ''op'' @ digits n, js_sender = \<lparr>Address = ''tz1abc'', Alias = []\<rparr>,
            js_newDelegate = None, js_amount = 1000000, js_prevDelegate = None,
            js_status = ''applied''\<rparr>"

definition rs_n :: "nat \<Rightarrow> DelegationResponse" where
  "rs_n n = \<lparr>tzID = word_of_int (int n), tzLevel = word_of_int (2000 + int n),
            tzTimestamp = 63800000000 * second + int n, Block = ''Block'',
            Hash = ''op'' @ digits n, Sender = \<lparr>Address = ''tz1abc'', Alias = []\<rparr>,
            NewDelegate = None, tzAmount = word_of_int 1000000, PrevDelegate = None,
            Status = ''applied''\<rparr>"

definition json_page :: "nat \<Rightarrow> nat \<Rightarrow> json_body" where
  "json_page a n = JArray (map js_n [a..<a + n])"

definition page :: "nat \<Rightarrow> nat \<Rightarrow> DelegationResponse list" where
  "page a n = map rs_n [a..<a + n]"

definition world_backfill :: world where
  "world_backfill = world0\<lparr>http := [Response 200 (json_page 0 500), Response 200 (json_page 500 500),
                                      Response 200 (json_page 1000 500), Response 200 (JArray []),
                                      Response 200 (JNumber 1500)]\<rparr>"

text \<open>
  A table whose greatest level is not in its last row; the page of two as the seed tick
  converts it and the world that tick's fetch leaves; and the world of a later tick whose
  fetch, from level 1002, returns one more event.
\<close>

definition world_unordered :: world where
  "world_unordered = world0\<lparr>delegations := [convert_one rs2 ''uuid-1'' (63900000000 * second),
                                                convert_one rs1 ''uuid-0'' (63900000000 * second)]\<rparr>"

definition seed_batch :: "Delegation list" where
  "seed_batch = [convert_one rs1 ''uuid-0'' (63900000000 * second),
                 convert_one rs2 ''uuid-1'' (63900000000 * second)]"

definition world_seed_fetched :: world where
  "world_seed_fetched = world_seed\<lparr>m_LastIndexedLevel := 0, http := [],
      requests := [delegations_request client0
                     (since_params (63900000000 * second + (- 30 * 24 * hour)) 1000)]\<rparr>"

definition world_more :: world where
  "world_more = tick_world [Response 200 (JArray [js_n 7])] [] (63900000030 * second)
                  (pollOnce svc0 world_seed)"

definition world_more_fetched :: world where
  "world_more_fetched = world_more\<lparr>m_LastIndexedLevel := 1001, http := [],
      requests := requests world_more @ [delegations_request client0 (level_params 1002 100)]\<rparr>"

section \<open>Properties of the store\<close>

lemma upsert_stmt_seven:
  "upsert_stmt [SText i, STime ts, SText a, SText dl, SText lv, SText bh, STime ca] rows = Inl BindError"
  by simp

text \<open>
  C10: \<^verbatim>\<open>Repository.Save\<close> binds seven arguments (operation_hash is left out) to a
  statement with eight placeholders, so it returns an error for every delegation and every
  state of the store, and the table is left as it was.
\<close>

theorem Save_always_fails:
  "fst (Save d w) \<noteq> None \<and> delegations (snd (snd (Save d w))) = delegations w"
  by (auto simp add: Save_def fill_defaults_def uuid_New_def db_call_def log_add_def Let_def
      split: prod.splits list.splits if_splits)


lemma upsert_stmt_to_args: "upsert_stmt (to_args d) rows = upsert_row d rows"
  by (cases d) (simp add: to_args_def)

lemma fill_defaults_fields:
  "fill_defaults d w = (d', w') \<Longrightarrow>
     OperationHash d' = OperationHash d \<and> Amount d' = Amount d \<and> Timestamp d' = Timestamp d
     \<and> Delegator d' = Delegator d \<and> Level d' = Level d \<and> BlockHash d' = BlockHash d
     \<and> (ID d \<noteq> [] \<longrightarrow> ID d' = ID d)
     \<and> (\<exists>n. w' = w\<lparr>uuid_next := n\<rparr>)"
proof -
  assume a: "fill_defaults d w = (d', w')"
  have "\<exists>n. w = w\<lparr>uuid_next := n\<rparr>" by (rule exI [of _ "uuid_next w"]) simp
  with a show ?thesis
    by (auto simp: fill_defaults_def uuid_New_def Let_def split: if_splits prod.splits)
qed

lemma queue_batch_filled:
  "queue_batch ds w = (q, w') \<Longrightarrow>
     \<exists>fs. q = map to_args fs \<and> map OperationHash fs = map OperationHash ds
        \<and> map Amount fs = map Amount ds
        \<and> ([] \<notin> set (map ID ds) \<longrightarrow> map ID fs = map ID ds)
        \<and> (\<exists>n. w' = w\<lparr>uuid_next := n\<rparr>)"
proof (induction ds arbitrary: w q w')
  case Nil
  have "\<exists>n. w = w\<lparr>uuid_next := n\<rparr>" by (rule exI [of _ "uuid_next w"]) simp
  with Nil show ?case by auto
next
  case (Cons d ds)
  obtain d1 w1 where f: "fill_defaults d w = (d1, w1)" by force
  obtain q2 w2 where r: "queue_batch ds w1 = (q2, w2)" by force
  from Cons.prems f r have q: "q = to_args d1 # q2" and w': "w' = w2"
    by (simp_all add: to_args_def)
  from Cons.IH [OF r] obtain fs n where fs: "q2 = map to_args fs"
    "map OperationHash fs = map OperationHash ds" "map Amount fs = map Amount ds"
    "[] \<notin> set (map ID ds) \<longrightarrow> map ID fs = map ID ds"
    "w2 = w1\<lparr>uuid_next := n\<rparr>" by blast
  from fill_defaults_fields [OF f] obtain m where m: "w1 = w\<lparr>uuid_next := m\<rparr>" by blast
  have "w' = w\<lparr>uuid_next := n\<rparr>" using w' fs(5) m by simp
  then have "\<exists>n. w' = w\<lparr>uuid_next := n\<rparr>" by blast
  with fill_defaults_fields [OF f] fs(1-4) q show ?case
    by (intro exI [of _ "d1 # fs"]) auto
qed

lemma on_conflict_update_hash [simp]: "OperationHash (on_conflict_update d r) = OperationHash r"
  by (simp add: on_conflict_update_def)

lemma on_conflict_update_id [simp]: "ID (on_conflict_update d r) = ID r"
  by (simp add: on_conflict_update_def)

lemma map_hash_update [simp]: "map OperationHash (map (on_conflict_update d) rows) = map OperationHash rows"
  by (induction rows) auto

lemma map_id_update [simp]: "map ID (map (on_conflict_update d) rows) = map ID rows"
  by (induction rows) auto

lemma image_hash_update [simp]: "OperationHash ` on_conflict_update d ` S = OperationHash ` S"
  by (simp add: image_image)

lemma image_id_update [simp]: "ID ` on_conflict_update d ` S = ID ` S"
  by (simp add: image_image)

lemma filter_hash_update:
  "filter (\<lambda>r. OperationHash r = h) (map (on_conflict_update d) rows) = map (on_conflict_update d) (filter (\<lambda>r. OperationHash r = h) rows)"
  by (induction rows) auto

lemma filter_hash_absent:
  "h \<notin> set (map OperationHash rows) \<Longrightarrow> filter (\<lambda>r. OperationHash r = h) rows = []"
  by (induction rows) auto

lemma distinct_filter_hash:
  "distinct (map OperationHash rows) \<Longrightarrow> h \<in> set (map OperationHash rows) \<Longrightarrow>
   \<exists>r. filter (\<lambda>r. OperationHash r = h) rows = [r] \<and> OperationHash r = h"
proof (induction rows)
  case Nil
  then show ?case by simp
next
  case (Cons a rows)
  show ?case
  proof (cases "OperationHash a = h")
    case True
    with Cons.prems have "filter (\<lambda>r. OperationHash r = h) rows = []"
      by (intro filter_hash_absent) simp
    with True show ?thesis by simp
  next
    case False
    with Cons show ?thesis by (auto)
  qed
qed

lemma upsert_row_step:
  assumes "upsert_row d rows = Inr rows1" and "distinct (map OperationHash rows)"
  shows "distinct (map OperationHash rows1)"
    and "set (map OperationHash rows1) = insert (OperationHash d) (set (map OperationHash rows))"
    and "map Amount (filter (\<lambda>r. OperationHash r = OperationHash d) rows1) = [Amount d]"
    and "h \<noteq> OperationHash d \<Longrightarrow> map Amount (filter (\<lambda>r. OperationHash r = h) rows1) = map Amount (filter (\<lambda>r. OperationHash r = h) rows)"
    and "set (map ID rows1) \<subseteq> insert (ID d) (set (map ID rows))"
proof -
  show "distinct (map OperationHash rows1)"
    using assms by (auto simp: upsert_row_def simp del: map_map split: if_splits)
  show "set (map OperationHash rows1) = insert (OperationHash d) (set (map OperationHash rows))"
    using assms by (auto simp: upsert_row_def simp del: map_map split: if_splits)
  show "set (map ID rows1) \<subseteq> insert (ID d) (set (map ID rows))"
    using assms by (auto simp: upsert_row_def simp del: map_map split: if_splits)
  show "map Amount (filter (\<lambda>r. OperationHash r = OperationHash d) rows1) = [Amount d]"
  proof (cases "OperationHash d \<in> set (map OperationHash rows)")
    case True
    with assms have r1: "rows1 = map (on_conflict_update d) rows" by (simp add: upsert_row_def)
    from distinct_filter_hash [OF assms(2) True] obtain r where
      "filter (\<lambda>r. OperationHash r = OperationHash d) rows = [r]" "OperationHash r = OperationHash d" by blast
    then show ?thesis by (simp add: r1 filter_hash_update on_conflict_update_def)
  next
    case False
    with assms have r1: "rows1 = rows @ [d]" by (auto simp: upsert_row_def split: if_splits)
    from False have "filter (\<lambda>r. OperationHash r = OperationHash d) rows = []"
      by (rule filter_hash_absent)
    then show ?thesis by (simp add: r1)
  qed
  show "map Amount (filter (\<lambda>r. OperationHash r = h) rows1) = map Amount (filter (\<lambda>r. OperationHash r = h) rows)" if "h \<noteq> OperationHash d"
  proof -
    have "map Amount (filter (\<lambda>r. OperationHash r = h) (map (on_conflict_update d) rows)) = map Amount (filter (\<lambda>r. OperationHash r = h) rows)"
      using that by (induction rows) (auto simp: on_conflict_update_def)
    then show ?thesis using assms that
      by (auto simp: upsert_row_def split: if_splits)
  qed
qed

lemma tx_exec_to_args:
  "tx_exec (to_args f) t =
     (if tx_aborted t then (Some (PgError ''25P02''), t)
      else case upsert_row f (tx_rows t) of
             Inl e \<Rightarrow> (Some e, t\<lparr>tx_aborted := True\<rparr>)
           | Inr rows \<Rightarrow> (None, t\<lparr>tx_rows := rows\<rparr>))"
  by (simp add: tx_exec_def upsert_stmt_to_args)

lemma exec_batch_aborted:
  "tx_aborted t \<Longrightarrow> exec_batch q i s d t = Inr (s', d', t') \<Longrightarrow> tx_aborted t'"
  by (cases q) (auto simp: tx_exec_def)

lemma map_amount_filter_cong:
  "map OperationHash fs = map OperationHash ds \<Longrightarrow> map Amount fs = map Amount ds \<Longrightarrow>
   map Amount (filter (\<lambda>r. OperationHash r = h) fs) = map Amount (filter (\<lambda>r. OperationHash r = h) ds)"
proof (induction fs arbitrary: ds)
  case Nil
  then show ?case by simp
next
  case (Cons f fs)
  then obtain d ds' where ds: "ds = d # ds'" by (cases ds) auto
  with Cons.prems have "OperationHash f = OperationHash d" "Amount f = Amount d"
    "map OperationHash fs = map OperationHash ds'" "map Amount fs = map Amount ds'" by auto
  with Cons.IH [of ds'] ds show ?case by simp
qed

lemma exec_batch_committed:
  assumes "exec_batch (map to_args fs) i s d t = Inr (s', d', t')"
    and "\<not> tx_aborted t'"
    and "distinct (map OperationHash (tx_rows t))"
  shows "distinct (map OperationHash (tx_rows t')) \<and>
         set (map OperationHash (tx_rows t')) = set (map OperationHash (tx_rows t)) \<union> set (map OperationHash fs) \<and>
         (\<forall>h. map Amount (filter (\<lambda>r. OperationHash r = h) (tx_rows t')) =
           (if h \<in> set (map OperationHash fs)
            then [last (map Amount (filter (\<lambda>r. OperationHash r = h) fs))]
            else map Amount (filter (\<lambda>r. OperationHash r = h) (tx_rows t))))"
  using assms
proof (induction fs arbitrary: i s d t)
  case Nil
  then show ?case by simp
next
  case (Cons f fs)
  have na: "\<not> tx_aborted t"
    using Cons.prems(1,2) exec_batch_aborted by blast
  show ?case
  proof (cases "upsert_row f (tx_rows t)")
    case (Inl e)
    with na Cons.prems(1) have "e = PgError ''23505''"
      "exec_batch (map to_args fs) (Suc i) s (Suc d) (t\<lparr>tx_aborted := True\<rparr>) = Inr (s', d', t')"
      by (auto simp: tx_exec_to_args split: if_splits)
    then have "tx_aborted t'" using exec_batch_aborted [of "t\<lparr>tx_aborted := True\<rparr>"] by simp
    with Cons.prems(2) show ?thesis by simp
  next
    case (Inr rows1)
    with na Cons.prems(1) have ex:
      "exec_batch (map to_args fs) (Suc i) (Suc s) d (t\<lparr>tx_rows := rows1\<rparr>) = Inr (s', d', t')"
      by (auto simp: tx_exec_to_args)
    note st = upsert_row_step [OF Inr Cons.prems(3)]
    have d1: "distinct (map OperationHash (tx_rows (t\<lparr>tx_rows := rows1\<rparr>)))"
      using st(1) by simp
    note ih = Cons.IH [OF ex Cons.prems(2) d1]
    have a: "distinct (map OperationHash (tx_rows t'))" using ih by blast
    have b: "set (map OperationHash (tx_rows t')) =
        set (map OperationHash (tx_rows t)) \<union> set (map OperationHash (f # fs))"
      using ih st(2) by auto
    have c: "map Amount (filter (\<lambda>r. OperationHash r = h) (tx_rows t')) =
           (if h \<in> set (map OperationHash (f # fs))
            then [last (map Amount (filter (\<lambda>r. OperationHash r = h) (f # fs)))]
            else map Amount (filter (\<lambda>r. OperationHash r = h) (tx_rows t)))" for h
    proof (cases "h \<in> set (map OperationHash fs)")
      case True
      then have ne: "filter (\<lambda>r. OperationHash r = h) fs \<noteq> []"
        by (auto simp: filter_empty_conv)
      from ih True have "map Amount (filter (\<lambda>r. OperationHash r = h) (tx_rows t')) =
         [last (map Amount (filter (\<lambda>r. OperationHash r = h) fs))]" by simp
      with True ne show ?thesis by simp
    next
      case False
      then have e: "filter (\<lambda>r. OperationHash r = h) fs = []"
        by (auto simp: filter_empty_conv)
      from ih False have r: "map Amount (filter (\<lambda>r. OperationHash r = h) (tx_rows t')) =
         map Amount (filter (\<lambda>r. OperationHash r = h) rows1)" by simp
      show ?thesis
      proof (cases "h = OperationHash f")
        case True
        with r st(3) e False show ?thesis by simp
      next
        case nf: False
        with r st(4) [of h] e False show ?thesis by simp
      qed
    qed
    from a b c show ?thesis by blast
  qed
qed

lemma exec_batch_fresh:
  assumes "\<not> tx_aborted t" and "distinct (map ID fs)"
    and "set (map ID fs) \<inter> set (map ID (tx_rows t)) = {}"
  shows "\<exists>t'. exec_batch (map to_args fs) i s d t = Inr (s + length fs, d, t') \<and> \<not> tx_aborted t'"
  using assms
proof (induction fs arbitrary: i s t)
  case Nil
  then show ?case by simp
next
  case (Cons f fs)
  from Cons.prems(3) have nf: "ID f \<notin> set (map ID (tx_rows t))" by auto
  then have "\<exists>rows1. upsert_row f (tx_rows t) = Inr rows1"
    by (simp add: upsert_row_def)
  then obtain rows1 where u: "upsert_row f (tx_rows t) = Inr rows1" by blast
  then have ids: "set (map ID rows1) \<subseteq> insert (ID f) (set (map ID (tx_rows t)))"
    by (auto simp: upsert_row_def split: if_splits)
  have step: "exec_batch (map to_args (f # fs)) i s d t =
      exec_batch (map to_args fs) (Suc i) (Suc s) d (t\<lparr>tx_rows := rows1\<rparr>)"
    using Cons.prems(1) u by (simp add: tx_exec_to_args)
  have "ID f \<notin> set (map ID fs)" "set (map ID fs) \<inter> set (map ID (tx_rows t)) = {}"
    using Cons.prems(2,3) by auto
  with ids have "set (map ID fs) \<inter> set (map ID rows1) = {}"
    by blast
  then have "set (map ID fs) \<inter> set (map ID (tx_rows (t\<lparr>tx_rows := rows1\<rparr>))) = {}"
    by simp
  with Cons.IH [of "t\<lparr>tx_rows := rows1\<rparr>" "Suc i" "Suc s"] Cons.prems(1,2) step
  show ?case by auto
qed

text \<open>
  C1: when \<^verbatim>\<open>SaveBatch\<close> succeeds on a table that holds each operation_hash at most
  once, then for every event \<open>e\<close> of the batch the table holds exactly one row with the
  operation_hash of \<open>e\<close>, and the amount of that row is the amount of the last event of the
  batch with that operation_hash. The table still holds each operation_hash once, and the
  operation hashes it holds are those it held and those of the batch: events are merged
  when, and only when, their operation_hash is the same.
\<close>

theorem SaveBatch_one_row_per_operation_hash:
  assumes "distinct (map OperationHash (delegations w))"
    and "SaveBatch ds w = (None, w')"
    and "e \<in> set ds"
  shows "map Amount (filter (\<lambda>r. OperationHash r = OperationHash e) (delegations w')) =
           [Amount (last (filter (\<lambda>x. OperationHash x = OperationHash e) ds))]
         \<and> distinct (map OperationHash (delegations w'))
         \<and> set (map OperationHash (delegations w')) =
             set (map OperationHash (delegations w)) \<union> set (map OperationHash ds)"
proof -
  from assms(3) have ne: "ds \<noteq> []" by auto
  obtain fault w1 where c: "db_call w = (fault, w1)" by force
  obtain q w2 where qb: "queue_batch ds w1 = (q, w2)" by force
  have w1: "delegations w1 = delegations w"
    using c by (auto simp: db_call_def split: list.splits)
  from queue_batch_filled [OF qb] obtain fs n where fs: "q = map to_args fs"
    "map OperationHash fs = map OperationHash ds" "map Amount fs = map Amount ds"
    and w2n: "w2 = w1\<lparr>uuid_next := n\<rparr>" by blast
  have w2: "delegations w2 = delegations w"
    using w1 by (simp add: w2n)
  define t0 where "t0 = \<lparr>tx_rows = delegations w2, tx_aborted = False\<rparr>"
  from assms(2) ne c qb obtain sc dc t where
    ex: "exec_batch q 0 0 0 t0 = Inr (sc, dc, t)" and na: "\<not> tx_aborted t"
    and w': "delegations w' = tx_rows t"
    by (auto simp: SaveBatch_def t0_def log_add_def split: if_splits sum.splits)
  have d0: "distinct (map OperationHash (tx_rows t0))"
    using assms(1) w2 by (simp add: t0_def)
  note r = exec_batch_committed [OF ex [unfolded fs(1)] na d0]
  let ?h = "OperationHash e"
  have hin: "?h \<in> set (map OperationHash fs)"
    using assms(3) fs(2) by (metis image_eqI list.set_map)
  have nef: "filter (\<lambda>x. OperationHash x = ?h) ds \<noteq> []"
    using assms(3) by (auto simp: filter_empty_conv)
  from r hin have "map Amount (filter (\<lambda>r. OperationHash r = ?h) (tx_rows t)) =
      [last (map Amount (filter (\<lambda>r. OperationHash r = ?h) fs))]" by simp
  also have "map Amount (filter (\<lambda>r. OperationHash r = ?h) fs) =
      map Amount (filter (\<lambda>r. OperationHash r = ?h) ds)"
    by (rule map_amount_filter_cong [OF fs(2,3)])
  also have "last (map Amount (filter (\<lambda>r. OperationHash r = ?h) ds)) =
      Amount (last (filter (\<lambda>r. OperationHash r = ?h) ds))"
    using nef by (simp add: last_map)
  finally have a: "map Amount (filter (\<lambda>r. OperationHash r = ?h) (delegations w')) =
      [Amount (last (filter (\<lambda>x. OperationHash x = ?h) ds))]" by (simp add: w')
  have b: "distinct (map OperationHash (delegations w'))" using r w' by simp
  have c': "set (map OperationHash (delegations w')) =
             set (map OperationHash (delegations w)) \<union> set (map OperationHash ds)"
    using r w' w2 fs(2) by (simp add: t0_def)
  from a b c' show ?thesis by blast
qed

lemma SaveBatch_world0_pair:
  "SaveBatch [ev1, ev2] world0 =
     (None, world0\<lparr>delegations := [ev1\<lparr>Timestamp := Timestamp ev2, Amount := ''250'', BlockHash := ''BlockB'', Level := ''1001''\<rparr>],
                   logs := [LogSavedBatch 2 2 0]\<rparr>)"
  by (simp add: SaveBatch_def world0_def ev1_def ev2_def db_call_def fill_defaults_def Let_def
      tx_exec_def upsert_row_def on_conflict_update_def log_add_def)

text \<open>
  Witness for C1: two events with the same operation_hash and the amounts 100 and 250, saved
  in one batch into an empty table, leave one row, with the amount 250.
\<close>

theorem SaveBatch_one_row_per_operation_hash_witness:
  "distinct (map OperationHash (delegations world0))
   \<and> fst (SaveBatch [ev1, ev2] world0) = None
   \<and> OperationHash ev1 = OperationHash ev2 \<and> Amount ev1 \<noteq> Amount ev2
   \<and> map Amount (filter (\<lambda>r. OperationHash r = ''op1'') (delegations (snd (SaveBatch [ev1, ev2] world0)))) = [Amount ev2]"
  using SaveBatch_one_row_per_operation_hash [of world0 "[ev1, ev2]" "snd (SaveBatch [ev1, ev2] world0)" ev1]
  by (simp add: SaveBatch_world0_pair) (simp add: world0_def ev1_def ev2_def)

lemma queue_batch_ids:
  "[] \<notin> set (map ID ds) \<Longrightarrow>
   \<exists>fs. fst (queue_batch ds w) = map to_args fs \<and> map ID fs = map ID ds \<and> snd (queue_batch ds w) = w"
proof (induction ds)
  case Nil
  then show ?case by simp
next
  case (Cons d ds)
  then obtain fs where fs: "fst (queue_batch ds w) = map to_args fs" "map ID fs = map ID ds"
    "snd (queue_batch ds w) = w" by auto
  then have qb: "queue_batch ds w = (map to_args fs, w)" by (metis prod.collapse)
  from Cons.prems have idd: "ID d \<noteq> []" by auto
  define d1 where "d1 = (if CreatedAt d = 0 then d\<lparr>CreatedAt := now w\<rparr> else d)"
  have f: "fill_defaults d w = (d1, w)" using idd by (simp add: fill_defaults_def d1_def)
  have "fst (queue_batch (d # ds) w) = map to_args (d1 # fs)"
    using f qb by (simp add: to_args_def)
  moreover have "map ID (d1 # fs) = map ID (d # ds)" using fs by (simp add: d1_def)
  moreover have "snd (queue_batch (d # ds) w) = w" using f qb by simp
  ultimately show ?case by blast
qed

text \<open>
  C3, as amended: \<^verbatim>\<open>SaveBatch\<close> returns an error value and nothing else. When the store
  answers and the ids of the batch are not empty, differ from each other and are not in the
  table, it returns no error, whether or not events of the batch have an operation_hash
  that is in the table already; the counts go to the log only, where every statement that
  ran, an insert or a resolved conflict alike, counts as saved and none as a duplicate.
\<close>

theorem SaveBatch_conflict_is_no_error:
  assumes "\<not> fst (db_call w)"
    and "[] \<notin> set (map ID ds)"
    and "distinct (map ID ds)"
    and "set (map ID ds) \<inter> set (map ID (delegations w)) = {}"
  shows "fst (SaveBatch ds w) = None
         \<and> logs (snd (SaveBatch ds w)) =
             logs w @ (if ds = [] then [] else [LogSavedBatch (length ds) (length ds) 0])"
proof (cases "ds = []")
  case True
  then show ?thesis by (simp add: SaveBatch_def)
next
  case False
  obtain w1 where c: "db_call w = (False, w1)" using assms(1) by (cases "db_call w") auto
  have w1: "delegations w1 = delegations w" "logs w1 = logs w"
    using c by (auto simp: db_call_def split: list.splits)
  from queue_batch_ids [OF assms(2), of w1] obtain fs where
    fs: "fst (queue_batch ds w1) = map to_args fs" "map ID fs = map ID ds"
    "snd (queue_batch ds w1) = w1" by blast
  then have qb: "queue_batch ds w1 = (map to_args fs, w1)" by (metis prod.collapse)
  define t0 where "t0 = \<lparr>tx_rows = delegations w1, tx_aborted = False\<rparr>"
  have "\<exists>t'. exec_batch (map to_args fs) 0 0 0 t0 = Inr (0 + length fs, 0, t') \<and> \<not> tx_aborted t'"
    by (rule exec_batch_fresh) (use assms(3,4) fs(2) w1 in \<open>simp_all add: t0_def\<close>)
  then obtain t' where ex: "exec_batch (map to_args fs) 0 0 0 t0 = Inr (length fs, 0, t')"
    and na: "\<not> tx_aborted t'" by auto
  have len: "length fs = length ds" using fs(2) by (metis length_map)
  from False c qb ex na len w1 show ?thesis
    by (simp add: SaveBatch_def t0_def log_add_def)
qed

lemma SaveBatch_world0_single:
  "SaveBatch [ev1] world0 = (None, world0\<lparr>delegations := [ev1], logs := [LogSavedBatch 1 1 0]\<rparr>)"
  by (simp add: SaveBatch_def world0_def ev1_def db_call_def fill_defaults_def Let_def
      tx_exec_def upsert_row_def on_conflict_update_def log_add_def)

lemma SaveBatch_world1_single:
  "SaveBatch [ev1] world1 =
     (None, world1\<lparr>delegations := [ev2\<lparr>Timestamp := Timestamp ev1, Amount := ''100'',
                                         BlockHash := ''BlockA'', Level := ''1000''\<rparr>],
                   logs := [LogSavedBatch 1 1 0]\<rparr>)"
  by (simp add: SaveBatch_def world1_def world0_def ev1_def ev2_def db_call_def fill_defaults_def Let_def
      tx_exec_def upsert_row_def on_conflict_update_def log_add_def)

text \<open>
  Counterexample for C3 as stated: the same one-event batch is saved into an empty table
  (one row inserted) and into a table that holds its operation_hash (one conflict
  resolved, no row inserted). \<^verbatim>\<open>SaveBatch\<close> returns the same value to its caller both
  times, and writes the same counts to the log.
\<close>

theorem SaveBatch_returns_no_counts:
  "fst (SaveBatch [ev1] world0) = fst (SaveBatch [ev1] world1)
   \<and> length (delegations (snd (SaveBatch [ev1] world0))) = length (delegations world0) + 1
   \<and> length (delegations (snd (SaveBatch [ev1] world1))) = length (delegations world1)
   \<and> logs (snd (SaveBatch [ev1] world0)) = [LogSavedBatch 1 1 0]
   \<and> logs (snd (SaveBatch [ev1] world1)) = [LogSavedBatch 1 1 0]"
  by (simp add: SaveBatch_world0_single SaveBatch_world1_single) (simp add: world0_def world1_def)

text \<open>
  Witness for C3: an event whose operation_hash is in the table is saved without error.
\<close>

theorem SaveBatch_conflict_is_no_error_witness:
  "\<not> fst (db_call world1) \<and> [] \<notin> set (map ID [ev1]) \<and> distinct (map ID [ev1])
   \<and> set (map ID [ev1]) \<inter> set (map ID (delegations world1)) = {}
   \<and> OperationHash ev1 \<in> set (map OperationHash (delegations world1))
   \<and> fst (SaveBatch [ev1] world1) = None
   \<and> logs (snd (SaveBatch [ev1] world1)) = logs world1 @ [LogSavedBatch 1 1 0]"
  using SaveBatch_conflict_is_no_error [of world1 "[ev1]"]
  by (simp add: world1_def world0_def ev1_def ev2_def db_call_def)


section \<open>What the engine leaves unchanged\<close>

lemma frame_refl [simp]: "frame w w"
  by (simp add: frame_def)

lemma frame_trans: "frame w w1 \<Longrightarrow> frame w1 w2 \<Longrightarrow> frame w w2"
  by (simp add: frame_def)

lemma frame_updates [simp]:
  "frame w (w'\<lparr>delegations := a\<rparr>) = frame w w'"
  "frame w (w'\<lparr>db_faults := b\<rparr>) = frame w w'"
  "frame w (w'\<lparr>uuid_next := c\<rparr>) = frame w w'"
  "frame w (w'\<lparr>now := d\<rparr>) = frame w w'"
  "frame w (w'\<lparr>http := e\<rparr>) = frame w w'"
  "frame w (w'\<lparr>requests := f\<rparr>) = frame w w'"
  "frame w (w'\<lparr>logs := g\<rparr>) = frame w w'"
  "frame w (w'\<lparr>goroutines := h\<rparr>) = frame w w'"
  "frame w (w'\<lparr>m_PollingErrors := i\<rparr>) = frame w w'"
  "frame w (w'\<lparr>m_LastIndexedLevel := j\<rparr>) = frame w w'"
  "frame w (w'\<lparr>m_DelegationsStored := k\<rparr>) = frame w w'"
  "frame w (w'\<lparr>m_ProcessedSuccess := l\<rparr>) = frame w w'"
  "frame w (w'\<lparr>m_ProcessedError := m\<rparr>) = frame w w'"
  by (simp_all add: frame_def)

lemma db_call_frame: "db_call w = (f, w1) \<Longrightarrow> frame w w1"
  by (auto simp: db_call_def split: list.splits)

lemma log_add_frame [simp]: "frame w (log_add e w') = frame w w'"
  by (simp add: log_add_def)

lemma SaveBatch_frame: "SaveBatch ds w = (r, w') \<Longrightarrow> frame w w'"
proof -
  assume a: "SaveBatch ds w = (r, w')"
  obtain fault w1 where c: "db_call w = (fault, w1)" by force
  obtain q w2 where qb: "queue_batch ds w1 = (q, w2)" by force
  from queue_batch_filled [OF qb] obtain n where "w2 = w1\<lparr>uuid_next := n\<rparr>" by blast
  then have "frame w w2" using db_call_frame [OF c] by simp
  with db_call_frame [OF c] a c qb show ?thesis
    by (auto simp: SaveBatch_def split: sum.splits if_splits)
qed

lemma convert_frame: "convertToDomainDelegations ds w = (r, w') \<Longrightarrow> frame w w'"
proof (induction ds arbitrary: w r w')
  case Nil
  then show ?case by simp
next
  case (Cons d ds)
  show ?case
  proof (cases "Status d = ''applied''")
    case True
    obtain r2 w2 where c: "convertToDomainDelegations ds (w\<lparr>uuid_next := Suc (uuid_next w)\<rparr>) = (r2, w2)"
      by force
    from Cons.IH [OF c] have "frame w w2" by (simp add: frame_def)
    with Cons.prems True c show ?thesis by (simp add: uuid_New_def)
  next
    case False
    with Cons show ?thesis by simp
  qed
qed

lemma resty_execute_frame: "resty_execute n req w = (out, w') \<Longrightarrow> frame w w'"
proof (induction n arbitrary: w out w')
  case 0
  then show ?case
    by (auto simp: resty_execute.simps [of 0] Let_def split: list.splits if_splits)
next
  case (Suc n)
  show ?case
  proof (cases "http w")
    case Nil
    with Suc.prems show ?thesis by (simp add: resty_execute.simps [of "Suc n"])
  next
    case (Cons x rest)
    define w1 where "w1 = w\<lparr>http := rest, requests := requests w @ [req]\<rparr>"
    show ?thesis
    proof (cases "retry_condition x")
      case True
      with Suc.prems Cons have "resty_execute n req w1 = (out, w')"
        by (simp add: resty_execute.simps [of "Suc n"] w1_def Let_def)
      from Suc.IH [OF this] show ?thesis by (simp add: w1_def frame_def)
    next
      case False
      with Suc.prems Cons show ?thesis
        by (auto simp: resty_execute.simps [of "Suc n"] Let_def)
    qed
  qed
qed

lemma GetDelegations_frame: "GetDelegations c p w = (r, w') \<Longrightarrow> frame w w'"
  by (auto simp: GetDelegations_def Let_def
      split: if_splits prod.splits http_outcome.splits option.splits
      dest: resty_execute_frame)

lemma produce_frame: "produce c sd bs off w = (r, w') \<Longrightarrow> frame w w'"
proof (induction c sd bs off w arbitrary: r w' rule: produce.induct)
  case (1 c startDate batchSize offset w)
  let ?p = "\<lparr>qp_Limit = batchSize, qp_Offset = offset, qp_Level = None,
                qp_Timestamp = Some (no_timestamp_filter\<lparr>tf_Gte := Some startDate\<rparr>),
                qp_Sort = [''id.asc''], qp_Select = []\<rparr>"
  obtain g w1 where g: "GetDelegations c ?p w = (g, w1)" by force
  note f1 = GetDelegations_frame [OF g]
  show ?case
  proof (cases "http w = []")
    case True
    with "1.prems" show ?thesis by (simp add: produce.simps [of c startDate batchSize offset w])
  next
    case ne: False
    show ?thesis
    proof (cases g)
      case (Inl e)
      with g f1 ne "1.prems" show ?thesis
        by (auto simp add: produce.simps [of c startDate batchSize offset w])
    next
      case (Inr dels)
      show ?thesis
      proof (cases "length dels = 0")
        case True
        with g f1 ne Inr "1.prems" show ?thesis
          by (auto simp add: produce.simps [of c startDate batchSize offset w])
      next
        case False
        obtain r2 w2 where p2: "produce c startDate batchSize (offset + int (length dels)) w1 = (r2, w2)"
          by (metis surj_pair)
        have "frame w1 w2"
          by (rule "1.IH" [OF ne g [symmetric] _ False p2]) (simp add: Inr)
        with f1 have "frame w w2" by (rule frame_trans)
        with False g ne Inr p2 "1.prems" show ?thesis
          by (auto simp add: produce.simps [of c startDate batchSize offset w] split: prod.splits)
      qed
    qed
  qed
qed

lemma FindAll_frame: "FindAll y w = (r, w') \<Longrightarrow> frame w w'"
  by (auto simp: FindAll_def Let_def split: prod.splits if_splits dest: db_call_frame)

lemma GetLastIndexedLevel_frame: "GetLastIndexedLevel w = (r, w') \<Longrightarrow> frame w w'"
  by (auto simp: GetLastIndexedLevel_def Let_def
      split: prod.splits option.splits list.splits if_splits dest: db_call_frame)

lemma GetDelegationsSince_frame: "GetDelegationsSince c t l w = (r, w') \<Longrightarrow> frame w w'"
  by (auto simp: GetDelegationsSince_def dest: GetDelegations_frame)

lemma GetDelegationsFromLevel_frame: "GetDelegationsFromLevel c t l w = (r, w') \<Longrightarrow> frame w w'"
  by (auto simp: GetDelegationsFromLevel_def dest: GetDelegations_frame)

lemma save_page_frame: "save_page dels w = (r, w') \<Longrightarrow> frame w w'"
  by (auto simp: save_page_def split: prod.splits
      intro: frame_trans dest!: convert_frame SaveBatch_frame)

lemma poll_recent_frame: "frame w (poll_recent s w)"
proof -
  obtain r3 w3 where f: "GetDelegationsSince (tzktClient s) (now w + (- 30 * 24 * hour)) 1000 w = (r3, w3)"
    by force
  note f3 = GetDelegationsSince_frame [OF f]
  from f3 f show ?thesis
    by (auto simp: poll_recent_def Let_def split: sum.splits prod.splits option.splits
        dest!: save_page_frame intro: frame_trans)
qed

lemma poll_new_frame: "frame w (poll_new s l w)"
proof -
  obtain r3 w3 where f: "GetDelegationsFromLevel (tzktClient s) (l + 1) 100 w = (r3, w3)"
    by force
  note f3 = GetDelegationsFromLevel_frame [OF f]
  from f3 f show ?thesis
    by (auto simp: poll_new_def Let_def split: sum.splits prod.splits option.splits
        dest!: save_page_frame intro: frame_trans)
qed

lemma pollOnce_frame: "frame w (pollOnce s w)"
proof -
  obtain r w1 where g: "GetLastIndexedLevel w = (r, w1)" by force
  note f1 = GetLastIndexedLevel_frame [OF g]
  show ?thesis
  proof (cases r)
    case (Inl e)
    with g f1 show ?thesis by (simp add: pollOnce_def)
  next
    case (Inr lastLevel)
    define w2 where "w2 = w1\<lparr>m_LastIndexedLevel := lastLevel\<rparr>"
    have f2: "frame w w2" using f1 by (simp add: w2_def)
    have "frame w (poll_recent s w2)" "frame w (poll_new s lastLevel w2)"
      using f2 poll_recent_frame poll_new_frame by (blast intro: frame_trans)+
    with g Inr show ?thesis by (auto simp add: pollOnce_def Let_def w2_def)
  qed
qed

lemma tick_world_frame [simp]: "frame w (tick_world n f t w') = frame w w'"
  by (simp add: tick_world_def)

lemma pollLoop_select_frame: "frame w (pollLoop_select evs s w)"
proof (induction evs s w rule: pollLoop_select.induct)
  case (2 net faults clock evs s w)
  have "frame w (pollOnce s (tick_world net faults clock w))"
    using pollOnce_frame [of "tick_world net faults clock w" s] by (simp add: frame_def tick_world_def)
  with 2 show ?case by (auto intro: frame_trans)
qed simp_all

lemma pollLoop_frame: "frame w (pollLoop evs s w)"
  unfolding pollLoop_def using pollOnce_frame pollLoop_select_frame by (rule frame_trans)

lemma consume_frame: "consume pages perr k buf n w = (r, w') \<Longrightarrow> frame w w'"
proof (induction pages arbitrary: k buf n w r w')
  case Nil
  obtain sr w1 where sb: "SaveBatch buf w = (sr, w1)" by force
  from SaveBatch_frame [OF sb] Nil sb show ?case
    by (auto split: option.splits nat.splits if_splits)
next
  case (Cons dels rest)
  obtain dd w1 where c: "convertToDomainDelegations dels w = (dd, w1)" by force
  obtain sr w2 where sb: "SaveBatch (buf @ dd) w1 = (sr, w2)" by force
  have f1: "frame w w1" by (rule convert_frame [OF c])
  have f2: "frame w w2" using f1 SaveBatch_frame [OF sb] by (rule frame_trans)
  show ?case
  proof (cases "perr \<noteq> None \<and> k = 0")
    case True
    with Cons.prems show ?thesis by (auto split: option.splits nat.splits)
  next
    case nerr: False
    show ?thesis
    proof (cases "1000 \<le> length (buf @ dd)")
      case big: True
      show ?thesis
      proof (cases sr)
        case None
        define w3 where "w3 = (log_add (LogProgress (n + length dels)) w2)
                      \<lparr>m_DelegationsStored := m_DelegationsStored w2 + length (buf @ dd),
                       m_ProcessedSuccess := Suc (m_ProcessedSuccess w2)\<rparr>"
        from Cons.prems nerr big None c sb have
          "consume rest perr (k - 1) [] (n + length dels) w3 = (r, w')"
          by (auto simp: w3_def Let_def split: option.splits nat.splits)
        from Cons.IH [OF this] have "frame w3 w'" .
        moreover have "frame w w3" using f2 by (simp add: w3_def)
        ultimately show ?thesis by (blast intro: frame_trans)
      next
        case (Some e)
        with Cons.prems nerr big c sb f2 show ?thesis
          by (auto simp: Let_def split: option.splits nat.splits)
      qed
    next
      case small: False
      from Cons.prems nerr small c have
        "consume rest perr (k - 1) (buf @ dd) (n + length dels) w1 = (r, w')"
        by (auto simp: Let_def split: option.splits nat.splits)
      from Cons.IH [OF this] f1 show ?thesis by (blast intro: frame_trans)
    qed
  qed
qed

lemma verify_frame: "verifySyncCompleteness s sd w = (r, w') \<Longrightarrow> frame w w'"
proof -
  assume a: "verifySyncCompleteness s sd w = (r, w')"
  show ?thesis
  proof (cases "http w")
    case Nil
    with a show ?thesis by (simp add: verifySyncCompleteness_def)
  next
    case (Cons out rest)
    define w1 where "w1 = w\<lparr>http := rest,
                     requests := requests w @
                       [\<lparr>req_url = BaseURL s @ ''/v1/operations/delegations/count'',
                         req_query = [''timestamp.ge'' \<mapsto> PDate (sd div (24 * hour)),
                                      ''status'' \<mapsto> PText ''applied'']\<rparr>]\<rparr>"
    have f1: "frame w w1" by (simp add: w1_def)
    obtain fr w2 where fa: "FindAll None w1 = (fr, w2)" by force
    have f2: "frame w w2" using f1 FindAll_frame [OF fa] by (rule frame_trans)
    from a Cons f1 f2 fa show ?thesis
      by (auto simp: verifySyncCompleteness_def w1_def Let_def
          split: http_outcome.splits json_body.splits if_splits sum.splits)
  qed
qed

lemma createBackup_frame [simp]: "frame w (createBackup w') = frame w w'"
  by (simp add: createBackup_def)

lemma resume_point_frame: "resume_point s ex w = Inr (sd, w') \<Longrightarrow> frame w w'"
  by (auto simp: resume_point_def Let_def split: if_splits option.splits)

lemma backfill_from_frame: "backfill_from s startDate w = (r, w') \<Longrightarrow> frame w w'"
proof -
  assume a: "backfill_from s startDate w = (r, w')"
  show ?thesis
  proof (cases "now w - startDate < 1 * hour")
    case True
    with a show ?thesis by (auto simp add: backfill_from_def)
  next
    case False
    obtain pages perr w3 where g: "GetHistoricalDelegations (tzktClient s) startDate 500 w = ((pages, perr), w3)"
      by (metis surj_pair)
    obtain cerr pc w4 where c: "consume pages perr (sched w3) [] 0 w3 = ((cerr, pc), w4)"
      by (metis surj_pair)
    have f3: "frame w w3"
      using produce_frame [OF g [unfolded GetHistoricalDelegations_def]] .
    have f4: "frame w w4" using f3 consume_frame [OF c] by (rule frame_trans)
    obtain verr w6 where v: "verifySyncCompleteness s startDate
         (log_add (LogInfo ''Historical indexing completed'') w4) = (verr, w6)" by force
    have f6: "frame w w6" using f4 verify_frame [OF v]
      by (auto intro: frame_trans simp: frame_def log_add_def)
    from a False g c v f4 f6 show ?thesis
      by (auto simp: backfill_from_def Let_def split: option.splits)
  qed
qed

lemma indexHistorical_frame: "indexHistorical s w = (r, w') \<Longrightarrow> frame w w'"
  by (auto simp: indexHistorical_def split: sum.splits prod.splits
      dest!: FindAll_frame resume_point_frame backfill_from_frame intro: frame_trans)

lemma StartPolling_frame: "StartPolling s w = Some (r, s', w') \<Longrightarrow> frame w w'"
proof -
  assume a: "StartPolling s w = Some (r, s', w')"
  obtain e w1 where i: "indexHistorical (s\<lparr>pollingStarted := True\<rparr>)
      (log_add (LogInfo ''Starting historical indexing...'') w) = (e, w1)" by force
  have "frame w w1" using indexHistorical_frame [OF i] by (simp add: frame_def log_add_def)
  with a i show ?thesis
    by (auto simp: StartPolling_def Let_def split: if_splits option.splits)
qed

text \<open>
  C2, as amended: \<^verbatim>\<open>RunMigrations\<close> creates the row of \<open>indexing_metadata\<close> with the
  level 0 and no timestamp when there is none, and leaves a row that exists as it is. The
  engine never writes that row: a poll tick, the polling loop, the backfill and
  \<^verbatim>\<open>StartPolling\<close> all leave it as they found it, whether or not they persisted a
  batch. (\<^verbatim>\<open>UpdateIndexingMetadata\<close> is the only writer, and nothing calls it.)
\<close>

theorem engine_never_updates_indexing_metadata:
  "indexing_metadata (snd (RunMigrations w)) =
     (if fst (db_call w) then indexing_metadata w
      else case indexing_metadata w of None \<Rightarrow> Some (0, None) | Some m \<Rightarrow> Some m)
   \<and> indexing_metadata (pollOnce s w) = indexing_metadata w
   \<and> indexing_metadata (pollLoop evs s w) = indexing_metadata w
   \<and> indexing_metadata (snd (indexHistorical s w)) = indexing_metadata w
   \<and> (case StartPolling s w of None \<Rightarrow> True
       | Some (r, s', w') \<Rightarrow> indexing_metadata w' = indexing_metadata w)"
proof -
  have a: "indexing_metadata (snd (RunMigrations w)) =
     (if fst (db_call w) then indexing_metadata w
      else case indexing_metadata w of None \<Rightarrow> Some (0, None) | Some m \<Rightarrow> Some m)"
    by (auto simp: RunMigrations_def db_call_def log_add_def Let_def split: list.splits prod.splits)
  have b: "indexing_metadata (pollOnce s w) = indexing_metadata w"
    using pollOnce_frame [of w s] by (simp add: frame_def)
  have c: "indexing_metadata (pollLoop evs s w) = indexing_metadata w"
    using pollLoop_frame [of w evs s] by (simp add: frame_def)
  have d: "indexing_metadata (snd (indexHistorical s w)) = indexing_metadata w"
    using indexHistorical_frame [of s w] by (cases "indexHistorical s w") (simp add: frame_def)
  have e: "(case StartPolling s w of None \<Rightarrow> True
       | Some (r, s', w') \<Rightarrow> indexing_metadata w' = indexing_metadata w)"
    using StartPolling_frame [of s w] by (auto simp: frame_def split: option.splits)
  from a b c d e show ?thesis by blast
qed


section \<open>Decimal text is read back as written\<close>

lemma less_ten_cases:
  "(n::nat) < 10 \<Longrightarrow> n \<in> {0, 1, 2, 3, 4, 5, 6, 7, 8, 9}"
  by (simp only: insert_iff empty_iff) presburger

lemma digit_val_digit_char: "n < 10 \<Longrightarrow> digit_val (digit_char n) = Some n"
  by (drule less_ten_cases) (auto simp: digit_val_def digit_char_def)

lemma digit_char_not_minus: "n < 10 \<Longrightarrow> digit_char n \<noteq> CHR ''-''"
  by (drule less_ten_cases) (auto simp: digit_char_def)

lemma parse_digits_append:
  "parse_digits (xs @ ys) acc =
     (case parse_digits xs acc of None \<Rightarrow> None | Some a \<Rightarrow> parse_digits ys a)"
  by (induction xs arbitrary: acc) (auto split: option.splits)

lemma parse_digits_digits: "parse_digits (digits n) 0 = Some n"
proof (induction n rule: digits.induct)
  case (1 n)
  show ?case
  proof (cases "n < 10")
    case True
    then show ?thesis by (simp add: digits.simps [of n] digit_val_digit_char)
  next
    case False
    with 1 have ih: "parse_digits (digits (n div 10)) 0 = Some (n div 10)" by simp
    have "n mod 10 < 10" by simp
    with False ih show ?thesis
      by (simp add: digits.simps [of n] parse_digits_append digit_val_digit_char)
  qed
qed

lemma digits_not_empty: "digits n \<noteq> []"
  by (simp add: digits.simps [of n])

lemma hd_digits_not_minus: "hd (digits n) \<noteq> CHR ''-''"
proof (induction n rule: digits.induct)
  case (1 n)
  show ?case
  proof (cases "n < 10")
    case True
    then show ?thesis by (simp add: digits.simps [of n] digit_char_not_minus)
  next
    case False
    with 1 digits_not_empty [of "n div 10"] show ?thesis
      by (simp add: digits.simps [of n])
  qed
qed

lemma parse_int_digits: "parse_int (digits n) = Some (int n)"
  using digits_not_empty [of n] hd_digits_not_minus [of n] parse_digits_digits [of n]
  by (cases "digits n") (auto simp: parse_int_def)

lemma parse_int_FormatInt: "parse_int (FormatInt i) = Some (sint i)"
proof (cases "sint i < 0")
  case True
  then show ?thesis
    using digits_not_empty [of "nat (- sint i)"] parse_digits_digits [of "nat (- sint i)"]
    by (simp add: FormatInt_def parse_int_def)
next
  case False
  then show ?thesis by (simp add: FormatInt_def parse_int_digits)
qed

lemma in_int64_sint: "in_int64 (sint (i :: int64))"
  using sint_ge [of i] sint_lt [of i] by (simp add: in_int64_def)

lemma cast_bigint_FormatInt: "cast_bigint (FormatInt i) = Some (sint i)"
  by (simp add: cast_bigint_def parse_int_FormatInt in_int64_sint)

lemma FormatInt_1000: "FormatInt 1000 = ''1000''"
  by (simp add: FormatInt_def digits.simps digit_char_def)

section \<open>Poll ticks\<close>

lemma db_call_healthy: "db_faults w = [] \<Longrightarrow> db_call w = (False, w)"
  by (simp add: db_call_def)

lemma GetLastIndexedLevel_empty:
  "delegations w = [] \<Longrightarrow> db_faults w = [] \<Longrightarrow> GetLastIndexedLevel w = (Inr 0, w)"
  by (simp add: GetLastIndexedLevel_def db_call_healthy)

lemma resty_execute_ok:
  "http w = out # rest \<Longrightarrow> \<not> retry_condition out \<Longrightarrow>
   resty_execute n req w = (out, w\<lparr>http := rest, requests := requests w @ [req]\<rparr>)"
  by (simp add: resty_execute.simps [of n])

lemma GetDelegations_ok:
  "http w = Response 200 body # rest \<Longrightarrow> unmarshal_delegations body = Some rs \<Longrightarrow>
   GetDelegations c p w =
     (Inr rs, w\<lparr>http := rest,
                requests := requests w @
                  [\<lparr>req_url = baseURL c @ ''/v1/operations/delegations'',
                    req_query = buildQueryParams p\<rparr>]\<rparr>)"
  by (simp add: GetDelegations_def resty_execute_ok retry_condition_def)

lemma convert_two:
  "Status r1 = ''applied'' \<Longrightarrow> Status r2 = ''applied'' \<Longrightarrow>
   convertToDomainDelegations [r1, r2] w =
     ([convert_one r1 (uuid_gen w (uuid_next w)) (now w),
       convert_one r2 (uuid_gen w (Suc (uuid_next w))) (now w)],
      w\<lparr>uuid_next := Suc (Suc (uuid_next w))\<rparr>)"
  by (simp add: uuid_New_def convert_one_def)

lemma SaveBatch_two_new:
  assumes "delegations w = []" "db_faults w = []"
    and "ID d1 \<noteq> []" "ID d2 \<noteq> []" "ID d1 \<noteq> ID d2" "OperationHash d1 \<noteq> OperationHash d2"
    and "CreatedAt d1 = now w" "CreatedAt d2 = now w"
  shows "SaveBatch [d1, d2] w = (None, w\<lparr>delegations := [d1, d2], logs := logs w @ [LogSavedBatch 2 2 0]\<rparr>)"
proof -
  have f1: "fill_defaults d1 w = (d1, w)" using assms(3,7) by (simp add: fill_defaults_def)
  have f2: "fill_defaults d2 w = (d2, w)" using assms(4,8) by (simp add: fill_defaults_def)
  have q: "queue_batch [d1, d2] w = ([to_args d1, to_args d2], w)"
    using f1 f2 by (simp add: to_args_def)
  have e: "exec_batch [to_args d1, to_args d2] 0 0 0 \<lparr>tx_rows = [], tx_aborted = False\<rparr> =
     Inr (2, 0, \<lparr>tx_rows = [d1, d2], tx_aborted = False\<rparr>)"
    using assms(5,6) by (simp add: tx_exec_to_args upsert_row_def)
  show ?thesis using assms(1,2) q e
    by (simp add: SaveBatch_def db_call_healthy log_add_def)
qed

lemma pollOnce_seed_two:
  assumes "delegations w = []" "db_faults w = []"
    and "http w = [Response 200 (JArray [j1, j2])]"
    and "decode_delegation j1 = Some r1" "decode_delegation j2 = Some r2"
    and "Status r1 = ''applied''" "Status r2 = ''applied''" "Hash r1 \<noteq> Hash r2"
    and "uuid_gen w (uuid_next w) \<noteq> []" "uuid_gen w (Suc (uuid_next w)) \<noteq> []"
    and "uuid_gen w (uuid_next w) \<noteq> uuid_gen w (Suc (uuid_next w))"
  shows "pollOnce s w =
     w\<lparr>delegations := [convert_one r1 (uuid_gen w (uuid_next w)) (now w),
                        convert_one r2 (uuid_gen w (Suc (uuid_next w))) (now w)],
        uuid_next := Suc (Suc (uuid_next w)),
        http := [],
        requests := requests w @
          [delegations_request (tzktClient s) (since_params (now w + (- 30 * 24 * hour)) 1000)],
        logs := logs w @ [LogSavedBatch 2 2 0, LogSavedRecent 2],
        m_LastIndexedLevel := 0,
        m_DelegationsStored := m_DelegationsStored w + 2,
        m_ProcessedSuccess := Suc (m_ProcessedSuccess w)\<rparr>"
proof -
  let ?c = "tzktClient s"
  have g: "GetLastIndexedLevel w = (Inr 0, w)"
    using assms(1,2) by (rule GetLastIndexedLevel_empty)
  have u: "unmarshal_delegations (JArray [j1, j2]) = Some [r1, r2]"
    using assms(4,5) by (simp add: unmarshal_delegations_def)
  have f: "GetDelegationsSince ?c t 1000 (w\<lparr>m_LastIndexedLevel := 0\<rparr>) =
      (Inr [r1, r2], w\<lparr>m_LastIndexedLevel := 0, http := [],
         requests := requests w @ [delegations_request ?c (since_params t 1000)]\<rparr>)" for t
  proof -
    have h2: "http (w\<lparr>m_LastIndexedLevel := 0\<rparr>) = Response 200 (JArray [j1, j2]) # []"
      using assms(3) by simp
    show ?thesis
      unfolding GetDelegationsSince_def
      by (subst GetDelegations_ok [OF h2 u]) (simp add: delegations_request_def since_params_def)
  qed
  define d1 where "d1 = convert_one r1 (uuid_gen w (uuid_next w)) (now w)"
  define d2 where "d2 = convert_one r2 (uuid_gen w (Suc (uuid_next w))) (now w)"
  have c: "convertToDomainDelegations [r1, r2] (w\<lparr>m_LastIndexedLevel := 0, http := [], requests := rq\<rparr>) =
      ([d1, d2], w\<lparr>m_LastIndexedLevel := 0, http := [], requests := rq,
                    uuid_next := Suc (Suc (uuid_next w))\<rparr>)" for rq
    by (subst convert_two [OF assms(6,7)]) (simp add: d1_def d2_def)
  have sb: "SaveBatch [d1, d2] (w\<lparr>m_LastIndexedLevel := 0, http := [], requests := rq,
                    uuid_next := Suc (Suc (uuid_next w))\<rparr>) =
      (None, w\<lparr>m_LastIndexedLevel := 0, http := [], requests := rq,
                    uuid_next := Suc (Suc (uuid_next w)), delegations := [d1, d2],
                    logs := logs w @ [LogSavedBatch 2 2 0]\<rparr>)" for rq
    by (subst SaveBatch_two_new) (use assms in \<open>simp_all add: d1_def d2_def convert_one_def\<close>)
  show ?thesis
    unfolding pollOnce_def poll_recent_def save_page_def
    by (simp add: g Let_def f c sb log_add_def d1_def [symmetric] d2_def [symmetric]
        del: convertToDomainDelegations.simps)
qed

lemma world_seed_fields:
  "delegations world_seed = []" "db_faults world_seed = []"
  "http world_seed = [Response 200 (JArray [js1, js2])]"
  "uuid_gen world_seed n = ''uuid-'' @ digits n" "uuid_next world_seed = 0"
  "indexing_metadata world_seed = Some (0, None)" "requests world_seed = []"
  "logs world_seed = []" "m_ProcessedSuccess world_seed = 0" "m_DelegationsStored world_seed = 0"
  "now world_seed = 63900000000 * second"
  by (simp_all add: world_seed_def world0_def)

lemma decode_js1: "decode_delegation js1 = Some rs1"
  by (simp add: decode_delegation_def js1_def rs1_def in_int64_def)

lemma decode_js2: "decode_delegation js2 = Some rs2"
  by (simp add: decode_delegation_def js2_def rs2_def in_int64_def)

lemma digits_0_1: "digits 0 = ''0''" "digits (Suc 0) = ''1''"
  by (simp_all add: digits.simps digit_char_def)

lemma pollOnce_world_seed:
  "pollOnce svc0 world_seed =
     world_seed\<lparr>delegations := [convert_one rs1 ''uuid-0'' (63900000000 * second),
                                 convert_one rs2 ''uuid-1'' (63900000000 * second)],
        uuid_next := 2,
        http := [],
        requests := [delegations_request client0 (since_params (63900000000 * second + (- 30 * 24 * hour)) 1000)],
        logs := [LogSavedBatch 2 2 0, LogSavedRecent 2],
        m_LastIndexedLevel := 0,
        m_DelegationsStored := 2,
        m_ProcessedSuccess := 1\<rparr>"
  by (subst pollOnce_seed_two [where ?j1.0 = js1 and ?j2.0 = js2 and ?r1.0 = rs1 and ?r2.0 = rs2])
    (simp_all add: world_seed_fields decode_js1 decode_js2 digits_0_1 rs1_def rs2_def
      svc0_def NewService_def numeral_2_eq_2)

text \<open>
  Counterexample for C2 as stated: a poll tick on an empty, healthy store fetches two events
  and persists them (the success counter goes from 0 to 1, the table holds two rows), and
  the row of \<open>indexing_metadata\<close> still has the level 0 and no timestamp.
\<close>

theorem tick_persists_cursor_row_stays:
  "m_ProcessedSuccess world_seed = 0 \<and> m_ProcessedSuccess (pollOnce svc0 world_seed) = 1
   \<and> length (delegations (pollOnce svc0 world_seed)) = 2
   \<and> indexing_metadata world_seed = Some (0, None)
   \<and> indexing_metadata (pollOnce svc0 world_seed) = Some (0, None)"
  by (simp add: pollOnce_world_seed world_seed_fields)

lemma net_frame_refl [simp]: "net_frame w w"
  by (simp add: net_frame_def)

lemma net_frame_trans: "net_frame w w1 \<Longrightarrow> net_frame w1 w2 \<Longrightarrow> net_frame w w2"
  by (simp add: net_frame_def)

lemma net_frame_updates [simp]:
  "net_frame w (w'\<lparr>delegations := a\<rparr>) = net_frame w w'"
  "net_frame w (w'\<lparr>db_faults := b\<rparr>) = net_frame w w'"
  "net_frame w (w'\<lparr>uuid_next := c\<rparr>) = net_frame w w'"
  "net_frame w (w'\<lparr>logs := g\<rparr>) = net_frame w w'"
  "net_frame w (w'\<lparr>m_PollingErrors := i\<rparr>) = net_frame w w'"
  "net_frame w (w'\<lparr>m_LastIndexedLevel := j\<rparr>) = net_frame w w'"
  "net_frame w (w'\<lparr>m_ProcessedError := m\<rparr>) = net_frame w w'"
  by (simp_all add: net_frame_def)

lemma db_call_net: "db_call w = (f, w1) \<Longrightarrow> net_frame w w1"
  by (auto simp: db_call_def split: list.splits)

lemma log_add_net [simp]: "net_frame w (log_add e w') = net_frame w w'"
  by (simp add: log_add_def)

lemma SaveBatch_net: "SaveBatch ds w = (r, w') \<Longrightarrow> net_frame w w'"
proof -
  assume a: "SaveBatch ds w = (r, w')"
  obtain fault w1 where c: "db_call w = (fault, w1)" by force
  obtain q w2 where qb: "queue_batch ds w1 = (q, w2)" by force
  from queue_batch_filled [OF qb] obtain n where "w2 = w1\<lparr>uuid_next := n\<rparr>" by blast
  then have "net_frame w w2" using db_call_net [OF c] by simp
  with db_call_net [OF c] a c qb show ?thesis
    by (auto simp: SaveBatch_def split: sum.splits if_splits)
qed

lemma convert_net: "convertToDomainDelegations ds w = (r, w') \<Longrightarrow> net_frame w w'"
proof (induction ds arbitrary: w r w')
  case Nil
  then show ?case by simp
next
  case (Cons d ds)
  show ?case
  proof (cases "Status d = ''applied''")
    case True
    obtain r2 w2 where c: "convertToDomainDelegations ds (w\<lparr>uuid_next := Suc (uuid_next w)\<rparr>) = (r2, w2)"
      by force
    from Cons.IH [OF c] have "net_frame w w2" by (simp add: net_frame_def)
    with Cons.prems True c show ?thesis by (simp add: uuid_New_def)
  next
    case False
    with Cons show ?thesis by simp
  qed
qed

lemma FindAll_net: "FindAll y w = (r, w') \<Longrightarrow> net_frame w w'"
  by (auto simp: FindAll_def Let_def split: prod.splits if_splits dest: db_call_net)

lemma GetLastIndexedLevel_net: "GetLastIndexedLevel w = (r, w') \<Longrightarrow> net_frame w w'"
  by (auto simp: GetLastIndexedLevel_def Let_def
      split: prod.splits option.splits list.splits if_splits dest: db_call_net)

lemma save_page_net: "save_page dels w = (r, w') \<Longrightarrow> net_frame w w'"
  by (auto simp: save_page_def split: prod.splits
      intro: net_frame_trans dest!: convert_net SaveBatch_net)

lemma resty_execute_requests:
  "http w \<noteq> [] \<Longrightarrow> resty_execute n req w = (out, w') \<Longrightarrow>
   \<exists>k>0. requests w' = requests w @ replicate k req"
proof (induction n arbitrary: w out w')
  case 0
  then have "requests w' = requests w @ replicate 1 req"
    by (auto simp: resty_execute.simps [of 0] Let_def split: list.splits if_splits)
  then show ?case by blast
next
  case (Suc n)
  from Suc.prems obtain x rest where h: "http w = x # rest" by (cases "http w") auto
  define w1 where "w1 = w\<lparr>http := rest, requests := requests w @ [req]\<rparr>"
  show ?case
  proof (cases "retry_condition x \<and> rest \<noteq> []")
    case True
    with Suc.prems h have "resty_execute n req w1 = (out, w')"
      by (simp add: resty_execute.simps [of "Suc n"] w1_def Let_def)
    with Suc.IH [of w1 out w'] True obtain k where "k > 0" "requests w' = requests w1 @ replicate k req"
      by (auto simp: w1_def)
    then have "requests w' = requests w @ replicate (Suc k) req"
      by (simp add: w1_def replicate_app_Cons_same)
    then show ?thesis by blast
  next
    case False
    with Suc.prems h have "requests w' = requests w @ replicate 1 req"
      by (auto simp: resty_execute.simps [of "Suc n"] resty_execute.simps [of n] Let_def
          split: if_splits)
    then show ?thesis by blast
  qed
qed

lemma GetDelegations_requests:
  "http w \<noteq> [] \<Longrightarrow> GetDelegations c p w = (r, w') \<Longrightarrow>
   \<exists>k>0. requests w' = requests w @ replicate k (delegations_request c p)"
proof -
  assume ne: "http w \<noteq> []" and g: "GetDelegations c p w = (r, w')"
  obtain out w1 where e: "resty_execute (httpRetryCount c) (delegations_request c p) w = (out, w1)"
    by force
  from resty_execute_requests [OF ne e] obtain k where
    k: "k > 0" "requests w1 = requests w @ replicate k (delegations_request c p)" by blast
  have "w' = w1" using ne g e
    by (auto simp: GetDelegations_def Let_def delegations_request_def
        split: http_outcome.splits option.splits if_splits)
  with k show ?thesis by blast
qed

lemma GetDelegationsSince_requests:
  "http w \<noteq> [] \<Longrightarrow> GetDelegationsSince c t l w = (r, w') \<Longrightarrow>
   \<exists>k>0. requests w' = requests w @ replicate k (delegations_request c (since_params t l))"
  unfolding GetDelegationsSince_def since_params_def by (rule GetDelegations_requests)

lemma GetDelegationsFromLevel_requests:
  "http w \<noteq> [] \<Longrightarrow> GetDelegationsFromLevel c lv l w = (r, w') \<Longrightarrow>
   \<exists>k>0. requests w' = requests w @ replicate k (delegations_request c (level_params lv l))"
  unfolding GetDelegationsFromLevel_def level_params_def by (rule GetDelegations_requests)

lemma poll_recent_requests:
  assumes "http w \<noteq> []"
  shows "\<exists>k>0. requests (poll_recent s w) = requests w @ replicate k
           (delegations_request (tzktClient s) (since_params (now w + (- 30 * 24 * hour)) 1000))"
proof -
  obtain r3 w3 where f: "GetDelegationsSince (tzktClient s) (now w + (- 30 * 24 * hour)) 1000 w = (r3, w3)"
    by force
  from GetDelegationsSince_requests [OF assms f] obtain k where k: "k > 0"
    "requests w3 = requests w @ replicate k (delegations_request (tzktClient s)
        (since_params (now w + (- 30 * 24 * hour)) 1000))"
    by auto
  have keep: "requests w5 = requests w3" if "save_page dels w3 = (r, w5)" for dels r w5
    using save_page_net [OF that] by (simp add: net_frame_def)
  have "requests (poll_recent s w) = requests w3"
    using f by (auto simp: poll_recent_def Let_def log_add_def
        split: sum.splits prod.splits option.splits dest: keep)
  with k show ?thesis by auto
qed

lemma poll_new_requests:
  assumes "http w \<noteq> []"
  shows "\<exists>k>0. requests (poll_new s l w) = requests w @ replicate k
           (delegations_request (tzktClient s) (level_params (l + 1) 100))"
proof -
  obtain r3 w3 where f: "GetDelegationsFromLevel (tzktClient s) (l + 1) 100 w = (r3, w3)"
    by force
  from GetDelegationsFromLevel_requests [OF assms f] obtain k where k: "k > 0"
    "requests w3 = requests w @ replicate k (delegations_request (tzktClient s)
        (level_params (l + 1) 100))"
    by auto
  have keep: "requests w5 = requests w3" if "save_page dels w3 = (r, w5)" for dels r w5
    using save_page_net [OF that] by (simp add: net_frame_def)
  have "requests (poll_new s l w) = requests w3"
    using f by (auto simp: poll_new_def Let_def log_add_def
        split: sum.splits prod.splits option.splits dest: keep)
  with k show ?thesis by auto
qed

lemma pollOnce_requests:
  assumes "GetLastIndexedLevel w = (Inr lastLevel, w1)" and "http w \<noteq> []"
  shows "\<exists>k>0. requests (pollOnce s w) = requests w @ replicate k
           (delegations_request (tzktClient s)
              (if lastLevel = 0 then since_params (now w + (- 30 * 24 * hour)) 1000
               else level_params (lastLevel + 1) 100))"
proof -
  note n1 = GetLastIndexedLevel_net [OF assms(1)]
  define w2 where "w2 = w1\<lparr>m_LastIndexedLevel := lastLevel\<rparr>"
  have n2: "net_frame w w2" using n1 by (simp add: w2_def)
  then have h2: "http w2 \<noteq> []" "requests w2 = requests w" "now w2 = now w"
    using assms(2) by (simp_all add: net_frame_def)
  have p: "pollOnce s w = (if lastLevel = 0 then poll_recent s w2 else poll_new s lastLevel w2)"
    using assms(1) by (simp add: pollOnce_def Let_def w2_def)
  show ?thesis
    using poll_recent_requests [OF h2(1), of s] poll_new_requests [OF h2(1), of s lastLevel]
    by (simp add: p h2)
qed

lemma split_id_asc: "split_on CHR ''.'' ''id.asc'' = [''id'', ''asc'']"
  by simp

lemma query_since:
  "buildQueryParams (since_params t 1000) =
     [''limit'' \<mapsto> PInt 1000, ''timestamp.ge'' \<mapsto> PTime t, ''sort.asc'' \<mapsto> PText ''id'',
      ''status'' \<mapsto> PText ''applied'']"
  by (simp add: buildQueryParams_def since_params_def put_opt_def put_sort_def
      no_timestamp_filter_def)

lemma query_level:
  "buildQueryParams (level_params l 100) =
     [''limit'' \<mapsto> PInt 100, ''level.ge'' \<mapsto> PInt (sint l), ''sort.asc'' \<mapsto> PText ''id'',
      ''status'' \<mapsto> PText ''applied'']"
  by (simp add: buildQueryParams_def level_params_def put_opt_def put_sort_def
      no_level_filter_def)

lemma FindAll_healthy:
  "db_faults w = [] \<Longrightarrow>
   FindAll None w = (Inr (map scan_row (rev (sort_key Timestamp (delegations w)))), w)"
  by (simp add: FindAll_def db_call_healthy)

lemma seed_two_result:
  assumes "delegations w = []" "db_faults w = []"
    and "http w = [Response 200 (JArray [j1, j2])]"
    and "js_level j1 = 1000" "js_level j2 = 1001"
    and "in_int64 (js_id j1)" "in_int64 (js_id j2)" "in_int64 (js_amount j1)" "in_int64 (js_amount j2)"
    and "js_status j1 = ''applied''" "js_status j2 = ''applied''" "js_hash j1 \<noteq> js_hash j2"
    and "uuid_gen w (uuid_next w) \<noteq> []" "uuid_gen w (Suc (uuid_next w)) \<noteq> []"
    and "uuid_gen w (uuid_next w) \<noteq> uuid_gen w (Suc (uuid_next w))"
  shows "fst (GetLastIndexedLevel (pollOnce s w)) = Inr 1001"
    and "\<exists>rows. fst (FindAll None (pollOnce s w)) = Inr rows \<and> length rows = 2"
proof -
  obtain r1 where r1: "decode_delegation j1 = Some r1" "tzLevel r1 = 1000"
      "Status r1 = ''applied''" "Hash r1 = js_hash j1"
    using assms(4,6,8,10) by (simp add: decode_delegation_def in_int64_def)
  obtain r2 where r2: "decode_delegation j2 = Some r2" "tzLevel r2 = 1001"
      "Status r2 = ''applied''" "Hash r2 = js_hash j2"
    using assms(5,7,9,11) by (simp add: decode_delegation_def in_int64_def)
  have hne: "Hash r1 \<noteq> Hash r2" using assms(12) r1(4) r2(4) by simp
  note p = pollOnce_seed_two [OF assms(1-3) r1(1) r2(1) r1(3) r2(3) hne assms(13-15), of s]
  have f: "db_faults (pollOnce s w) = []" using assms(2) by (simp add: p)
  have lv: "map (\<lambda>r. cast_bigint (Level r)) (delegations (pollOnce s w)) = [Some 1000, Some 1001]"
    by (simp add: p convert_one_def cast_bigint_FormatInt r1(2) r2(2))
  show "fst (GetLastIndexedLevel (pollOnce s w)) = Inr 1001"
    by (simp add: GetLastIndexedLevel_def db_call_healthy [OF f] lv)
  have "length (delegations (pollOnce s w)) = 2" by (simp add: p)
  then show "\<exists>rows. fst (FindAll None (pollOnce s w)) = Inr rows \<and> length rows = 2"
    by (simp add: FindAll_healthy [OF f])
qed

lemma world_next_fields:
  "db_faults world_next = []" "http world_next = [Response 200 (JArray [])]"
  "delegations world_next = [convert_one rs1 ''uuid-0'' (63900000000 * second),
                             convert_one rs2 ''uuid-1'' (63900000000 * second)]"
  by (simp_all add: world_next_def tick_world_def pollOnce_world_seed)

lemma world_next_level: "GetLastIndexedLevel world_next = (Inr 1001, world_next)"
  by (simp add: GetLastIndexedLevel_def db_call_healthy world_next_fields convert_one_def
      cast_bigint_FormatInt rs1_def rs2_def)

section \<open>The retry policy of the source client\<close>

lemma resty_execute_retry:
  "http w = out # rest \<Longrightarrow> retry_condition out \<Longrightarrow>
   resty_execute (Suc n) req w = resty_execute n req (w\<lparr>http := rest, requests := requests w @ [req]\<rparr>)"
  by (simp add: resty_execute.simps [of "Suc n"] Let_def)

lemma resty_execute_last:
  "http w = out # rest \<Longrightarrow>
   resty_execute 0 req w = (out, w\<lparr>http := rest, requests := requests w @ [req]\<rparr>)"
  by (simp add: resty_execute.simps [of 0] Let_def)

lemma resty_execute_exhausted:
  "length outs = Suc n \<Longrightarrow> \<forall>out\<in>set outs. retry_condition out \<Longrightarrow> http w = outs @ rest \<Longrightarrow>
   resty_execute n req w =
     (last outs, w\<lparr>http := rest, requests := requests w @ replicate (Suc n) req\<rparr>)"
proof (induction n arbitrary: outs w)
  case 0
  then obtain out where "outs = [out]" by (cases outs) auto
  with 0 show ?case by (simp add: resty_execute_last)
next
  case (Suc n)
  then obtain out outs' where o: "outs = out # outs'" by (cases outs) auto
  define w1 where "w1 = w\<lparr>http := outs' @ rest, requests := requests w @ [req]\<rparr>"
  from Suc.prems o have r: "retry_condition out" and h: "http w = out # (outs' @ rest)" by auto
  have l: "length outs' = Suc n" "\<forall>out\<in>set outs'. retry_condition out" "http w1 = outs' @ rest"
    using Suc.prems o by (auto simp: w1_def)
  have ne: "outs' \<noteq> []" using l(1) by auto
  have "resty_execute (Suc n) req w = resty_execute n req w1"
    using resty_execute_retry [OF h r] by (simp add: w1_def)
  also have "\<dots> = (last outs', w1\<lparr>http := rest, requests := requests w1 @ replicate (Suc n) req\<rparr>)"
    by (rule Suc.IH [OF l])
  finally show ?case using ne o by (simp add: w1_def replicate_app_Cons_same)
qed

lemma resty_execute_bound:
  "resty_execute n req w = (out, w') \<Longrightarrow> length (requests w') \<le> length (requests w) + Suc n"
proof (induction n arbitrary: w out w')
  case 0
  then show ?case
    by (auto simp: resty_execute.simps [of 0] Let_def split: list.splits if_splits)
next
  case (Suc n)
  show ?case
  proof (cases "http w")
    case Nil
    with Suc.prems show ?thesis by (simp add: resty_execute.simps [of "Suc n"])
  next
    case (Cons x rest)
    define w1 where "w1 = w\<lparr>http := rest, requests := requests w @ [req]\<rparr>"
    show ?thesis
    proof (cases "retry_condition x")
      case True
      with Suc.prems Cons have "resty_execute n req w1 = (out, w')"
        by (simp add: resty_execute_retry w1_def)
      from Suc.IH [OF this] show ?thesis by (simp add: w1_def)
    next
      case False
      with Suc.prems Cons show ?thesis by (auto simp: resty_execute_ok)
    qed
  qed
qed

lemma GetDelegations_result:
  "http w \<noteq> [] \<Longrightarrow> resty_execute (httpRetryCount c) (delegations_request c p) w = (out, w1) \<Longrightarrow>
   GetDelegations c p w =
     (case out of
        TransportError \<Rightarrow> (Inl FetchFailed, w1)
      | Response code body \<Rightarrow>
          if code \<noteq> 200 then (Inl (UnexpectedStatus code), w1)
          else (case unmarshal_delegations body of
                  None \<Rightarrow> (Inl UnmarshalFailed, w1)
                | Some dels \<Rightarrow> (Inr dels, w1)))"
  by (simp add: GetDelegations_def delegations_request_def Let_def)

lemma GetDelegations_bound:
  "length (requests (snd (GetDelegations c p w))) \<le> length (requests w) + Suc (httpRetryCount c)"
proof (cases "http w = []")
  case True
  then show ?thesis by (simp add: GetDelegations_def)
next
  case False
  obtain out w1 where e: "resty_execute (httpRetryCount c) (delegations_request c p) w = (out, w1)"
    by force
  from resty_execute_bound [OF e] GetDelegations_result [OF False e] show ?thesis
    by (auto split: http_outcome.splits option.splits)
qed

lemma GetDelegations_no_retry:
  assumes "http w = Response code body # rest" "400 \<le> code" "code < 500" "code \<noteq> 429"
  shows "GetDelegations c p w =
     (Inl (UnexpectedStatus code), w\<lparr>http := rest, requests := requests w @ [delegations_request c p]\<rparr>)"
proof -
  have ne: "http w \<noteq> []" using assms(1) by simp
  have nr: "\<not> retry_condition (Response code body)" using assms(3,4) by (simp add: retry_condition_def)
  show ?thesis
    using assms(2,3) by (simp add: GetDelegations_result [OF ne resty_execute_ok [OF assms(1) nr]])
qed

lemma GetDelegations_exhausted:
  assumes "length outs = Suc (httpRetryCount c)" "\<forall>out\<in>set outs. retry_condition out"
    "http w = outs @ rest"
  shows "GetDelegations c p w =
     (Inl (case last outs of TransportError \<Rightarrow> FetchFailed | Response code body \<Rightarrow> UnexpectedStatus code),
      w\<lparr>http := rest, requests := requests w @ replicate (Suc (httpRetryCount c)) (delegations_request c p)\<rparr>)"
proof -
  have ne: "outs \<noteq> []" using assms(1) by auto
  then have hne: "http w \<noteq> []" using assms(3) by simp
  have "retry_condition (last outs)" using assms(2) ne by simp
  then have "case last outs of TransportError \<Rightarrow> True | Response code body \<Rightarrow> code \<noteq> 200"
    by (auto simp: retry_condition_def split: http_outcome.splits)
  then show ?thesis
    by (simp add: GetDelegations_result [OF hne resty_execute_exhausted [OF assms]]
        split: http_outcome.splits)
qed

lemma GetDelegations_third_attempt:
  assumes "http w = Response 500 b1 # Response 500 b2 # Response 200 body # rest"
    and "unmarshal_delegations body = Some rs" and "httpRetryCount c = 3"
  shows "GetDelegations c p w =
     (Inr rs, w\<lparr>http := rest, requests := requests w @ replicate 3 (delegations_request c p)\<rparr>)"
proof -
  let ?req = "delegations_request c p"
  have ne: "http w \<noteq> []" using assms(1) by simp
  have r5: "retry_condition (Response 500 b)" for b by (simp add: retry_condition_def)
  have n2: "\<not> retry_condition (Response 200 body)" by (simp add: retry_condition_def)
  define w1 where "w1 = w\<lparr>http := Response 500 b2 # Response 200 body # rest, requests := requests w @ [?req]\<rparr>"
  define w2 where "w2 = w1\<lparr>http := Response 200 body # rest, requests := requests w1 @ [?req]\<rparr>"
  have "resty_execute 3 ?req w = resty_execute 2 ?req w1"
    using resty_execute_retry [OF assms(1) r5, of 2 ?req] by (simp add: w1_def numeral_3_eq_3 numeral_2_eq_2)
  also have "\<dots> = resty_execute 1 ?req w2"
    using resty_execute_retry [of w1 "Response 500 b2" "Response 200 body # rest" 1 ?req] r5
    by (simp add: w1_def w2_def numeral_2_eq_2)
  also have "\<dots> = (Response 200 body, w2\<lparr>http := rest, requests := requests w2 @ [?req]\<rparr>)"
    by (rule resty_execute_ok) (simp_all add: w2_def n2)
  finally have e: "resty_execute (httpRetryCount c) ?req w =
      (Response 200 body, w\<lparr>http := rest, requests := requests w @ replicate 3 ?req\<rparr>)"
    by (simp add: assms(3) w2_def w1_def numeral_3_eq_3)
  show ?thesis by (simp add: GetDelegations_result [OF ne e] assms(2))
qed

text \<open>
  C6: \<^verbatim>\<open>NewClient\<close> gives resty the configured number of retries, the configured delay
  as the wait and three times that delay as the longest wait. An exchange is repeated when
  it failed in transport or answered with a status of 500 or more or with 429, and only
  then. A first answer with another 4xx status is returned at once, as an error, after a
  single request. A call never makes more requests than the retry count plus one, and makes
  exactly that many, then returning an error, when every one of them fails transiently.
  With three retries, two answers 500 followed by an answer 200 with a readable body give
  the payload of the third answer and no error.
\<close>

theorem GetDelegations_retry_policy:
  "httpRetryCount (NewClient url timeout n d) = n
   \<and> httpRetryWaitTime (NewClient url timeout n d) = d
   \<and> httpRetryMaxWaitTime (NewClient url timeout n d) = d * 3
   \<and> (retry_condition out \<longleftrightarrow>
        out = TransportError \<or> (\<exists>code body. out = Response code body \<and> (500 \<le> code \<or> code = 429)))
   \<and> (http w = Response code body # rest \<and> 400 \<le> code \<and> code < 500 \<and> code \<noteq> 429 \<longrightarrow>
        GetDelegations c p w =
          (Inl (UnexpectedStatus code),
           w\<lparr>http := rest, requests := requests w @ [delegations_request c p]\<rparr>))
   \<and> length (requests (snd (GetDelegations c p w))) \<le> length (requests w) + Suc (httpRetryCount c)
   \<and> (length outs = Suc (httpRetryCount c) \<and> (\<forall>out\<in>set outs. retry_condition out)
        \<and> http w = outs @ rest \<longrightarrow>
        GetDelegations c p w =
          (Inl (case last outs of TransportError \<Rightarrow> FetchFailed
                | Response code body \<Rightarrow> UnexpectedStatus code),
           w\<lparr>http := rest,
              requests := requests w @ replicate (Suc (httpRetryCount c)) (delegations_request c p)\<rparr>))
   \<and> (http w = Response 500 b1 # Response 500 b2 # Response 200 body3 # rest
        \<and> unmarshal_delegations body3 = Some rs \<and> httpRetryCount c = 3 \<longrightarrow>
        GetDelegations c p w =
          (Inr rs, w\<lparr>http := rest, requests := requests w @ replicate 3 (delegations_request c p)\<rparr>))"
proof -
  have a: "httpRetryCount (NewClient url timeout n d) = n
     \<and> httpRetryWaitTime (NewClient url timeout n d) = d
     \<and> httpRetryMaxWaitTime (NewClient url timeout n d) = d * 3"
    by (simp add: NewClient_def)
  have b: "retry_condition out \<longleftrightarrow>
        out = TransportError \<or> (\<exists>code body. out = Response code body \<and> (500 \<le> code \<or> code = 429))"
    by (cases out) (simp_all add: retry_condition_def)
  from a b GetDelegations_no_retry [of w code body rest c p] GetDelegations_bound [of c p w]
    GetDelegations_exhausted [of outs c w rest p]
    GetDelegations_third_attempt [of w b1 b2 body3 rest rs c p]
  show ?thesis by blast
qed

text \<open>
  Witness for C6, with the client of three retries: 500, 500, 200 gives the page of the
  third answer after three requests; 404 gives an error after one request and leaves the
  next answer unread; four transient failures in a row give an error after four requests.
\<close>

theorem GetDelegations_retry_policy_witness:
  "httpRetryCount client0 = 3
   \<and> http world_retry = Response 500 Malformed # Response 500 Malformed # Response 200 (JArray [js1]) # []
   \<and> unmarshal_delegations (JArray [js1]) = Some [rs1]
   \<and> GetDelegations client0 (since_params 0 10) world_retry =
        (Inr [rs1], world_retry\<lparr>http := [],
           requests := requests world_retry @ replicate 3 (delegations_request client0 (since_params 0 10))\<rparr>)
   \<and> http world_404 = Response 404 Malformed # [Response 200 (JArray [js1])]
   \<and> GetDelegations client0 (since_params 0 10) world_404 =
        (Inl (UnexpectedStatus 404),
         world_404\<lparr>http := [Response 200 (JArray [js1])],
           requests := requests world_404 @ [delegations_request client0 (since_params 0 10)]\<rparr>)
   \<and> retry_condition (Response 503 Malformed) \<and> retry_condition TransportError
   \<and> retry_condition (Response 429 Malformed) \<and> retry_condition (Response 500 Malformed)
   \<and> http world_503 = [Response 503 Malformed, TransportError, Response 429 Malformed,
                        Response 500 Malformed] @ [Response 200 (JArray [js1])]
   \<and> GetDelegations client0 (since_params 0 10) world_503 =
        (Inl (UnexpectedStatus 500),
         world_503\<lparr>http := [Response 200 (JArray [js1])],
           requests := requests world_503 @ replicate 4 (delegations_request client0 (since_params 0 10))\<rparr>)"
proof -
  have c: "httpRetryCount client0 = 3" by (simp add: client0_def NewClient_def)
  have u: "unmarshal_delegations (JArray [js1]) = Some [rs1]"
    by (simp add: unmarshal_delegations_def decode_js1)
  have h1: "http world_retry = Response 500 Malformed # Response 500 Malformed # Response 200 (JArray [js1]) # []"
    by (simp add: world_retry_def)
  have h2: "http world_404 = Response 404 Malformed # [Response 200 (JArray [js1])]"
    by (simp add: world_404_def)
  have h3: "http world_503 = [Response 503 Malformed, TransportError, Response 429 Malformed,
                        Response 500 Malformed] @ [Response 200 (JArray [js1])]"
    by (simp add: world_503_def)
  have r: "retry_condition (Response 503 Malformed) \<and> retry_condition TransportError
     \<and> retry_condition (Response 429 Malformed) \<and> retry_condition (Response 500 Malformed)"
    by (simp add: retry_condition_def)
  note t1 = GetDelegations_retry_policy [of "''u''" 0 0 0 TransportError world_retry 0 Malformed "[]"
      client0 "since_params 0 10" "[]" Malformed Malformed "JArray [js1]" "[rs1]"]
  note t2 = GetDelegations_retry_policy [of "''u''" 0 0 0 TransportError world_404 404 Malformed
      "[Response 200 (JArray [js1])]" client0 "since_params 0 10" "[]" Malformed Malformed Malformed "[]"]
  note t3 = GetDelegations_retry_policy [of "''u''" 0 0 0 TransportError world_503 0 Malformed
      "[Response 200 (JArray [js1])]" client0 "since_params 0 10"
      "[Response 503 Malformed, TransportError, Response 429 Malformed, Response 500 Malformed]"
      Malformed Malformed Malformed "[]"]
  have g1: "GetDelegations client0 (since_params 0 10) world_retry =
        (Inr [rs1], world_retry\<lparr>http := [],
           requests := requests world_retry @ replicate 3 (delegations_request client0 (since_params 0 10))\<rparr>)"
    using t1 c u h1 by blast
  have g2: "GetDelegations client0 (since_params 0 10) world_404 =
        (Inl (UnexpectedStatus 404),
         world_404\<lparr>http := [Response 200 (JArray [js1])],
           requests := requests world_404 @ [delegations_request client0 (since_params 0 10)]\<rparr>)"
    using t2 h2 by simp
  have g3: "GetDelegations client0 (since_params 0 10) world_503 =
        (Inl (UnexpectedStatus 500),
         world_503\<lparr>http := [Response 200 (JArray [js1])],
           requests := requests world_503 @ replicate 4 (delegations_request client0 (since_params 0 10))\<rparr>)"
    using t3 h3 r c by simp
  from c u h1 h2 h3 r g1 g2 g3 show ?thesis by blast
qed

section \<open>Amounts\<close>

lemma db_frame_refl [simp]: "db_frame w w"
  by (simp add: db_frame_def)

lemma db_frame_trans: "db_frame w w1 \<Longrightarrow> db_frame w1 w2 \<Longrightarrow> db_frame w w2"
  by (simp add: db_frame_def)

lemma resty_execute_db: "resty_execute n req w = (out, w') \<Longrightarrow> db_frame w w'"
proof (induction n arbitrary: w out w')
  case 0
  then show ?case
    by (auto simp: resty_execute.simps [of 0] Let_def db_frame_def split: list.splits if_splits)
next
  case (Suc n)
  show ?case
  proof (cases "http w")
    case Nil
    with Suc.prems show ?thesis by (simp add: resty_execute.simps [of "Suc n"])
  next
    case (Cons x rest)
    define w1 where "w1 = w\<lparr>http := rest, requests := requests w @ [req]\<rparr>"
    show ?thesis
    proof (cases "retry_condition x")
      case True
      with Suc.prems Cons have "resty_execute n req w1 = (out, w')"
        by (simp add: resty_execute_retry w1_def)
      from Suc.IH [OF this] show ?thesis by (simp add: w1_def db_frame_def)
    next
      case False
      with Suc.prems Cons show ?thesis by (auto simp: resty_execute_ok db_frame_def)
    qed
  qed
qed

lemma GetDelegations_db: "GetDelegations c p w = (r, w') \<Longrightarrow> db_frame w w'"
  by (auto simp: GetDelegations_def Let_def
      split: if_splits prod.splits http_outcome.splits option.splits
      dest: resty_execute_db)

lemma GetDelegations_unreadable:
  assumes "http w = Response 200 body # rest" "unmarshal_delegations body = None"
  shows "GetDelegations c p w =
     (Inl UnmarshalFailed, w\<lparr>http := rest, requests := requests w @ [delegations_request c p]\<rparr>)"
proof -
  have ne: "http w \<noteq> []" using assms(1) by simp
  have nr: "\<not> retry_condition (Response 200 body)" by (simp add: retry_condition_def)
  show ?thesis
    using assms(2) by (simp add: GetDelegations_result [OF ne resty_execute_ok [OF assms(1) nr]])
qed

lemma poll_recent_fetch_error:
  "GetDelegationsSince (tzktClient s) (now w + (- 30 * 24 * hour)) 1000 w = (Inl e, w3) \<Longrightarrow>
   poll_recent s w = log_add (LogError ''Failed to fetch recent delegations'') w3"
  by (simp add: poll_recent_def)

lemma poll_new_fetch_error:
  "GetDelegationsFromLevel (tzktClient s) (l + 1) 100 w = (Inl e, w3) \<Longrightarrow>
   poll_new s l w = (log_add (LogError ''Failed to fetch new delegations'') w3)
            \<lparr>m_PollingErrors := Suc (m_PollingErrors w3)\<rparr>"
  by (simp add: poll_new_def)

lemma GetLastIndexedLevel_rows:
  "GetLastIndexedLevel w = (r, w1) \<Longrightarrow> delegations w1 = delegations w"
  by (auto simp: GetLastIndexedLevel_def Let_def db_call_def
      split: prod.splits option.splits list.splits if_splits)

lemma pollOnce_fetch_error_rows:
  assumes "GetLastIndexedLevel w = (Inr lastLevel, w1)"
    and "fst (GetDelegations (tzktClient s)
           (if lastLevel = 0 then since_params (now w + (- 30 * 24 * hour)) 1000
            else level_params (lastLevel + 1) 100)
           (w1\<lparr>m_LastIndexedLevel := lastLevel\<rparr>)) = Inl e"
  shows "delegations (pollOnce s w) = delegations w"
proof -
  define w2 where "w2 = w1\<lparr>m_LastIndexedLevel := lastLevel\<rparr>"
  have r2: "delegations w2 = delegations w" "now w2 = now w"
    using GetLastIndexedLevel_rows [OF assms(1)] GetLastIndexedLevel_net [OF assms(1)]
    by (simp_all add: w2_def net_frame_def)
  have p: "pollOnce s w = (if lastLevel = 0 then poll_recent s w2 else poll_new s lastLevel w2)"
    using assms(1) by (simp add: pollOnce_def Let_def w2_def)
  show ?thesis
  proof (cases "lastLevel = 0")
    case True
    obtain w3 where f: "GetDelegationsSince (tzktClient s) (now w2 + (- 30 * 24 * hour)) 1000 w2 = (Inl e, w3)"
      using assms(2) True r2(2)
      by (cases "GetDelegations (tzktClient s) (since_params (now w + (- 30 * 24 * hour)) 1000) w2")
        (auto simp: GetDelegationsSince_def since_params_def w2_def)
    from GetDelegations_db [OF f [unfolded GetDelegationsSince_def]] have "delegations w3 = delegations w2"
      by (simp add: db_frame_def)
    with True p r2 poll_recent_fetch_error [OF f] show ?thesis by (simp add: log_add_def)
  next
    case False
    obtain w3 where f: "GetDelegationsFromLevel (tzktClient s) (lastLevel + 1) 100 w2 = (Inl e, w3)"
      using assms(2) False
      by (cases "GetDelegations (tzktClient s) (level_params (lastLevel + 1) 100) w2")
        (auto simp: GetDelegationsFromLevel_def level_params_def w2_def)
    from GetDelegations_db [OF f [unfolded GetDelegationsFromLevel_def]] have "delegations w3 = delegations w2"
      by (simp add: db_frame_def)
    with False p r2 poll_new_fetch_error [OF f] show ?thesis by (simp add: log_add_def)
  qed
qed

lemma convert_amounts:
  "convertToDomainDelegations rs w = (ds, w') \<Longrightarrow>
   map Amount ds = map (\<lambda>r. FormatInt (tzAmount r)) (filter (\<lambda>r. Status r = ''applied'') rs)"
proof (induction rs arbitrary: w ds w')
  case Nil
  then show ?case by simp
next
  case (Cons r rs)
  show ?case
  proof (cases "Status r = ''applied''")
    case True
    obtain ds2 w2 where c: "convertToDomainDelegations rs (w\<lparr>uuid_next := Suc (uuid_next w)\<rparr>) = (ds2, w2)"
      by force
    from Cons.prems True c Cons.IH [OF c] show ?thesis by (auto simp: uuid_New_def)
  next
    case False
    with Cons show ?thesis by simp
  qed
qed

lemma those_None_iff: "those xs = None \<longleftrightarrow> None \<in> set xs"
  by (induction xs) (auto split: option.splits)

lemma decode_amount:
  "decode_delegation j = Some r \<Longrightarrow>
   in_int64 (js_amount j) \<and> parse_int (FormatInt (tzAmount r)) = Some (js_amount j)"
proof -
  assume a: "decode_delegation j = Some r"
  then have i: "in_int64 (js_amount j)" and t: "tzAmount r = word_of_int (js_amount j)"
    by (auto simp: decode_delegation_def split: if_splits)
  have "sint (word_of_int (js_amount j) :: int64) = js_amount j"
    using i by (simp add: in_int64_def sint_sbintrunc' signed_take_bit_int_eq_self)
  with i t show ?thesis by (simp add: parse_int_FormatInt)
qed

lemma unmarshal_out_of_range:
  "j \<in> set js \<Longrightarrow> \<not> in_int64 (js_amount j) \<Longrightarrow> unmarshal_delegations (JArray js) = None"
proof -
  assume "j \<in> set js" "\<not> in_int64 (js_amount j)"
  then have "None \<in> set (map decode_delegation js)"
    by (force simp: decode_delegation_def)
  then show ?thesis by (simp add: unmarshal_delegations_def those_None_iff)
qed

lemma pollOnce_unreadable_rows:
  assumes "GetLastIndexedLevel w = (Inr lastLevel, w1)"
    and "http w = Response 200 body # rest" and "unmarshal_delegations body = None"
  shows "delegations (pollOnce s w) = delegations w"
proof -
  have "http (w1\<lparr>m_LastIndexedLevel := lastLevel\<rparr>) = Response 200 body # rest"
    using GetLastIndexedLevel_net [OF assms(1)] assms(2) by (simp add: net_frame_def)
  from GetDelegations_unreadable [OF this assms(3)]
  have "fst (GetDelegations (tzktClient s)
           (if lastLevel = 0 then since_params (now w + (- 30 * 24 * hour)) 1000
            else level_params (lastLevel + 1) 100)
           (w1\<lparr>m_LastIndexedLevel := lastLevel\<rparr>)) = Inl UnmarshalFailed"
    by simp
  with assms(1) show ?thesis by (rule pollOnce_fetch_error_rows)
qed

text \<open>
  C9, as amended: the amount of a source event is read into an int64 and stored as the
  decimal text of that int64. For an event that decodes, the amount is within the range of
  an int64 and the text stored reads back as exactly the amount the source sent; the
  amounts of a converted page are the formatted amounts of its applied events. A page that
  holds an amount outside that range does not decode, and a tick that fetches such a page
  leaves the table as it was.
\<close>

theorem amount_exact_within_int64:
  "(decode_delegation j = Some r \<longrightarrow>
      in_int64 (js_amount j) \<and> parse_int (FormatInt (tzAmount r)) = Some (js_amount j))
   \<and> (convertToDomainDelegations rs w0 = (ds, w0') \<longrightarrow>
        map Amount ds = map (\<lambda>r. FormatInt (tzAmount r)) (filter (\<lambda>r. Status r = ''applied'') rs))
   \<and> (j' \<in> set js \<and> \<not> in_int64 (js_amount j') \<longrightarrow> unmarshal_delegations (JArray js) = None)
   \<and> (GetLastIndexedLevel w = (Inr lastLevel, w1) \<and> http w = Response 200 body # rest
        \<and> unmarshal_delegations body = None \<longrightarrow>
        delegations (pollOnce s w) = delegations w)"
  using decode_amount [of j r] convert_amounts [of rs w0 ds w0'] unmarshal_out_of_range [of j' js]
    pollOnce_unreadable_rows [of w lastLevel w1 body rest s]
  by blast

text \<open>
  Counterexample for C9 as stated: the source sends a page of two applied events, the
  second with the amount 9223372036854775808, one more than the largest int64. The fetch
  fails on the decoding of the page, and the tick stores neither event.
\<close>

theorem amount_beyond_int64_not_ingested:
  "js_amount js_big = 9223372036854775808 \<and> js_status js_big = ''applied''
   \<and> http world_big = [Response 200 (JArray [js1, js_big])]
   \<and> fst (GetDelegations client0 (since_params (now world_big + (- 30 * 24 * hour)) 1000) world_big) =
       Inl UnmarshalFailed
   \<and> delegations (pollOnce svc0 world_big) = []"
proof -
  have b: "js_big \<in> set [js1, js_big]" "\<not> in_int64 (js_amount js_big)"
    by (simp_all add: js_big_def in_int64_def)
  have u: "unmarshal_delegations (JArray [js1, js_big]) = None"
    by (rule unmarshal_out_of_range [OF b])
  have h: "http world_big = Response 200 (JArray [js1, js_big]) # []"
    by (simp add: world_big_def)
  have g: "GetLastIndexedLevel world_big = (Inr 0, world_big)"
    by (simp add: GetLastIndexedLevel_empty world_big_def world0_def)
  have "delegations (pollOnce svc0 world_big) = delegations world_big"
    by (rule pollOnce_unreadable_rows [OF g h u])
  then have d: "delegations (pollOnce svc0 world_big) = []"
    by (simp add: world_big_def world0_def)
  from GetDelegations_unreadable [OF h u] d h show ?thesis
    by (simp add: js_big_def js2_def)
qed

text \<open>
  Witness for C9: the first sample event decodes and its amount 1000000 is stored as text
  that reads back as 1000000; the page with the oversized amount does not decode, and the
  tick that fetches it leaves the table empty.
\<close>

theorem amount_exact_within_int64_witness:
  "decode_delegation js1 = Some rs1 \<and> js_amount js1 = 1000000
   \<and> parse_int (FormatInt (tzAmount rs1)) = Some 1000000
   \<and> convertToDomainDelegations [rs1] world0 =
        ([convert_one rs1 ''uuid-0'' (now world0)], world0\<lparr>uuid_next := 1\<rparr>)
   \<and> map Amount [convert_one rs1 ''uuid-0'' (now world0)] = [FormatInt (tzAmount rs1)]
   \<and> js_big \<in> set [js1, js_big] \<and> \<not> in_int64 (js_amount js_big)
   \<and> unmarshal_delegations (JArray [js1, js_big]) = None
   \<and> GetLastIndexedLevel world_big = (Inr 0, world_big)
   \<and> http world_big = Response 200 (JArray [js1, js_big]) # []
   \<and> delegations (pollOnce svc0 world_big) = delegations world_big"
proof -
  note t = amount_exact_within_int64 [of js1 rs1 "[rs1]" world0
      "[convert_one rs1 ''uuid-0'' (now world0)]" "world0\<lparr>uuid_next := 1\<rparr>" js_big "[js1, js_big]"
      world_big 0 world_big "JArray [js1, js_big]" "[]" svc0]
  have a: "js_amount js1 = 1000000" by (simp add: js1_def)
  have c: "convertToDomainDelegations [rs1] world0 =
        ([convert_one rs1 ''uuid-0'' (now world0)], world0\<lparr>uuid_next := 1\<rparr>)"
    by (simp add: uuid_New_def convert_one_def rs1_def world0_def digits_0_1)
  have b: "js_big \<in> set [js1, js_big]" "\<not> in_int64 (js_amount js_big)"
    by (simp_all add: js_big_def in_int64_def)
  have g: "GetLastIndexedLevel world_big = (Inr 0, world_big)"
    by (simp add: GetLastIndexedLevel_empty world_big_def world0_def)
  have h: "http world_big = Response 200 (JArray [js1, js_big]) # []"
    by (simp add: world_big_def)
  from t decode_js1 have "parse_int (FormatInt (tzAmount rs1)) = Some (js_amount js1)" by blast
  then have p1: "parse_int (FormatInt (tzAmount rs1)) = Some 1000000" by (simp add: a)
  from t c have "map Amount [convert_one rs1 ''uuid-0'' (now world0)] =
      map (\<lambda>r. FormatInt (tzAmount r)) (filter (\<lambda>r. Status r = ''applied'') [rs1])" by blast
  then have p2: "map Amount [convert_one rs1 ''uuid-0'' (now world0)] = [FormatInt (tzAmount rs1)]"
    by (simp add: rs1_def)
  from t b have u: "unmarshal_delegations (JArray [js1, js_big]) = None" by blast
  from t g h u have d: "delegations (pollOnce svc0 world_big) = delegations world_big" by blast
  note d1 = decode_js1
  show ?thesis by (intro conjI) (fact d1 a p1 c p2 b u g h d)+
qed

section \<open>Failures of a tick and of the backfill\<close>

lemma convert_rows:
  "convertToDomainDelegations ds w = (r, w') \<Longrightarrow> delegations w' = delegations w"
proof (induction ds arbitrary: w r w')
  case Nil
  then show ?case by simp
next
  case (Cons d ds)
  show ?case
  proof (cases "Status d = ''applied''")
    case True
    obtain r2 w2 where c: "convertToDomainDelegations ds (w\<lparr>uuid_next := Suc (uuid_next w)\<rparr>) = (r2, w2)"
      by force
    from Cons.IH [OF c] Cons.prems True c show ?thesis by (simp add: uuid_New_def)
  next
    case False
    with Cons show ?thesis by simp
  qed
qed

lemma SaveBatch_error_rows:
  "SaveBatch ds w = (Some e, w') \<Longrightarrow> delegations w' = delegations w"
proof -
  assume a: "SaveBatch ds w = (Some e, w')"
  obtain fault w1 where c: "db_call w = (fault, w1)" by force
  obtain q w2 where qb: "queue_batch ds w1 = (q, w2)" by force
  have w1: "delegations w1 = delegations w"
    using c by (auto simp: db_call_def split: list.splits)
  from queue_batch_filled [OF qb] obtain n where "w2 = w1\<lparr>uuid_next := n\<rparr>" by blast
  then have "delegations w2 = delegations w" using w1 by simp
  with a c qb w1 show ?thesis
    by (auto simp: SaveBatch_def split: sum.splits if_splits)
qed

lemma save_page_error_rows:
  "save_page dels w = (Some e, w') \<Longrightarrow> delegations w' = delegations w"
  by (auto simp: save_page_def split: prod.splits dest!: convert_rows SaveBatch_error_rows)

lemma poll_recent_failed_rows:
  "m_ProcessedSuccess (poll_recent s w) = m_ProcessedSuccess w \<Longrightarrow>
   delegations (poll_recent s w) = delegations w"
proof -
  assume k: "m_ProcessedSuccess (poll_recent s w) = m_ProcessedSuccess w"
  obtain r3 w3 where f: "GetDelegationsSince (tzktClient s) (now w + (- 30 * 24 * hour)) 1000 w = (r3, w3)"
    by force
  from GetDelegations_db [OF f [unfolded GetDelegationsSince_def]]
  have d3: "delegations w3 = delegations w" "m_ProcessedSuccess w3 = m_ProcessedSuccess w"
    by (simp_all add: db_frame_def)
  show ?thesis
  proof (cases r3)
    case (Inl e)
    with f d3 show ?thesis by (simp add: poll_recent_def log_add_def)
  next
    case (Inr dels)
    obtain r w5 where sp: "save_page dels w3 = (r, w5)" by force
    have m5: "m_ProcessedSuccess w5 = m_ProcessedSuccess w"
      using save_page_net [OF sp] d3 by (simp add: net_frame_def)
    show ?thesis
    proof (cases r)
      case None
      with f Inr sp k m5 show ?thesis
        by (auto simp: poll_recent_def log_add_def d3 split: if_splits)
    next
      case (Some e)
      with f Inr sp d3 save_page_error_rows [of dels w3 e w5] show ?thesis
        by (auto simp: poll_recent_def log_add_def)
    qed
  qed
qed

lemma poll_new_failed_rows:
  "m_ProcessedSuccess (poll_new s l w) = m_ProcessedSuccess w \<Longrightarrow>
   delegations (poll_new s l w) = delegations w"
proof -
  assume k: "m_ProcessedSuccess (poll_new s l w) = m_ProcessedSuccess w"
  obtain r3 w3 where f: "GetDelegationsFromLevel (tzktClient s) (l + 1) 100 w = (r3, w3)"
    by force
  from GetDelegations_db [OF f [unfolded GetDelegationsFromLevel_def]]
  have d3: "delegations w3 = delegations w" "m_ProcessedSuccess w3 = m_ProcessedSuccess w"
    by (simp_all add: db_frame_def)
  show ?thesis
  proof (cases r3)
    case (Inl e)
    with f d3 show ?thesis by (simp add: poll_new_def log_add_def)
  next
    case (Inr dels)
    obtain r w5 where sp: "save_page dels w3 = (r, w5)" by force
    have m5: "m_ProcessedSuccess w5 = m_ProcessedSuccess w"
      using save_page_net [OF sp] d3 by (simp add: net_frame_def)
    show ?thesis
    proof (cases r)
      case None
      with f Inr sp k m5 show ?thesis
        by (auto simp: poll_new_def log_add_def d3 split: if_splits)
    next
      case (Some e)
      with f Inr sp d3 save_page_error_rows [of dels w3 e w5] show ?thesis
        by (auto simp: poll_new_def log_add_def)
    qed
  qed
qed

lemma pollOnce_failed_rows:
  "m_ProcessedSuccess (pollOnce s w) = m_ProcessedSuccess w \<Longrightarrow>
   delegations (pollOnce s w) = delegations w"
proof -
  assume k: "m_ProcessedSuccess (pollOnce s w) = m_ProcessedSuccess w"
  obtain r w1 where g: "GetLastIndexedLevel w = (r, w1)" by force
  have d1: "delegations w1 = delegations w" "m_ProcessedSuccess w1 = m_ProcessedSuccess w"
    using GetLastIndexedLevel_rows [OF g] GetLastIndexedLevel_net [OF g]
    by (simp_all add: net_frame_def)
  show ?thesis
  proof (cases r)
    case (Inl e)
    with g d1 show ?thesis by (simp add: pollOnce_def log_add_def)
  next
    case (Inr lastLevel)
    define w2 where "w2 = w1\<lparr>m_LastIndexedLevel := lastLevel\<rparr>"
    have d2: "delegations w2 = delegations w" "m_ProcessedSuccess w2 = m_ProcessedSuccess w"
      using d1 by (simp_all add: w2_def)
    have p: "pollOnce s w = (if lastLevel = 0 then poll_recent s w2 else poll_new s lastLevel w2)"
      using g Inr by (simp add: pollOnce_def Let_def w2_def)
    show ?thesis
      using k d2 poll_recent_failed_rows [of s w2] poll_new_failed_rows [of s lastLevel w2]
      by (simp add: p split: if_splits)
  qed
qed

lemma pollLoop_select_ticks:
  "pollLoop_select (map (\<lambda>(net, faults, clock). Tick net faults clock) ticks @ Stop # rest) s w =
     fold (\<lambda>(net, faults, clock) w. pollOnce s (tick_world net faults clock w)) ticks w"
  by (induction ticks arbitrary: w) auto

lemma StartPolling_enters_loop:
  assumes "\<not> pollingStarted s" "0 < PollingInterval s"
  shows "\<exists>s' w'. StartPolling s w = Some (None, s', w') \<and> pollingStarted s'
           \<and> pollingTicker s' = Some (PollingInterval s, True)
           \<and> goroutines w' \<noteq> [] \<and> last (goroutines w') = PollLoopTask"
  using assms by (simp add: StartPolling_def Let_def log_add_def split: prod.splits option.splits)

lemma GetDelegations_context_done: "http w = [] \<Longrightarrow> GetDelegations c p w = (Inl RateLimiterError, w)"
  by (simp add: GetDelegations_def)

lemma pollOnce_context_done:
  "delegations w = [] \<Longrightarrow> db_faults w = [] \<Longrightarrow> http w = [] \<Longrightarrow>
   pollOnce s w = log_add (LogError ''Failed to fetch recent delegations'') (w\<lparr>m_LastIndexedLevel := 0\<rparr>)"
  by (simp add: pollOnce_def GetLastIndexedLevel_empty poll_recent_def GetDelegationsSince_def
      GetDelegations_context_done Let_def)

lemma pollOnce_store_down:
  "db_faults w = True # fs \<Longrightarrow>
   pollOnce s w = (log_add (LogError ''Failed to get last indexed level'') (w\<lparr>db_faults := fs\<rparr>))
            \<lparr>m_PollingErrors := Suc (m_PollingErrors w)\<rparr>"
  by (simp add: pollOnce_def GetLastIndexedLevel_def db_call_def)

lemma svc0_fields:
  "pollingStarted svc0 = False" "PollingInterval svc0 = 30 * second" "HistoricalIndexing svc0 = True"
  "tzktClient svc0 = client0" "HistoricalStartDate svc0 = Some (63800000000 * second)"
  "pollingTicker svc0 = None" "stopPolling svc0 = False"
  by (simp_all add: svc0_def NewService_def)

lemma indexHistorical_store_down:
  "db_faults w = True # fs \<Longrightarrow>
   indexHistorical s w = (Some (CheckExistingFailed (QueryFailed ConnError)), w\<lparr>db_faults := fs\<rparr>)"
  by (simp add: indexHistorical_def FindAll_def db_call_def)

lemma StartPolling_world_down:
  "StartPolling svc0 world_down = Some (None, svc_started, world_started)"
proof -
  have i: "indexHistorical (svc0\<lparr>pollingStarted := True\<rparr>)
      (log_add (LogInfo ''Starting historical indexing...'') world_down) =
      (Some (CheckExistingFailed (QueryFailed ConnError)),
       (log_add (LogInfo ''Starting historical indexing...'') world_down)\<lparr>db_faults := []\<rparr>)"
    by (rule indexHistorical_store_down) (simp add: world_down_def log_add_def)
  show ?thesis
    unfolding StartPolling_def
    by (simp add: svc0_fields i Let_def)
      (simp add: svc_started_def world_started_def world_down_def world0_def log_add_def second_def
        millisecond_def)
qed

lemma world_started_fields:
  "delegations world_started = []" "db_faults world_started = []" "http world_started = []"
  "uuid_gen world_started n = ''uuid-'' @ digits n" "uuid_next world_started = 0"
  "m_ProcessedSuccess world_started = 0" "m_PollingErrors world_started = 0"
  "goroutines world_started = [PollLoopTask]"
  "LogError ''Historical indexing failed'' \<in> set (logs world_started)"
  by (simp_all add: world_started_def world0_def)

lemma pollOnce_world_started:
  "pollOnce svc_started world_started =
     log_add (LogError ''Failed to fetch recent delegations'') (world_started\<lparr>m_LastIndexedLevel := 0\<rparr>)"
  by (rule pollOnce_context_done) (simp_all add: world_started_fields)

lemma three_ticks_world_started:
  "fold (\<lambda>(net, faults, clock) w. pollOnce svc_started (tick_world net faults clock w))
     [([], [True], 63900000030 * second),
      ([Response 200 (JArray [js1, js2])], [], 63900000060 * second)]
     (pollOnce svc_started world_started) = w'
   \<Longrightarrow> length (delegations w') = 2 \<and> m_PollingErrors w' = 1 \<and> m_ProcessedSuccess w' = 1"
proof -
  define wA where "wA = pollOnce svc_started world_started"
  define wB where "wB = pollOnce svc_started (tick_world [] [True] (63900000030 * second) wA)"
  define wC where "wC = pollOnce svc_started
      (tick_world [Response 200 (JArray [js1, js2])] [] (63900000060 * second) wB)"
  assume "fold (\<lambda>(net, faults, clock) w. pollOnce svc_started (tick_world net faults clock w))
     [([], [True], 63900000030 * second),
      ([Response 200 (JArray [js1, js2])], [], 63900000060 * second)]
     (pollOnce svc_started world_started) = w'"
  then have w': "w' = wC" by (simp add: wA_def wB_def wC_def)
  have a: "delegations wA = []" "uuid_next wA = 0" "uuid_gen wA n = ''uuid-'' @ digits n"
    "m_PollingErrors wA = 0" "m_ProcessedSuccess wA = 0" for n
    by (simp_all add: wA_def pollOnce_world_started log_add_def world_started_fields)
  have "wB = (log_add (LogError ''Failed to get last indexed level'')
       ((tick_world [] [True] (63900000030 * second) wA)\<lparr>db_faults := []\<rparr>))
         \<lparr>m_PollingErrors := Suc (m_PollingErrors (tick_world [] [True] (63900000030 * second) wA))\<rparr>"
    unfolding wB_def by (rule pollOnce_store_down) (simp add: tick_world_def)
  then have b: "delegations wB = []" "uuid_next wB = 0" "uuid_gen wB n = ''uuid-'' @ digits n"
    "m_PollingErrors wB = 1" "m_ProcessedSuccess wB = 0" for n
    by (simp_all add: log_add_def tick_world_def a)
  define wT where "wT = tick_world [Response 200 (JArray [js1, js2])] [] (63900000060 * second) wB"
  have t: "delegations wT = []" "db_faults wT = []" "http wT = [Response 200 (JArray [js1, js2])]"
    "uuid_next wT = 0" "uuid_gen wT n = ''uuid-'' @ digits n"
    "m_PollingErrors wT = 1" "m_ProcessedSuccess wT = 0" for n
    by (simp_all add: wT_def tick_world_def b)
  have "length (delegations (pollOnce svc_started wT)) = 2
      \<and> m_PollingErrors (pollOnce svc_started wT) = 1
      \<and> m_ProcessedSuccess (pollOnce svc_started wT) = 1"
    by (subst pollOnce_seed_two [where ?j1.0 = js1 and ?j2.0 = js2 and ?r1.0 = rs1 and ?r2.0 = rs2],
        simp_all add: t decode_js1 decode_js2 digits_0_1 rs1_def rs2_def)+
  then show ?thesis by (simp add: w' wC_def wT_def)
qed

text \<open>
  C7: the polling loop makes its first tick at once and then one tick for every firing of
  the ticker that it receives before \<^verbatim>\<open>stopPolling\<close> is closed, whatever the earlier
  ticks did: \<^verbatim>\<open>pollOnce\<close> returns nothing that could end the loop. A tick that does not
  record a successful save (its read of the store, its fetch or its save failed, or there
  was nothing to save) leaves the table as it was. \<^verbatim>\<open>StartPolling\<close>, called on a
  service that is not started and has a positive polling interval, returns no error, marks
  the service started, creates the ticker and starts the loop's goroutine; when the
  backfill failed, that is only written to the log.
\<close>

theorem tick_failure_does_not_stop_polling:
  "pollLoop (map (\<lambda>(net, faults, clock). Tick net faults clock) ticks @ Stop # rest) s w =
     fold (\<lambda>(net, faults, clock) w. pollOnce s (tick_world net faults clock w)) ticks (pollOnce s w)
   \<and> (m_ProcessedSuccess (pollOnce s w) = m_ProcessedSuccess w \<longrightarrow>
        delegations (pollOnce s w) = delegations w)
   \<and> (\<not> pollingStarted s \<and> 0 < PollingInterval s \<longrightarrow>
        (\<exists>s' w'. StartPolling s w = Some (None, s', w') \<and> pollingStarted s'
           \<and> pollingTicker s' = Some (PollingInterval s, True)
           \<and> goroutines w' \<noteq> [] \<and> last (goroutines w') = PollLoopTask
           \<and> (HistoricalIndexing s
                \<and> fst (indexHistorical (s\<lparr>pollingStarted := True\<rparr>)
                         (log_add (LogInfo ''Starting historical indexing...'') w)) \<noteq> None
               \<longrightarrow> LogError ''Historical indexing failed'' \<in> set (logs w'))))"
proof (intro conjI impI)
  show "pollLoop (map (\<lambda>(net, faults, clock). Tick net faults clock) ticks @ Stop # rest) s w =
     fold (\<lambda>(net, faults, clock) w. pollOnce s (tick_world net faults clock w)) ticks (pollOnce s w)"
    by (simp add: pollLoop_def pollLoop_select_ticks)
next
  assume "m_ProcessedSuccess (pollOnce s w) = m_ProcessedSuccess w"
  then show "delegations (pollOnce s w) = delegations w" by (rule pollOnce_failed_rows)
next
  assume a: "\<not> pollingStarted s \<and> 0 < PollingInterval s"
  define s1 where "s1 = s\<lparr>pollingStarted := True\<rparr>"
  define w0 where "w0 = log_add (LogInfo ''Starting historical indexing...'') w"
  obtain e w1 where i: "indexHistorical s1 w0 = (e, w1)" by force
  define wb where "wb = (if HistoricalIndexing s then
        (case e of Some err \<Rightarrow> log_add (LogError ''Historical indexing failed'') w1
         | None \<Rightarrow> log_add (LogInfo ''Historical indexing completed successfully'') w1)
      else w)"
  define s2 where "s2 = s1\<lparr>pollingTicker := Some (PollingInterval s, True)\<rparr>"
  define w2 where "w2 = log_add (LogInfo ''Polling started'') (wb\<lparr>goroutines := goroutines wb @ [PollLoopTask]\<rparr>)"
  have sp: "StartPolling s w = Some (None, s2, w2)"
    using a i by (simp add: StartPolling_def Let_def s1_def [symmetric] w0_def [symmetric]
        s2_def w2_def wb_def) (simp add: s1_def)
  have l: "HistoricalIndexing s \<and> fst (indexHistorical s1 w0) \<noteq> None
      \<longrightarrow> LogError ''Historical indexing failed'' \<in> set (logs w2)"
    using i by (auto simp: w2_def wb_def log_add_def)
  have "pollingStarted s2" "pollingTicker s2 = Some (PollingInterval s, True)"
    "goroutines w2 \<noteq> []" "last (goroutines w2) = PollLoopTask"
    by (simp_all add: s2_def s1_def w2_def log_add_def)
  with sp l show "\<exists>s' w'. StartPolling s w = Some (None, s', w') \<and> pollingStarted s'
           \<and> pollingTicker s' = Some (PollingInterval s, True)
           \<and> goroutines w' \<noteq> [] \<and> last (goroutines w') = PollLoopTask
           \<and> (HistoricalIndexing s
                \<and> fst (indexHistorical (s\<lparr>pollingStarted := True\<rparr>)
                         (log_add (LogInfo ''Starting historical indexing...'') w)) \<noteq> None
               \<longrightarrow> LogError ''Historical indexing failed'' \<in> set (logs w'))"
    unfolding s1_def w0_def by blast
qed

theorem tick_failure_does_not_stop_polling_witness:
  "StartPolling svc0 world_down = Some (None, svc_started, world_started)
   \<and> fst (indexHistorical (svc0\<lparr>pollingStarted := True\<rparr>)
            (log_add (LogInfo ''Starting historical indexing...'') world_down))
       = Some (CheckExistingFailed (QueryFailed ConnError))
   \<and> LogError ''Historical indexing failed'' \<in> set (logs world_started)
   \<and> goroutines world_started = [PollLoopTask]
   \<and> m_ProcessedSuccess (pollOnce svc_started world_started) = m_ProcessedSuccess world_started
   \<and> delegations (pollOnce svc_started world_started) = delegations world_started
   \<and> length (delegations (pollLoop
        [Tick [] [True] (63900000030 * second),
         Tick [Response 200 (JArray [js1, js2])] [] (63900000060 * second),
         Stop,
         Tick [] [] (63900000090 * second)] svc_started world_started)) = 2
   \<and> m_PollingErrors (pollLoop
        [Tick [] [True] (63900000030 * second),
         Tick [Response 200 (JArray [js1, js2])] [] (63900000060 * second),
         Stop,
         Tick [] [] (63900000090 * second)] svc_started world_started) = 1"
proof -
  have i: "fst (indexHistorical (svc0\<lparr>pollingStarted := True\<rparr>)
            (log_add (LogInfo ''Starting historical indexing...'') world_down))
       = Some (CheckExistingFailed (QueryFailed ConnError))"
    by (subst indexHistorical_store_down [where fs = "[]"])
      (simp_all add: world_down_def log_add_def)
  have h1: "\<not> pollingStarted svc0 \<and> 0 < PollingInterval svc0"
    by (simp add: svc0_fields second_def millisecond_def)
  have p: "m_ProcessedSuccess (pollOnce svc_started world_started) = m_ProcessedSuccess world_started"
    by (simp add: pollOnce_world_started log_add_def)
  note t1 = tick_failure_does_not_stop_polling [of "[]" "[]" svc0 world_down]
  note t2 = tick_failure_does_not_stop_polling
    [of "[([], [True], 63900000030 * second),
          ([Response 200 (JArray [js1, js2])], [], 63900000060 * second)]"
        "[Tick [] [] (63900000090 * second)]" svc_started world_started]
  from t1 h1 i have l: "LogError ''Historical indexing failed'' \<in> set (logs world_started)"
    by (simp add: StartPolling_world_down svc0_fields)
  from t1 h1 have sp: "StartPolling svc0 world_down = Some (None, svc_started, world_started)"
    by (simp add: StartPolling_world_down)
  from t2 p have d: "delegations (pollOnce svc_started world_started) = delegations world_started"
    by blast
  from t2 have f: "pollLoop
        [Tick [] [True] (63900000030 * second),
         Tick [Response 200 (JArray [js1, js2])] [] (63900000060 * second),
         Stop,
         Tick [] [] (63900000090 * second)] svc_started world_started =
      fold (\<lambda>(net, faults, clock) w. pollOnce svc_started (tick_world net faults clock w))
       [([], [True], 63900000030 * second),
        ([Response 200 (JArray [js1, js2])], [], 63900000060 * second)]
       (pollOnce svc_started world_started)"
    by simp
  have g: "goroutines world_started = [PollLoopTask]" by (simp add: world_started_fields)
  from three_ticks_world_started [OF f [symmetric]]
  have r: "length (delegations (pollLoop
        [Tick [] [True] (63900000030 * second),
         Tick [Response 200 (JArray [js1, js2])] [] (63900000060 * second),
         Stop,
         Tick [] [] (63900000090 * second)] svc_started world_started)) = 2"
    and e: "m_PollingErrors (pollLoop
        [Tick [] [True] (63900000030 * second),
         Tick [Response 200 (JArray [js1, js2])] [] (63900000060 * second),
         Stop,
         Tick [] [] (63900000090 * second)] svc_started world_started) = 1"
    by blast+
  show ?thesis
    by (intro conjI) (fact sp i l g p d r e)+
qed

section \<open>The backfill pipeline\<close>

lemma flush_sizes_append [simp]: "flush_sizes (xs @ ys) = flush_sizes xs @ flush_sizes ys"
  by (induction xs rule: flush_sizes.induct) simp_all

lemma final_sizes_append [simp]: "final_sizes (xs @ ys) = final_sizes xs @ final_sizes ys"
  by (induction xs rule: final_sizes.induct) simp_all

lemma produce_nonempty: "produce c sd bs off w = ((pages, perr), w') \<Longrightarrow> [] \<notin> set pages"
proof (induction c sd bs off w arbitrary: pages perr w' rule: produce.induct)
  case (1 c startDate batchSize offset w)
  show ?case
  proof (cases "http w = []")
    case True
    with "1.prems" show ?thesis by (simp add: produce.simps [of c startDate batchSize offset w])
  next
    case False
    let ?p = "\<lparr>qp_Limit = batchSize, qp_Offset = offset, qp_Level = None,
                qp_Timestamp = Some (no_timestamp_filter\<lparr>tf_Gte := Some startDate\<rparr>),
                qp_Sort = [''id.asc''], qp_Select = []\<rparr>"
    obtain r w1 where g: "GetDelegations c ?p w = (r, w1)" by force
    show ?thesis
    proof (cases r)
      case (Inl e)
      with False g "1.prems" show ?thesis
        by (simp add: produce.simps [of c startDate batchSize offset w])
    next
      case (Inr dels)
      show ?thesis
      proof (cases "length dels = 0")
        case True
        with False g Inr "1.prems" show ?thesis
          by (simp add: produce.simps [of c startDate batchSize offset w])
      next
        case ne: False
        obtain pages2 err2 w2 where
          r: "produce c startDate batchSize (offset + int (length dels)) w1 = ((pages2, err2), w2)"
          by (metis surj_pair)
        from "1.IH" [OF False g [symmetric] Inr ne r] have "[] \<notin> set pages2" .
        moreover from False g Inr ne r "1.prems" have "pages = dels # pages2"
          by (simp add: produce.simps [of c startDate batchSize offset w])
        ultimately show ?thesis using ne by auto
      qed
    qed
  qed
qed

lemma produce_pages:
  assumes "list_all2 (\<lambda>b p. unmarshal_delegations b = Some p \<and> p \<noteq> []) bodies ps"
    and "unmarshal_delegations final = Some []"
    and "http w = map (Response 200) bodies @ Response 200 final # rest"
  shows "\<exists>reqs. produce c sd bs off w =
           ((ps, None), w\<lparr>http := rest, requests := requests w @ reqs\<rparr>)
         \<and> length reqs = Suc (length ps)"
  using assms
proof (induction bodies ps arbitrary: off w rule: list_all2_induct)
  case Nil
  let ?p = "\<lparr>qp_Limit = bs, qp_Offset = off, qp_Level = None,
              qp_Timestamp = Some (no_timestamp_filter\<lparr>tf_Gte := Some sd\<rparr>),
              qp_Sort = [''id.asc''], qp_Select = []\<rparr>"
  from Nil have h: "http w = Response 200 final # rest" by simp
  have "produce c sd bs off w =
      (([], None), w\<lparr>http := rest, requests := requests w @ [delegations_request c ?p]\<rparr>)"
    using h by (simp add: produce.simps [of c sd bs off w]
        GetDelegations_ok [OF h Nil(1)] delegations_request_def)
  then show ?case by (intro exI [of _ "[delegations_request c ?p]"]) simp
next
  case (Cons b bodies p ps)
  let ?p = "\<lparr>qp_Limit = bs, qp_Offset = off, qp_Level = None,
              qp_Timestamp = Some (no_timestamp_filter\<lparr>tf_Gte := Some sd\<rparr>),
              qp_Sort = [''id.asc''], qp_Select = []\<rparr>"
  let ?w1 = "w\<lparr>http := map (Response 200) bodies @ Response 200 final # rest,
               requests := requests w @ [delegations_request c ?p]\<rparr>"
  from Cons.prems have h: "http w = Response 200 b # (map (Response 200) bodies @ Response 200 final # rest)"
    by simp
  from Cons.hyps have u: "unmarshal_delegations b = Some p" and ne: "p \<noteq> []" by simp_all
  have g: "GetDelegations c ?p w = (Inr p, ?w1)"
    by (simp add: GetDelegations_ok [OF h u] delegations_request_def)
  from Cons.IH [OF Cons.prems(1), of ?w1 "off + int (length p)"] obtain reqs where
    r: "produce c sd bs (off + int (length p)) ?w1 =
         ((ps, None), ?w1\<lparr>http := rest, requests := requests ?w1 @ reqs\<rparr>)"
    and l: "length reqs = Suc (length ps)" by auto
  have "produce c sd bs off w =
      ((p # ps, None), w\<lparr>http := rest, requests := requests w @ (delegations_request c ?p # reqs)\<rparr>)"
    using h ne by (simp add: produce.simps [of c sd bs off w] g r)
  with l show ?case by (intro exI [of _ "delegations_request c ?p # reqs"]) simp
qed

lemma convert_length_logs:
  "convertToDomainDelegations dels w = (ds, w1) \<Longrightarrow>
   length ds = applied_count dels \<and> logs w1 = logs w"
proof (induction dels arbitrary: w ds w1)
  case Nil
  then show ?case by (simp add: applied_count_def)
next
  case (Cons d dels)
  show ?case
  proof (cases "Status d = ''applied''")
    case False
    with Cons.prems Cons.IH [of w ds w1] show ?thesis by (simp add: applied_count_def)
  next
    case True
    obtain u wa where n: "uuid_New w = (u, wa)" by force
    then have la: "logs wa = logs w" by (auto simp: uuid_New_def)
    obtain ds2 w2 where r: "convertToDomainDelegations dels wa = (ds2, w2)" by force
    from Cons.IH [OF r] la have "length ds2 = applied_count dels" "logs w2 = logs w" by simp_all
    moreover from Cons.prems True n r have "length ds = Suc (length ds2)" "w1 = w2" by auto
    ultimately show ?thesis using True by (simp add: applied_count_def)
  qed
qed

lemma SaveBatch_logs:
  assumes "SaveBatch ds w = (None, w')" and "ds \<noteq> []"
  shows "\<exists>s d. logs w' = logs w @ [LogSavedBatch (length ds) s d]"
proof -
  obtain f w1 where c: "db_call w = (f, w1)" by force
  then have l1: "logs w1 = logs w" by (auto simp: db_call_def split: list.splits)
  obtain q w2 where qb: "queue_batch ds w1 = (q, w2)" by force
  from queue_batch_filled [OF qb] have l2: "logs w2 = logs w1" by auto
  from assms c qb l1 l2 show ?thesis
    by (auto simp: SaveBatch_def log_add_def split: if_splits sum.splits prod.splits)
qed

lemma consume_flushes:
  "consume pages None k buf n w = ((None, n'), w') \<Longrightarrow>
   flush_sizes (logs w') =
     flush_sizes (logs w) @ spec_flushes (length buf) (map applied_count pages)
   \<and> final_sizes (logs w') =
       final_sizes (logs w) @
         (if spec_remainder (length buf) (map applied_count pages) > 0
          then [spec_remainder (length buf) (map applied_count pages)] else [])
   \<and> m_DelegationsStored w' =
       m_DelegationsStored w + sum_list (spec_flushes (length buf) (map applied_count pages))
   \<and> n' = n + sum_list (map length pages)"
proof (induction pages arbitrary: k buf n w)
  case Nil
  show ?case
  proof (cases "buf = []")
    case True
    with Nil show ?thesis by simp
  next
    case False
    obtain r w1 where sb: "SaveBatch buf w = (r, w1)" by force
    with Nil False have r: "r = None" by (auto split: option.splits)
    from SaveBatch_logs [OF sb [unfolded r] False] obtain s d where
      l: "logs w1 = logs w @ [LogSavedBatch (length buf) s d]" by blast
    from SaveBatch_net [OF sb] have m: "m_DelegationsStored w1 = m_DelegationsStored w"
      by (simp add: net_frame_def)
    from Nil False sb r l m show ?thesis by (auto simp: log_add_def)
  qed
next
  case (Cons dels rest)
  obtain ds w1 where c: "convertToDomainDelegations dels w = (ds, w1)" by force
  from convert_length_logs [OF c] have len: "length ds = applied_count dels"
    and l1: "logs w1 = logs w" by simp_all
  from convert_net [OF c] have m1: "m_DelegationsStored w1 = m_DelegationsStored w"
    by (simp add: net_frame_def)
  show ?case
  proof (cases "length (buf @ ds) \<ge> 1000")
    case False
    with Cons.prems c have "consume rest None (k - 1) (buf @ ds) (n + length dels) w1 = ((None, n'), w')"
      by simp
    from Cons.IH [OF this] False len l1 m1 show ?thesis by (simp add: add.assoc)
  next
    case True
    then have ne: "buf @ ds \<noteq> []" by auto
    obtain r w2 where sb: "SaveBatch (buf @ ds) w1 = (r, w2)" by force
    with Cons.prems c True have r: "r = None" by (auto simp: Let_def split: option.splits)
    from SaveBatch_logs [OF sb [unfolded r] ne] obtain s d where
      l2: "logs w2 = logs w1 @ [LogSavedBatch (length (buf @ ds)) s d]" by blast
    from SaveBatch_net [OF sb] have m2: "m_DelegationsStored w2 = m_DelegationsStored w1"
      by (simp add: net_frame_def)
    let ?w3 = "(log_add (LogProgress (n + length dels)) w2)
                 \<lparr>m_DelegationsStored := m_DelegationsStored w2 + length (buf @ ds),
                  m_ProcessedSuccess := Suc (m_ProcessedSuccess w2)\<rparr>"
    from Cons.prems c True sb r
    have "consume rest None (k - 1) [] (n + length dels) ?w3 = ((None, n'), w')"
      by (simp add: Let_def)
    from Cons.IH [OF this] True len l1 l2 m1 m2 show ?thesis
      by (simp add: log_add_def add.assoc)
  qed
qed

lemma convert_from_simps [simp]:
  "convert_from g t u [] = []"
  "convert_from g t u (d # dels) = convert_one d (g u) t # convert_from g t (Suc u) dels"
  by (simp_all add: convert_from_def)

lemma convert_from_append:
  "convert_from g t u (xs @ ys) = convert_from g t u xs @ convert_from g t (u + length xs) ys"
  by (induction xs arbitrary: u) simp_all

lemma convert_from_length [simp]: "length (convert_from g t u dels) = length dels"
  by (simp add: convert_from_def)

lemma convert_from_ids: "map ID (convert_from g t u dels) = map g [u..<u + length dels]"
proof (induction dels arbitrary: u)
  case Nil
  then show ?case by simp
next
  case (Cons d dels)
  have "[u..<u + length (d # dels)] = u # [Suc u..<Suc u + length dels]"
    by (simp add: upt_rec)
  with Cons [of "Suc u"] show ?case by (simp add: convert_one_def)
qed

lemma convert_from_hashes: "map OperationHash (convert_from g t u dels) = map Hash dels"
  by (induction dels arbitrary: u) (simp_all add: convert_one_def)

lemma convert_from_created: "d \<in> set (convert_from g t u dels) \<Longrightarrow> CreatedAt d = t"
  by (induction dels arbitrary: u) (auto simp: convert_one_def)

lemma convert_applied:
  "\<forall>d \<in> set dels. Status d = ''applied'' \<Longrightarrow>
   convertToDomainDelegations dels w =
     (convert_from (uuid_gen w) (now w) (uuid_next w) dels,
      w\<lparr>uuid_next := uuid_next w + length dels\<rparr>)"
proof (induction dels arbitrary: w)
  case Nil
  then show ?case by simp
next
  case (Cons d dels)
  let ?w1 = "w\<lparr>uuid_next := Suc (uuid_next w)\<rparr>"
  from Cons.prems have "\<forall>d \<in> set dels. Status d = ''applied''" by simp
  from Cons.IH [OF this, of ?w1] Cons.prems show ?case
    by (simp add: uuid_New_def convert_one_def)
qed

lemma exec_batch_new_rows:
  assumes "\<not> tx_aborted t" and "distinct (map ID fs)"
    and "set (map ID fs) \<inter> set (map ID (tx_rows t)) = {}"
    and "distinct (map OperationHash fs)"
    and "set (map OperationHash fs) \<inter> set (map OperationHash (tx_rows t)) = {}"
  shows "exec_batch (map to_args fs) i s d t = Inr (s + length fs, d, t\<lparr>tx_rows := tx_rows t @ fs\<rparr>)"
  using assms
proof (induction fs arbitrary: i s t)
  case Nil
  then show ?case by simp
next
  case (Cons f fs)
  from Cons.prems have u: "upsert_row f (tx_rows t) = Inr (tx_rows t @ [f])"
    by (auto simp: upsert_row_def)
  let ?t1 = "t\<lparr>tx_rows := tx_rows t @ [f]\<rparr>"
  have step: "exec_batch (map to_args (f # fs)) i s d t =
      exec_batch (map to_args fs) (Suc i) (Suc s) d ?t1"
    using Cons.prems(1) u by (simp add: tx_exec_to_args)
  have "exec_batch (map to_args fs) (Suc i) (Suc s) d ?t1 =
      Inr (Suc s + length fs, d, ?t1\<lparr>tx_rows := tx_rows ?t1 @ fs\<rparr>)"
    by (rule Cons.IH) (use Cons.prems in auto)
  with step show ?case by simp
qed

lemma queue_batch_filled_in:
  "\<forall>d \<in> set ds. ID d \<noteq> [] \<and> CreatedAt d \<noteq> 0 \<Longrightarrow> queue_batch ds w = (map to_args ds, w)"
  by (induction ds) (simp_all add: fill_defaults_def to_args_def)

lemma SaveBatch_new_rows:
  assumes "db_faults w = []" and "ds \<noteq> []"
    and "\<forall>d \<in> set ds. ID d \<noteq> [] \<and> CreatedAt d \<noteq> 0"
    and "distinct (map ID ds)"
    and "set (map ID ds) \<inter> set (map ID (delegations w)) = {}"
    and "distinct (map OperationHash ds)"
    and "set (map OperationHash ds) \<inter> set (map OperationHash (delegations w)) = {}"
  shows "SaveBatch ds w =
     (None, w\<lparr>delegations := delegations w @ ds,
              logs := logs w @ [LogSavedBatch (length ds) (length ds) 0]\<rparr>)"
proof -
  have e: "exec_batch (map to_args ds) 0 0 0 \<lparr>tx_rows = delegations w, tx_aborted = False\<rparr> =
      Inr (0 + length ds, 0, \<lparr>tx_rows = delegations w, tx_aborted = False\<rparr>
             \<lparr>tx_rows := tx_rows \<lparr>tx_rows = delegations w, tx_aborted = False\<rparr> @ ds\<rparr>)"
    by (rule exec_batch_new_rows) (use assms in simp_all)
  show ?thesis
    using assms(1,2) e
    by (simp add: SaveBatch_def db_call_healthy queue_batch_filled_in [OF assms(3)] log_add_def)
qed

lemma inj_map_upt_disjoint:
  "inj g \<Longrightarrow> a \<le> b \<Longrightarrow> set (map g [b..<c]) \<inter> set (map g [a..<b]) = {}"
  by (auto dest: injD)

lemma consume_three_pages:
  assumes h: "db_faults w = []" "delegations w = []" "now w \<noteq> 0"
    and g: "inj (uuid_gen w)" "\<forall>n. uuid_gen w n \<noteq> []"
    and len: "length P0 = 500" "length P1 = 500" "length P2 = 500"
    and ap: "\<forall>d \<in> set (P0 @ P1 @ P2). Status d = ''applied''"
    and dh: "distinct (map Hash (P0 @ P1 @ P2))"
  shows "consume [P0, P1, P2] None k [] 0 w =
     ((None, 1500),
      w\<lparr>delegations := convert_from (uuid_gen w) (now w) (uuid_next w) (P0 @ P1 @ P2),
        uuid_next := uuid_next w + 1500,
        logs := logs w @ [LogSavedBatch 1000 1000 0, LogProgress 1000,
                          LogSavedBatch 500 500 0, LogFinalBatch 500],
        m_DelegationsStored := m_DelegationsStored w + 1500,
        m_ProcessedSuccess := Suc (Suc (m_ProcessedSuccess w))\<rparr>)"
proof -
  let ?g = "uuid_gen w" and ?t = "now w" and ?u = "uuid_next w"
  define B0 where "B0 = convert_from ?g ?t ?u P0"
  define B1 where "B1 = convert_from ?g ?t (?u + 500) P1"
  define B2 where "B2 = convert_from ?g ?t (?u + 1000) P2"
  have lB: "length B0 = 500" "length B1 = 500" "length B2 = 500"
    by (simp_all add: B0_def B1_def B2_def len)
  have B01: "B0 @ B1 = convert_from ?g ?t ?u (P0 @ P1)"
    by (simp add: convert_from_append B0_def B1_def len)
  have B012: "B0 @ B1 @ B2 = convert_from ?g ?t ?u (P0 @ P1 @ P2)"
    by (simp add: convert_from_append B0_def B1_def B2_def len add.assoc)
  have a0: "\<forall>d \<in> set P0. Status d = ''applied''" and a1: "\<forall>d \<in> set P1. Status d = ''applied''"
    and a2: "\<forall>d \<in> set P2. Status d = ''applied''" using ap by auto
  have c0: "convertToDomainDelegations P0 w = (B0, w\<lparr>uuid_next := ?u + 500\<rparr>)"
    by (simp add: convert_applied [OF a0] B0_def len)
  have c1: "convertToDomainDelegations P1 (w\<lparr>uuid_next := ?u + 500\<rparr>) =
      (B1, w\<lparr>uuid_next := ?u + 1000\<rparr>)"
    by (subst convert_applied [OF a1]) (simp add: B1_def len)
  have ids01: "map ID (B0 @ B1) = map ?g [?u..<?u + 1000]"
    unfolding B01 by (simp add: convert_from_ids len)
  have ids2: "map ID B2 = map ?g [?u + 1000..<?u + 1000 + 500]"
    unfolding B2_def by (simp add: convert_from_ids len)
  have ok: "\<forall>d \<in> set (B0 @ B1 @ B2). ID d \<noteq> [] \<and> CreatedAt d \<noteq> 0"
  proof
    fix d assume d: "d \<in> set (B0 @ B1 @ B2)"
    then have "CreatedAt d = ?t" unfolding B012 by (rule convert_from_created)
    moreover from d have "ID d \<in> set (map ID (B0 @ B1 @ B2))" by (metis imageI set_map)
    then have "ID d \<in> range ?g" unfolding B012 convert_from_ids by auto
    then obtain x where "ID d = ?g x" by auto
    with g(2) have "ID d \<noteq> []" by simp
    ultimately show "ID d \<noteq> [] \<and> CreatedAt d \<noteq> 0" using h(3) by simp
  qed
  have di: "distinct (map ?g [a..<b])" for a b
    using g(1) by (simp add: distinct_map inj_on_def inj_def)
  have hs: "map OperationHash (B0 @ B1) = map Hash (P0 @ P1)" "map OperationHash B2 = map Hash P2"
    unfolding B01 by (simp_all add: convert_from_hashes B2_def)
  let ?w2 = "w\<lparr>uuid_next := ?u + 1000\<rparr>"
  have s1: "SaveBatch (B0 @ B1) ?w2 =
      (None, ?w2\<lparr>delegations := delegations ?w2 @ (B0 @ B1),
                  logs := logs ?w2 @ [LogSavedBatch (length (B0 @ B1)) (length (B0 @ B1)) 0]\<rparr>)"
  proof (rule SaveBatch_new_rows)
    show "db_faults ?w2 = []" using h by simp
    show "B0 @ B1 \<noteq> []" using lB by auto
    show "\<forall>d \<in> set (B0 @ B1). ID d \<noteq> [] \<and> CreatedAt d \<noteq> 0" using ok by auto
    show "distinct (map ID (B0 @ B1))" unfolding ids01 by (rule di)
    show "set (map ID (B0 @ B1)) \<inter> set (map ID (delegations ?w2)) = {}" using h by simp
    show "distinct (map OperationHash (B0 @ B1))" unfolding hs using dh by auto
    show "set (map OperationHash (B0 @ B1)) \<inter> set (map OperationHash (delegations ?w2)) = {}"
      using h by simp
  qed
  let ?w3 = "w\<lparr>uuid_next := ?u + 1000, delegations := B0 @ B1,
               logs := logs w @ [LogSavedBatch 1000 1000 0, LogProgress 1000],
               m_DelegationsStored := m_DelegationsStored w + 1000,
               m_ProcessedSuccess := Suc (m_ProcessedSuccess w)\<rparr>"
  let ?w4 = "?w3\<lparr>uuid_next := ?u + 1500\<rparr>"
  have c2: "convertToDomainDelegations P2 ?w3 = (B2, ?w4)"
    by (subst convert_applied [OF a2]) (simp add: B2_def len)
  have s2: "SaveBatch B2 ?w4 =
      (None, ?w4\<lparr>delegations := delegations ?w4 @ B2,
                  logs := logs ?w4 @ [LogSavedBatch (length B2) (length B2) 0]\<rparr>)"
  proof (rule SaveBatch_new_rows)
    show "db_faults ?w4 = []" using h by simp
    show "B2 \<noteq> []" using lB by auto
    show "\<forall>d \<in> set B2. ID d \<noteq> [] \<and> CreatedAt d \<noteq> 0" using ok by auto
    show "distinct (map ID B2)" unfolding ids2 by (rule di)
    have "set (map ID B2) \<inter> set (map ID (B0 @ B1)) = {}"
      unfolding ids01 ids2 by (rule inj_map_upt_disjoint [OF g(1)]) simp
    then show "set (map ID B2) \<inter> set (map ID (delegations ?w4)) = {}" by simp
    show "distinct (map OperationHash B2)" unfolding hs using dh by auto
    have "set (map OperationHash B2) \<inter> set (map OperationHash (B0 @ B1)) = {}"
      unfolding hs using dh by auto
    then show "set (map OperationHash B2) \<inter> set (map OperationHash (delegations ?w4)) = {}"
      by simp
  qed
  have e1: "consume [P0, P1, P2] None k [] 0 w =
      consume [P1, P2] None (k - 1) B0 500 (w\<lparr>uuid_next := ?u + 500\<rparr>)"
    by (simp add: c0 lB len)
  have e2: "consume [P1, P2] None k' B0 500 (w\<lparr>uuid_next := ?u + 500\<rparr>) =
      consume [P2] None (k' - 1) [] 1000 ?w3" for k'
    by (simp add: c1 s1 lB len h log_add_def)
  have e3: "consume [P2] None k' [] 1000 ?w3 = consume [] None (k' - 1) B2 1500 ?w4" for k'
    by (simp add: c2 lB len del: convertToDomainDelegations.simps)
  have e4: "consume [] None k' B2 1500 ?w4 =
      ((None, 1500),
       w\<lparr>delegations := B0 @ B1 @ B2,
         uuid_next := ?u + 1500,
         logs := logs w @ [LogSavedBatch 1000 1000 0, LogProgress 1000,
                           LogSavedBatch 500 500 0, LogFinalBatch 500],
         m_DelegationsStored := m_DelegationsStored w + 1500,
         m_ProcessedSuccess := Suc (Suc (m_ProcessedSuccess w))\<rparr>)" for k'
    by (simp add: s2 [simplified] lB log_add_def)
  show ?thesis by (simp only: e1 e2 e3 e4 B012)
qed

lemma decode_js_n: "n < 2 ^ 62 \<Longrightarrow> decode_delegation (js_n n) = Some (rs_n n)"
  by (simp add: decode_delegation_def js_n_def rs_n_def in_int64_def)

lemma those_map_Some: "\<forall>x \<in> set xs. f x = Some (g x) \<Longrightarrow> those (map f xs) = Some (map g xs)"
  by (induction xs) simp_all

lemma unmarshal_json_page:
  "a + n \<le> 2 ^ 62 \<Longrightarrow> unmarshal_delegations (json_page a n) = Some (page a n)"
  by (simp add: unmarshal_delegations_def json_page_def page_def those_map_Some decode_js_n)

lemma page_length [simp]: "length (page a n) = n"
  by (simp add: page_def)

lemma page_applied: "\<forall>d \<in> set (page a n). Status d = ''applied''"
  by (simp add: page_def rs_n_def)

lemma page_append: "page a n @ page (a + n) m = page a (n + m)"
proof -
  have "[a..<a + (n + m)] = [a..<a + n] @ [a + n..<a + n + m]"
    using upt_add_eq_append [of a "a + n" m] by (simp only: add.assoc le_add1)
  then show ?thesis by (simp only: page_def map_append)
qed

lemma inj_digits: "inj digits"
proof (rule injI)
  fix m n assume "digits m = digits n"
  then have "parse_digits (digits m) 0 = parse_digits (digits n) 0" by simp
  then show "m = n" by (simp add: parse_digits_digits)
qed

lemma page_hashes_distinct: "distinct (map Hash (page a n))"
proof -
  have "map Hash (page a n) = map (\<lambda>i. ''op'' @ digits i) [a..<a + n]"
    by (simp add: page_def rs_n_def)
  moreover have "inj (\<lambda>i. ''op'' @ digits i)"
    using inj_digits by (auto simp: inj_def)
  ultimately show ?thesis by (simp add: distinct_map inj_on_def inj_def)
qed

lemma three_pages: "page 0 500 @ page 500 500 @ page 1000 500 = page 0 1500"
  using page_append [of 0 500 1000] page_append [of 500 500 500] by simp

lemma verify_keeps:
  "verifySyncCompleteness s sd w = (r, w') \<Longrightarrow>
   delegations w' = delegations w \<and> flush_sizes (logs w') = flush_sizes (logs w)
   \<and> final_sizes (logs w') = final_sizes (logs w)
   \<and> m_DelegationsStored w' = m_DelegationsStored w \<and> goroutines w' = goroutines w"
  by (auto simp: verifySyncCompleteness_def FindAll_def db_call_def log_add_def Let_def
      split: list.splits http_outcome.splits json_body.splits if_splits prod.splits sum.splits)

lemma backfill_from_pipeline:
  assumes "1 * hour \<le> now w - sd"
    and "GetHistoricalDelegations (tzktClient s) sd 500 w = ((pages, perr), w3)"
    and "consume pages perr (sched w3) [] 0 w3 = ((None, n), w4)"
  shows "fst (backfill_from s sd w) = None
     \<and> delegations (snd (backfill_from s sd w)) = delegations w4
     \<and> flush_sizes (logs (snd (backfill_from s sd w))) = flush_sizes (logs w4)
     \<and> final_sizes (logs (snd (backfill_from s sd w))) = final_sizes (logs w4)
     \<and> m_DelegationsStored (snd (backfill_from s sd w)) = m_DelegationsStored w4
     \<and> goroutines (snd (backfill_from s sd w)) =
         goroutines w4 @ (if n > 0 then [BackupTask] else [])"
proof -
  let ?w5 = "log_add (LogInfo ''Historical indexing completed'') w4"
  obtain verr w6 where v: "verifySyncCompleteness s sd ?w5 = (verr, w6)" by force
  from verify_keeps [OF v] have k: "delegations w6 = delegations w4"
    "flush_sizes (logs w6) = flush_sizes (logs w4)" "final_sizes (logs w6) = final_sizes (logs w4)"
    "m_DelegationsStored w6 = m_DelegationsStored w4" "goroutines w6 = goroutines w4"
    by (simp_all add: log_add_def)
  from assms v k show ?thesis
    by (auto simp: backfill_from_def Let_def createBackup_def log_add_def split: option.splits)
qed

lemma indexHistorical_fresh:
  "delegations w = [] \<Longrightarrow> db_faults w = [] \<Longrightarrow> HistoricalStartDate s = Some sd \<Longrightarrow>
   indexHistorical s w =
     backfill_from s sd (log_add (LogInfo ''Starting fresh historical indexing'') w)"
  by (simp add: indexHistorical_def FindAll_healthy resume_point_def)

lemma applied_count_page [simp]: "applied_count (page a n) = n"
  using page_applied [of a n] by (simp add: applied_count_def)

lemma world_backfill_fields:
  "delegations world_backfill = []" "db_faults world_backfill = []"
  "now world_backfill = 63900000000 * second"
  "uuid_gen world_backfill = (\<lambda>n. ''uuid-'' @ digits n)" "uuid_next world_backfill = 0"
  "logs world_backfill = []" "m_DelegationsStored world_backfill = 0"
  "sched world_backfill = 0" "goroutines world_backfill = []" "requests world_backfill = []"
  "http world_backfill =
     map (Response 200) [json_page 0 500, json_page 500 500, json_page 1000 500]
       @ Response 200 (JArray []) # [Response 200 (JNumber 1500)]"
  by (simp_all add: world_backfill_def world0_def)

lemma three_pages_script:
  "list_all2 (\<lambda>b p. unmarshal_delegations b = Some p \<and> p \<noteq> [])
     [json_page 0 500, json_page 500 500, json_page 1000 500]
     [page 0 500, page 500 500, page 1000 500]"
proof -
  have "page a 500 \<noteq> []" for a
    using page_length [of a 500] by (metis length_0_conv zero_neq_numeral)
  then show ?thesis by (simp add: unmarshal_json_page)
qed

lemma consume_world_backfill:
  assumes "w3 = (log_add (LogInfo ''Starting fresh historical indexing'') world_backfill)
                  \<lparr>http := rest, requests := reqs\<rparr>"
  shows "\<exists>w4. consume [page 0 500, page 500 500, page 1000 500] None k [] 0 w3 = ((None, 1500), w4)
           \<and> length (delegations w4) = 1500"
proof -
  have f: "db_faults w3 = []" "delegations w3 = []" "now w3 \<noteq> 0"
    "\<forall>n. uuid_gen w3 n \<noteq> []"
    by (simp_all add: assms log_add_def world_backfill_fields second_def millisecond_def)
  have "inj (\<lambda>n. ''uuid-'' @ digits n)" using inj_digits by (auto simp: inj_def)
  then have i: "inj (uuid_gen w3)" by (simp add: assms log_add_def world_backfill_fields)
  have a: "\<forall>d \<in> set (page 0 500 @ page 500 500 @ page 1000 500). Status d = ''applied''"
    unfolding three_pages by (rule page_applied)
  have d: "distinct (map Hash (page 0 500 @ page 500 500 @ page 1000 500))"
    unfolding three_pages by (rule page_hashes_distinct)
  note c = consume_three_pages [OF f(1,2,3) i f(4) page_length page_length page_length a d, of k]
  show ?thesis
    by (subst c, rule exI, rule conjI, rule refl) (simp add: three_pages)
qed

text \<open>
  C5: \<^verbatim>\<open>GetHistoricalDelegations\<close> sends only non-empty pages. When the source answers
  with non-empty pages and then an empty one, the producer sends exactly those pages, in
  order, reports no error and makes no request after the one that was answered with the
  empty page. A consumer that is given pages by a producer that ended without error, and
  that returns no error itself, has called \<^verbatim>\<open>SaveBatch\<close> exactly as the rule of the
  specification says (\<open>spec_flushes\<close>: a flush of the whole buffer each time it holds at
  least 1000 events after a page was added, and one flush of what is left, if anything,
  when the channel is closed); the flush at the close is the only one logged as final, and
  the counter of stored events grows by the sizes of the flushes. It has counted every
  event of every page as processed.
\<close>

theorem backfill_producer_and_flush_rule:
  "(GetHistoricalDelegations c sd bs w = ((pages, perr), w') \<longrightarrow> [] \<notin> set pages)
   \<and> (list_all2 (\<lambda>b p. unmarshal_delegations b = Some p \<and> p \<noteq> []) bodies ps
        \<and> http w = map (Response 200) bodies @ Response 200 (JArray []) # rest
       \<longrightarrow> fst (GetHistoricalDelegations c sd bs w) = (ps, None)
           \<and> http (snd (GetHistoricalDelegations c sd bs w)) = rest
           \<and> length (requests (snd (GetHistoricalDelegations c sd bs w))) =
               length (requests w) + length ps + 1)
   \<and> (consume pgs None k buf n wc = ((None, n'), wc') \<longrightarrow>
         flush_sizes (logs wc') =
           flush_sizes (logs wc) @ spec_flushes (length buf) (map applied_count pgs)
         \<and> final_sizes (logs wc') =
             final_sizes (logs wc) @
               (if spec_remainder (length buf) (map applied_count pgs) > 0
                then [spec_remainder (length buf) (map applied_count pgs)] else [])
         \<and> m_DelegationsStored wc' =
             m_DelegationsStored wc + sum_list (spec_flushes (length buf) (map applied_count pgs))
         \<and> n' = n + sum_list (map length pgs))"
proof (intro conjI impI)
  assume "GetHistoricalDelegations c sd bs w = ((pages, perr), w')"
  then show "[] \<notin> set pages"
    unfolding GetHistoricalDelegations_def by (rule produce_nonempty)
next
  assume a: "list_all2 (\<lambda>b p. unmarshal_delegations b = Some p \<and> p \<noteq> []) bodies ps
        \<and> http w = map (Response 200) bodies @ Response 200 (JArray []) # rest"
  have u: "unmarshal_delegations (JArray []) = Some []"
    by (simp add: unmarshal_delegations_def)
  from produce_pages [OF conjunct1 [OF a] u conjunct2 [OF a], of c sd bs 0]
  obtain reqs where r: "GetHistoricalDelegations c sd bs w =
      ((ps, None), w\<lparr>http := rest, requests := requests w @ reqs\<rparr>)"
    and l: "length reqs = Suc (length ps)"
    unfolding GetHistoricalDelegations_def by blast
  from r show "fst (GetHistoricalDelegations c sd bs w) = (ps, None)" by simp
  from r show "http (snd (GetHistoricalDelegations c sd bs w)) = rest" by simp
  from r l show "length (requests (snd (GetHistoricalDelegations c sd bs w))) =
      length (requests w) + length ps + 1" by simp
next
  assume c: "consume pgs None k buf n wc = ((None, n'), wc')"
  from consume_flushes [OF c]
  show "flush_sizes (logs wc') =
      flush_sizes (logs wc) @ spec_flushes (length buf) (map applied_count pgs)"
    and "final_sizes (logs wc') =
      final_sizes (logs wc) @
        (if spec_remainder (length buf) (map applied_count pgs) > 0
         then [spec_remainder (length buf) (map applied_count pgs)] else [])"
    and "m_DelegationsStored wc' =
      m_DelegationsStored wc + sum_list (spec_flushes (length buf) (map applied_count pgs))"
    and "n' = n + sum_list (map length pgs)"
    by blast+
qed

theorem backfill_producer_and_flush_rule_witness:
  "fst (GetHistoricalDelegations client0 (63800000000 * second) 500
          (log_add (LogInfo ''Starting fresh historical indexing'') world_backfill)) =
     ([page 0 500, page 500 500, page 1000 500], None)
   \<and> http (snd (GetHistoricalDelegations client0 (63800000000 * second) 500
          (log_add (LogInfo ''Starting fresh historical indexing'') world_backfill))) =
       [Response 200 (JNumber 1500)]
   \<and> length (requests (snd (GetHistoricalDelegations client0 (63800000000 * second) 500
          (log_add (LogInfo ''Starting fresh historical indexing'') world_backfill)))) = 4
   \<and> spec_flushes 0 [500, 500, 500] = [1000, 500]
   \<and> fst (indexHistorical svc0 world_backfill) = None
   \<and> flush_sizes (logs (snd (indexHistorical svc0 world_backfill))) = [1000, 500]
   \<and> final_sizes (logs (snd (indexHistorical svc0 world_backfill))) = [500]
   \<and> m_DelegationsStored (snd (indexHistorical svc0 world_backfill)) = 1500
   \<and> length (delegations (snd (indexHistorical svc0 world_backfill))) = 1500"
proof -
  define sd where "sd = 63800000000 * second"
  define wA where "wA = log_add (LogInfo ''Starting fresh historical indexing'') world_backfill"
  let ?bodies = "[json_page 0 500, json_page 500 500, json_page 1000 500]"
  let ?ps = "[page 0 500, page 500 500, page 1000 500]"
  let ?G = "GetHistoricalDelegations client0 sd 500 wA"
  have hA: "http wA = map (Response 200) ?bodies @ Response 200 (JArray []) # [Response 200 (JNumber 1500)]"
    unfolding wA_def log_add_def by (simp add: world_backfill_fields(11))
  have lA: "flush_sizes (logs wA) = []" "final_sizes (logs wA) = []" "m_DelegationsStored wA = 0"
    "requests wA = []" "sched wA = 0"
    by (simp_all add: wA_def log_add_def world_backfill_fields)
  have u: "unmarshal_delegations (JArray []) = Some []"
    by (simp add: unmarshal_delegations_def)
  from produce_pages [OF three_pages_script u hA, of client0 sd 500 0]
  obtain reqs where G: "?G = ((?ps, None), wA\<lparr>http := [Response 200 (JNumber 1500)],
                                              requests := requests wA @ reqs\<rparr>)"
    unfolding GetHistoricalDelegations_def by blast
  define w3 where "w3 = wA\<lparr>http := [Response 200 (JNumber 1500)], requests := requests wA @ reqs\<rparr>"
  have w3: "w3 = (log_add (LogInfo ''Starting fresh historical indexing'') world_backfill)
                  \<lparr>http := [Response 200 (JNumber 1500)], requests := requests wA @ reqs\<rparr>"
    by (simp add: w3_def wA_def)
  from consume_world_backfill [OF w3, of "sched w3"] obtain w4 where
    C: "consume ?ps None (sched w3) [] 0 w3 = ((None, 1500), w4)"
    and len: "length (delegations w4) = 1500" by blast
  have l3: "flush_sizes (logs w3) = []" "final_sizes (logs w3) = []" "m_DelegationsStored w3 = 0"
    by (simp_all add: w3_def lA)
  note t1 = backfill_producer_and_flush_rule
    [where c = client0 and sd = sd and bs = 500 and w = wA and bodies = ?bodies and ps = ?ps
       and rest = "[Response 200 (JNumber 1500)]" and pgs = ?ps and k = "sched w3"
       and buf = "[]" and n = 0 and wc = w3 and n' = 1500 and wc' = w4]
  from t1 three_pages_script hA have g1: "fst ?G = (?ps, None)"
    and g2: "http (snd ?G) = [Response 200 (JNumber 1500)]"
    and g3: "length (requests (snd ?G)) = 4"
    by (simp_all add: lA)
  have sf: "spec_flushes 0 [500, 500, 500] = [1000, 500]" by simp
  have sr: "spec_remainder 0 [500, 500, 500] = 500" by simp
  from t1 C have fl: "flush_sizes (logs w4) = [1000, 500]"
    and fi: "final_sizes (logs w4) = [500]"
    and st: "m_DelegationsStored w4 = 1500"
    by (simp_all add: l3 sf sr)
  have ih: "indexHistorical svc0 world_backfill = backfill_from svc0 sd wA"
    unfolding wA_def sd_def
    by (rule indexHistorical_fresh) (simp_all add: world_backfill_fields svc0_fields)
  have old: "1 * hour \<le> now wA - sd"
    by (simp add: wA_def sd_def log_add_def world_backfill_fields hour_def second_def millisecond_def)
  have G': "GetHistoricalDelegations (tzktClient svc0) sd 500 wA = ((?ps, None), w3)"
    using G by (simp add: svc0_fields w3_def)
  note bp = backfill_from_pipeline [OF old G' C]
  from bp have r1: "fst (indexHistorical svc0 world_backfill) = None"
    and r2: "flush_sizes (logs (snd (indexHistorical svc0 world_backfill))) = [1000, 500]"
    and r3: "final_sizes (logs (snd (indexHistorical svc0 world_backfill))) = [500]"
    and r4: "m_DelegationsStored (snd (indexHistorical svc0 world_backfill)) = 1500"
    and r5: "length (delegations (snd (indexHistorical svc0 world_backfill))) = 1500"
    by (simp_all add: ih fl fi st len)
  show ?thesis
    unfolding sd_def [symmetric] wA_def [symmetric]
    by (intro conjI) (fact g1 g2 g3 sf r1 r2 r3 r4 r5)+
qed

section \<open>Starting and stopping\<close>







section \<open>Poll ticks, for every page\<close>

lemma those_map_Some_id: "those (map Some xs) = Some xs"
  by (induction xs) simp_all

lemma fold_max_greatest:
  "fold max (xs :: int list) x \<in> set (x # xs) \<and> (\<forall>y \<in> set (x # xs). y \<le> fold max xs x)"
proof -
  have "fold max xs x = Max (set (x # xs))" by (rule Max.set_eq_fold [symmetric])
  then show ?thesis by (metis List.finite_set Max_ge Max_in list.distinct(1) set_empty)
qed

lemma GetLastIndexedLevel_greatest:
  assumes "db_faults w = []" and "map Level (delegations w) = map FormatInt (l # ls)"
  shows "\<exists>m \<in> set (l # ls). GetLastIndexedLevel w = (Inr m, w) \<and> (\<forall>x \<in> set (l # ls). sint x \<le> sint m)"
proof -
  have "map (\<lambda>r. cast_bigint (Level r)) (delegations w) = map cast_bigint (map Level (delegations w))"
    by simp
  also have "\<dots> = map Some (map sint (l # ls))"
    unfolding assms(2) by (simp add: cast_bigint_FormatInt)
  finally have c: "those (map (\<lambda>r. cast_bigint (Level r)) (delegations w)) = Some (sint l # map sint ls)"
    using those_map_Some_id [of "map sint (l # ls)"] by simp
  have g: "GetLastIndexedLevel w = (Inr (word_of_int (fold max (map sint ls) (sint l))), w)"
    by (simp add: GetLastIndexedLevel_def db_call_healthy [OF assms(1)] c)
  from fold_max_greatest [of "map sint ls" "sint l"]
  have mem: "fold max (map sint ls) (sint l) \<in> sint ` set (l # ls)"
    and ge: "\<forall>x \<in> set (l # ls). sint x \<le> fold max (map sint ls) (sint l)"
    by auto
  from mem obtain m where m: "m \<in> set (l # ls)" "fold max (map sint ls) (sint l) = sint m"
    by (metis imageE)
  have "word_of_int (sint m) = m" by simp
  with g m ge show ?thesis by (intro bexI [of _ m]) simp_all
qed

lemma convert_fields:
  "convertToDomainDelegations rs w = (ds, w') \<Longrightarrow>
   map OperationHash ds = map Hash (filter (\<lambda>r. Status r = ''applied'') rs)
   \<and> map Level ds = map (\<lambda>r. FormatInt (tzLevel r)) (filter (\<lambda>r. Status r = ''applied'') rs)
   \<and> map Amount ds = map (\<lambda>r. FormatInt (tzAmount r)) (filter (\<lambda>r. Status r = ''applied'') rs)
   \<and> map Timestamp ds = map tzTimestamp (filter (\<lambda>r. Status r = ''applied'') rs)
   \<and> map Delegator ds = map (\<lambda>r. Address (Sender r)) (filter (\<lambda>r. Status r = ''applied'') rs)
   \<and> map BlockHash ds = map Block (filter (\<lambda>r. Status r = ''applied'') rs)"
proof (induction rs arbitrary: w ds w')
  case Nil
  then show ?case by simp
next
  case (Cons r rs)
  show ?case
  proof (cases "Status r = ''applied''")
    case False
    with Cons.prems Cons.IH [of w ds w'] show ?thesis by simp
  next
    case True
    obtain u wa where n: "uuid_New w = (u, wa)" by force
    obtain ds2 w2 where c: "convertToDomainDelegations rs wa = (ds2, w2)" by force
    from Cons.prems True n c have ds: "ds = \<lparr>ID = u, Timestamp = tzTimestamp r,
        Amount = FormatInt (tzAmount r), Delegator = Address (Sender r),
        Level = FormatInt (tzLevel r), BlockHash = Block r, OperationHash = Hash r,
        CreatedAt = now wa\<rparr> # ds2" by auto
    from Cons.IH [OF c] True show ?thesis unfolding ds by simp
  qed
qed

lemma pollOnce_page:
  assumes g: "GetLastIndexedLevel w = (Inr lastLevel, w1)"
    and f: "(if lastLevel = 0
             then GetDelegationsSince (tzktClient s) (now w + (- 30 * 24 * hour)) 1000
             else GetDelegationsFromLevel (tzktClient s) (lastLevel + 1) 100)
              (w1\<lparr>m_LastIndexedLevel := lastLevel\<rparr>) = (Inr dels, w3)"
    and ne: "dels \<noteq> []"
    and c: "convertToDomainDelegations dels w3 = (ds, w4)"
  shows "delegations (pollOnce s w) = delegations (snd (SaveBatch ds w4))"
proof -
  from GetLastIndexedLevel_net [OF g] have n: "now w1 = now w" by (simp add: net_frame_def)
  obtain r w5 where sb: "SaveBatch ds w4 = (r, w5)" by force
  have sp: "save_page dels w3 = (r, w5)" by (simp add: save_page_def c sb)
  show ?thesis
  proof (cases "lastLevel = 0")
    case True
    with f n have f': "GetDelegationsSince (tzktClient s) (now (w1\<lparr>m_LastIndexedLevel := 0\<rparr>) + (- 30 * 24 * hour)) 1000
        (w1\<lparr>m_LastIndexedLevel := 0\<rparr>) = (Inr dels, w3)" by simp
    have "pollOnce s w = poll_recent s (w1\<lparr>m_LastIndexedLevel := 0\<rparr>)"
      using g True by (simp add: pollOnce_def)
    also have "delegations \<dots> = delegations w5"
      unfolding poll_recent_def Let_def f' using ne sp
      by (cases r) (simp_all add: log_add_def)
    finally show ?thesis by (simp add: sb)
  next
    case False
    with f have f': "GetDelegationsFromLevel (tzktClient s) (lastLevel + 1) 100
        (w1\<lparr>m_LastIndexedLevel := lastLevel\<rparr>) = (Inr dels, w3)" by simp
    have "pollOnce s w = poll_new s lastLevel (w1\<lparr>m_LastIndexedLevel := lastLevel\<rparr>)"
      using g False by (simp add: pollOnce_def)
    also have "delegations \<dots> = delegations w5"
      unfolding poll_new_def f' using ne sp
      by (cases r) (simp_all add: log_add_def)
    finally show ?thesis by (simp add: sb)
  qed
qed

lemma convert_from_levels:
  "map Level (convert_from g t u dels) = map (\<lambda>d. FormatInt (tzLevel d)) dels"
  by (induction dels arbitrary: u) (simp_all add: convert_one_def)

lemma convert_from_amounts:
  "map Amount (convert_from g t u dels) = map (\<lambda>d. FormatInt (tzAmount d)) dels"
  by (induction dels arbitrary: u) (simp_all add: convert_one_def)

lemma pollOnce_seed_page:
  assumes h: "delegations w = []" "db_faults w = []" "now w \<noteq> 0"
    and net: "http w = Response 200 (JArray js) # rest"
      "those (map decode_delegation js) = Some dels"
    and pg: "dels \<noteq> []" "\<forall>d \<in> set dels. Status d = ''applied''" "distinct (map Hash dels)"
    and g: "inj (uuid_gen w)" "\<forall>n. uuid_gen w n \<noteq> []"
  shows "delegations (pollOnce s w) = convert_from (uuid_gen w) (now w) (uuid_next w) dels"
    and "db_faults (pollOnce s w) = []"
proof -
  let ?c = "tzktClient s"
  let ?w2 = "w\<lparr>m_LastIndexedLevel := 0\<rparr>"
  have gl: "GetLastIndexedLevel w = (Inr 0, w)"
    using h(1,2) by (rule GetLastIndexedLevel_empty)
  have u: "unmarshal_delegations (JArray js) = Some dels"
    using net(2) by (simp add: unmarshal_delegations_def)
  have h2: "http ?w2 = Response 200 (JArray js) # rest" using net(1) by simp
  define w3 where "w3 = ?w2\<lparr>http := rest,
      requests := requests ?w2 @
        [\<lparr>req_url = baseURL ?c @ ''/v1/operations/delegations'',
          req_query = buildQueryParams (since_params (now ?w2 + (- 30 * 24 * hour)) 1000)\<rparr>]\<rparr>"
  have f: "GetDelegationsSince ?c (now ?w2 + (- 30 * 24 * hour)) 1000 ?w2 = (Inr dels, w3)"
    unfolding GetDelegationsSince_def w3_def since_params_def
    by (rule GetDelegations_ok [OF h2 u])
  have w3f: "delegations w3 = []" "db_faults w3 = []" "now w3 = now w" "uuid_gen w3 = uuid_gen w"
    "uuid_next w3 = uuid_next w"
    using h by (simp_all add: w3_def)
  define ds where "ds = convert_from (uuid_gen w) (now w) (uuid_next w) dels"
  define w4 where "w4 = w3\<lparr>uuid_next := uuid_next w3 + length dels\<rparr>"
  have c: "convertToDomainDelegations dels w3 = (ds, w4)"
    by (simp add: convert_applied [OF pg(2)] ds_def w4_def w3f)
  have ok: "\<forall>d \<in> set ds. ID d \<noteq> [] \<and> CreatedAt d \<noteq> 0"
  proof
    fix d assume d: "d \<in> set ds"
    then have "CreatedAt d = now w" unfolding ds_def by (rule convert_from_created)
    moreover from d have "ID d \<in> set (map ID ds)" by (metis imageI set_map)
    then have "ID d \<in> range (uuid_gen w)" unfolding ds_def convert_from_ids by auto
    then obtain x where "ID d = uuid_gen w x" by auto
    with g(2) have "ID d \<noteq> []" by simp
    ultimately show "ID d \<noteq> [] \<and> CreatedAt d \<noteq> 0" using h(3) by simp
  qed
  have sb: "SaveBatch ds w4 =
      (None, w4\<lparr>delegations := delegations w4 @ ds,
                logs := logs w4 @ [LogSavedBatch (length ds) (length ds) 0]\<rparr>)"
  proof (rule SaveBatch_new_rows)
    show "db_faults w4 = []" by (simp add: w4_def w3f)
    show "ds \<noteq> []" using pg(1) by (metis convert_from_length ds_def length_0_conv)
    show "\<forall>d \<in> set ds. ID d \<noteq> [] \<and> CreatedAt d \<noteq> 0" by (rule ok)
    show "distinct (map ID ds)"
      unfolding ds_def convert_from_ids using g(1) by (simp add: distinct_map inj_on_def inj_def)
    show "set (map ID ds) \<inter> set (map ID (delegations w4)) = {}" by (simp add: w4_def w3f)
    show "distinct (map OperationHash ds)" unfolding ds_def convert_from_hashes by (rule pg(3))
    show "set (map OperationHash ds) \<inter> set (map OperationHash (delegations w4)) = {}"
      by (simp add: w4_def w3f)
  qed
  have sp: "save_page dels w3 =
      (None, w4\<lparr>delegations := delegations w4 @ ds,
                logs := logs w4 @ [LogSavedBatch (length ds) (length ds) 0]\<rparr>)"
    by (simp add: save_page_def c sb)
  have p: "pollOnce s w = poll_recent s ?w2" using gl by (simp add: pollOnce_def)
  have r: "poll_recent s ?w2 =
      (log_add (LogSavedRecent (length dels))
         (w4\<lparr>delegations := delegations w4 @ ds,
             logs := logs w4 @ [LogSavedBatch (length ds) (length ds) 0]\<rparr>))
        \<lparr>m_DelegationsStored := m_DelegationsStored w4 + length dels,
         m_ProcessedSuccess := Suc (m_ProcessedSuccess w4)\<rparr>"
    unfolding poll_recent_def Let_def f using pg(1) by (simp add: sp net_frame_def)
  show "delegations (pollOnce s w) = convert_from (uuid_gen w) (now w) (uuid_next w) dels"
    unfolding p r by (simp add: log_add_def w4_def w3f ds_def)
  show "db_faults (pollOnce s w) = []"
    unfolding p r by (simp add: log_add_def w4_def w3f)
qed

lemma seed_page_result:
  assumes h: "delegations w = []" "db_faults w = []" "now w \<noteq> 0"
    and net: "http w = Response 200 (JArray js) # rest"
      "those (map decode_delegation js) = Some dels"
    and pg: "dels \<noteq> []" "\<forall>d \<in> set dels. Status d = ''applied''" "distinct (map Hash dels)"
    and g: "inj (uuid_gen w)" "\<forall>n. uuid_gen w n \<noteq> []"
  shows "map OperationHash (delegations (pollOnce s w)) = map Hash dels"
    and "map Level (delegations (pollOnce s w)) = map (\<lambda>d. FormatInt (tzLevel d)) dels"
    and "map Amount (delegations (pollOnce s w)) = map (\<lambda>d. FormatInt (tzAmount d)) dels"
    and "\<exists>m \<in> set (map tzLevel dels). fst (GetLastIndexedLevel (pollOnce s w)) = Inr m
           \<and> (\<forall>d \<in> set dels. sint (tzLevel d) \<le> sint m)"
    and "\<exists>rows. fst (FindAll None (pollOnce s w)) = Inr rows \<and> length rows = length dels"
proof -
  note p = pollOnce_seed_page [OF assms, of s]
  show "map OperationHash (delegations (pollOnce s w)) = map Hash dels"
    by (simp add: p(1) convert_from_hashes)
  show lv: "map Level (delegations (pollOnce s w)) = map (\<lambda>d. FormatInt (tzLevel d)) dels"
    by (simp add: p(1) convert_from_levels)
  show "map Amount (delegations (pollOnce s w)) = map (\<lambda>d. FormatInt (tzAmount d)) dels"
    by (simp add: p(1) convert_from_amounts)
  obtain d0 rest0 where dels: "dels = d0 # rest0" using pg(1) by (cases dels) auto
  have "map Level (delegations (pollOnce s w)) = map FormatInt (tzLevel d0 # map tzLevel rest0)"
    unfolding lv dels by simp
  from GetLastIndexedLevel_greatest [OF p(2) this]
  show "\<exists>m \<in> set (map tzLevel dels). fst (GetLastIndexedLevel (pollOnce s w)) = Inr m
           \<and> (\<forall>d \<in> set dels. sint (tzLevel d) \<le> sint m)"
    unfolding dels by auto
  show "\<exists>rows. fst (FindAll None (pollOnce s w)) = Inr rows \<and> length rows = length dels"
    by (simp add: FindAll_healthy [OF p(2)] p(1))
qed

lemma world_unordered_levels:
  "db_faults world_unordered = []"
  "map Level (delegations world_unordered) = map FormatInt [1001, 1000]"
  by (simp_all add: world_unordered_def world0_def convert_one_def rs1_def rs2_def)

lemma seed_fetch:
  "GetDelegationsSince client0 (now world_seed + (- 30 * 24 * hour)) 1000
     (world_seed\<lparr>m_LastIndexedLevel := 0\<rparr>) = (Inr [rs1, rs2], world_seed_fetched)"
proof -
  have h: "http (world_seed\<lparr>m_LastIndexedLevel := 0\<rparr>) = Response 200 (JArray [js1, js2]) # []"
    by (simp add: world_seed_fields)
  have u: "unmarshal_delegations (JArray [js1, js2]) = Some [rs1, rs2]"
    by (simp add: unmarshal_delegations_def decode_js1 decode_js2)
  show ?thesis
    unfolding GetDelegationsSince_def
    by (subst GetDelegations_ok [OF h u])
      (simp add: world_seed_fetched_def delegations_request_def since_params_def world_seed_fields)
qed

lemma seed_convert:
  "convertToDomainDelegations [rs1, rs2] world_seed_fetched =
     (seed_batch, world_seed_fetched\<lparr>uuid_next := 2\<rparr>)"
proof -
  have a: "Status rs1 = ''applied''" "Status rs2 = ''applied''" by (simp_all add: rs1_def rs2_def)
  show ?thesis
    by (subst convert_two [OF a])
      (simp add: world_seed_fetched_def world_seed_fields seed_batch_def digits_0_1 numeral_2_eq_2)
qed

lemma seed_save:
  "delegations (snd (SaveBatch seed_batch (world_seed_fetched\<lparr>uuid_next := 2\<rparr>))) = seed_batch"
proof -
  let ?w = "world_seed_fetched\<lparr>uuid_next := 2\<rparr>"
  have "SaveBatch [convert_one rs1 ''uuid-0'' (63900000000 * second),
                   convert_one rs2 ''uuid-1'' (63900000000 * second)] ?w =
      (None, ?w\<lparr>delegations := [convert_one rs1 ''uuid-0'' (63900000000 * second),
                                  convert_one rs2 ''uuid-1'' (63900000000 * second)],
                 logs := logs ?w @ [LogSavedBatch 2 2 0]\<rparr>)"
    by (rule SaveBatch_two_new)
      (simp_all add: world_seed_fetched_def world_seed_fields convert_one_def rs1_def rs2_def)
  then show ?thesis by (simp add: seed_batch_def)
qed

lemma world_more_fields:
  "db_faults world_more = []" "http world_more = [Response 200 (JArray [js_n 7])]"
  "delegations world_more = seed_batch" "uuid_next world_more = 2"
  "uuid_gen world_more n = ''uuid-'' @ digits n" "now world_more = 63900000030 * second"
  by (simp_all add: world_more_def tick_world_def pollOnce_world_seed world_seed_fields
      seed_batch_def)

lemma world_more_level: "GetLastIndexedLevel world_more = (Inr 1001, world_more)"
  by (simp add: GetLastIndexedLevel_def db_call_healthy world_more_fields seed_batch_def
      convert_one_def cast_bigint_FormatInt rs1_def rs2_def)

lemma more_fetch:
  "GetDelegationsFromLevel client0 (1001 + 1) 100 (world_more\<lparr>m_LastIndexedLevel := 1001\<rparr>) =
     (Inr [rs_n 7], world_more_fetched)"
proof -
  have h: "http (world_more\<lparr>m_LastIndexedLevel := 1001\<rparr>) = Response 200 (JArray [js_n 7]) # []"
    by (simp add: world_more_fields)
  have u: "unmarshal_delegations (JArray [js_n 7]) = Some [rs_n 7]"
    by (simp add: unmarshal_delegations_def decode_js_n)
  show ?thesis
    unfolding GetDelegationsFromLevel_def
    by (subst GetDelegations_ok [OF h u])
      (simp add: world_more_fetched_def delegations_request_def level_params_def)
qed

lemma digits_2_7: "digits 2 = ''2''" "digits 7 = ''7''"
  by (simp_all add: digits.simps digit_char_def)

lemma more_convert:
  "convertToDomainDelegations [rs_n 7] world_more_fetched =
     ([convert_one (rs_n 7) ''uuid-2'' (63900000030 * second)], world_more_fetched\<lparr>uuid_next := 3\<rparr>)"
proof -
  have a: "\<forall>d \<in> set [rs_n 7]. Status d = ''applied''" by (simp add: rs_n_def)
  show ?thesis
    by (subst convert_applied [OF a])
      (simp add: world_more_fetched_def world_more_fields digits_2_7)
qed

lemma more_save:
  "delegations (snd (SaveBatch [convert_one (rs_n 7) ''uuid-2'' (63900000030 * second)]
       (world_more_fetched\<lparr>uuid_next := 3\<rparr>))) =
     seed_batch @ [convert_one (rs_n 7) ''uuid-2'' (63900000030 * second)]"
proof -
  let ?w = "world_more_fetched\<lparr>uuid_next := 3\<rparr>"
  let ?d = "convert_one (rs_n 7) ''uuid-2'' (63900000030 * second)"
  have "SaveBatch [?d] ?w =
      (None, ?w\<lparr>delegations := delegations ?w @ [?d],
                 logs := logs ?w @ [LogSavedBatch (length [?d]) (length [?d]) 0]\<rparr>)"
    by (rule SaveBatch_new_rows)
      (simp_all add: world_more_fetched_def world_more_fields seed_batch_def convert_one_def
        rs_n_def rs1_def rs2_def digits_2_7 second_def millisecond_def)
  then show ?thesis by (simp add: world_more_fetched_def world_more_fields)
qed

text \<open>
  C4: a poll tick first reads the highest stored level: 0 for an empty table, and otherwise
  the greatest of the levels the rows hold. When the read succeeds and the tick's context
  is not done, every request of the tick is the same one: for the level 0 the events since
  30 days before now, limit 1000; for another level the events from that level plus one,
  limit 100; both ascending by id and restricted to applied events. Whatever non-empty page
  the fetch returns, the tick converts all of it and hands the result to
  \<^verbatim>\<open>SaveBatch\<close>: the table after the tick is the one \<^verbatim>\<open>SaveBatch\<close> leaves, and the
  batch holds one event for each applied event of the page, in order, with its operation
  hash, its level and its amount. On an empty, healthy store whose ids are fresh, a tick
  whose fetch returns applied events with different operation hashes leaves one row for
  each event of the page, the greatest level of the page as the highest level, and as many
  rows for \<^verbatim>\<open>FindAll\<close> as the page has events. In particular, on an empty, healthy store
  a tick whose fetch returns two applied events with different operation hashes, at the
  levels 1000 and 1001, leaves 1001 as the highest level and two rows for \<^verbatim>\<open>FindAll\<close>.
\<close>

theorem pollOnce_fetches_from_cursor:
  "buildQueryParams (since_params t 1000) =
     [''limit'' \<mapsto> PInt 1000, ''timestamp.ge'' \<mapsto> PTime t, ''sort.asc'' \<mapsto> PText ''id'',
      ''status'' \<mapsto> PText ''applied'']
   \<and> buildQueryParams (level_params l 100) =
     [''limit'' \<mapsto> PInt 100, ''level.ge'' \<mapsto> PInt (sint l), ''sort.asc'' \<mapsto> PText ''id'',
      ''status'' \<mapsto> PText ''applied'']
   \<and> (db_faults wa = [] \<and> delegations wa = [] \<longrightarrow> GetLastIndexedLevel wa = (Inr 0, wa))
   \<and> (db_faults wb = [] \<and> map Level (delegations wb) = map FormatInt (l0 # ls) \<longrightarrow>
        (\<exists>m \<in> set (l0 # ls). GetLastIndexedLevel wb = (Inr m, wb)
           \<and> (\<forall>x \<in> set (l0 # ls). sint x \<le> sint m)))
   \<and> (\<forall>lastLevel w1. GetLastIndexedLevel w = (Inr lastLevel, w1) \<and> http w \<noteq> [] \<longrightarrow>
        (\<exists>k>0. requests (pollOnce s w) = requests w @ replicate k
           (delegations_request (tzktClient s)
              (if lastLevel = 0 then since_params (now w + (- 30 * 24 * hour)) 1000
               else level_params (lastLevel + 1) 100))))
   \<and> (GetLastIndexedLevel wp = (Inr cursor, wp1)
        \<and> (if cursor = 0
            then GetDelegationsSince (tzktClient s) (now wp + (- 30 * 24 * hour)) 1000
            else GetDelegationsFromLevel (tzktClient s) (cursor + 1) 100)
             (wp1\<lparr>m_LastIndexedLevel := cursor\<rparr>) = (Inr dels, wp3)
        \<and> dels \<noteq> [] \<and> convertToDomainDelegations dels wp3 = (ds, wp4)
      \<longrightarrow> delegations (pollOnce s wp) = delegations (snd (SaveBatch ds wp4))
          \<and> map OperationHash ds = map Hash (filter (\<lambda>r. Status r = ''applied'') dels)
          \<and> map Level ds =
              map (\<lambda>r. FormatInt (tzLevel r)) (filter (\<lambda>r. Status r = ''applied'') dels)
          \<and> map Amount ds =
              map (\<lambda>r. FormatInt (tzAmount r)) (filter (\<lambda>r. Status r = ''applied'') dels))
   \<and> (delegations we = [] \<and> db_faults we = [] \<and> now we \<noteq> 0
        \<and> http we = Response 200 (JArray js) # rest
        \<and> those (map decode_delegation js) = Some page_events
        \<and> page_events \<noteq> [] \<and> (\<forall>d \<in> set page_events. Status d = ''applied'')
        \<and> distinct (map Hash page_events)
        \<and> inj (uuid_gen we) \<and> (\<forall>n. uuid_gen we n \<noteq> [])
      \<longrightarrow> map OperationHash (delegations (pollOnce s we)) = map Hash page_events
          \<and> map Level (delegations (pollOnce s we)) =
              map (\<lambda>d. FormatInt (tzLevel d)) page_events
          \<and> map Amount (delegations (pollOnce s we)) =
              map (\<lambda>d. FormatInt (tzAmount d)) page_events
          \<and> (\<exists>m \<in> set (map tzLevel page_events).
                fst (GetLastIndexedLevel (pollOnce s we)) = Inr m
                \<and> (\<forall>d \<in> set page_events. sint (tzLevel d) \<le> sint m))
          \<and> (\<exists>rows. fst (FindAll None (pollOnce s we)) = Inr rows
                \<and> length rows = length page_events))
   \<and> (delegations w = [] \<and> db_faults w = [] \<and> http w = [Response 200 (JArray [j1, j2])]
        \<and> js_level j1 = 1000 \<and> js_level j2 = 1001
        \<and> in_int64 (js_id j1) \<and> in_int64 (js_id j2)
        \<and> in_int64 (js_amount j1) \<and> in_int64 (js_amount j2)
        \<and> js_status j1 = ''applied'' \<and> js_status j2 = ''applied'' \<and> js_hash j1 \<noteq> js_hash j2
        \<and> uuid_gen w (uuid_next w) \<noteq> [] \<and> uuid_gen w (Suc (uuid_next w)) \<noteq> []
        \<and> uuid_gen w (uuid_next w) \<noteq> uuid_gen w (Suc (uuid_next w))
      \<longrightarrow> fst (GetLastIndexedLevel w) = Inr 0
          \<and> fst (GetLastIndexedLevel (pollOnce s w)) = Inr 1001
          \<and> (\<exists>rows. fst (FindAll None (pollOnce s w)) = Inr rows \<and> length rows = 2))"
proof (intro conjI allI impI)
  show "buildQueryParams (since_params t 1000) =
     [''limit'' \<mapsto> PInt 1000, ''timestamp.ge'' \<mapsto> PTime t, ''sort.asc'' \<mapsto> PText ''id'',
      ''status'' \<mapsto> PText ''applied'']" by (rule query_since)
  show "buildQueryParams (level_params l 100) =
     [''limit'' \<mapsto> PInt 100, ''level.ge'' \<mapsto> PInt (sint l), ''sort.asc'' \<mapsto> PText ''id'',
      ''status'' \<mapsto> PText ''applied'']" by (rule query_level)
next
  assume "db_faults wa = [] \<and> delegations wa = []"
  then show "GetLastIndexedLevel wa = (Inr 0, wa)" by (simp add: GetLastIndexedLevel_empty)
next
  assume "db_faults wb = [] \<and> map Level (delegations wb) = map FormatInt (l0 # ls)"
  then show "\<exists>m \<in> set (l0 # ls). GetLastIndexedLevel wb = (Inr m, wb)
           \<and> (\<forall>x \<in> set (l0 # ls). sint x \<le> sint m)"
    using GetLastIndexedLevel_greatest by blast
next
  fix lastLevel w1
  assume "GetLastIndexedLevel w = (Inr lastLevel, w1) \<and> http w \<noteq> []"
  then show "\<exists>k>0. requests (pollOnce s w) = requests w @ replicate k
           (delegations_request (tzktClient s)
              (if lastLevel = 0 then since_params (now w + (- 30 * 24 * hour)) 1000
               else level_params (lastLevel + 1) 100))"
    using pollOnce_requests by blast
next
  assume a: "GetLastIndexedLevel wp = (Inr cursor, wp1)
        \<and> (if cursor = 0
            then GetDelegationsSince (tzktClient s) (now wp + (- 30 * 24 * hour)) 1000
            else GetDelegationsFromLevel (tzktClient s) (cursor + 1) 100)
             (wp1\<lparr>m_LastIndexedLevel := cursor\<rparr>) = (Inr dels, wp3)
        \<and> dels \<noteq> [] \<and> convertToDomainDelegations dels wp3 = (ds, wp4)"
  then have c: "convertToDomainDelegations dels wp3 = (ds, wp4)" by simp
  from a show "delegations (pollOnce s wp) = delegations (snd (SaveBatch ds wp4))"
    by (elim conjE) (rule pollOnce_page; assumption)
  from convert_fields [OF c]
  show "map OperationHash ds = map Hash (filter (\<lambda>r. Status r = ''applied'') dels)"
    and "map Level ds =
      map (\<lambda>r. FormatInt (tzLevel r)) (filter (\<lambda>r. Status r = ''applied'') dels)"
    and "map Amount ds =
      map (\<lambda>r. FormatInt (tzAmount r)) (filter (\<lambda>r. Status r = ''applied'') dels)"
    by simp_all
next
  assume a: "delegations we = [] \<and> db_faults we = [] \<and> now we \<noteq> 0
        \<and> http we = Response 200 (JArray js) # rest
        \<and> those (map decode_delegation js) = Some page_events
        \<and> page_events \<noteq> [] \<and> (\<forall>d \<in> set page_events. Status d = ''applied'')
        \<and> distinct (map Hash page_events)
        \<and> inj (uuid_gen we) \<and> (\<forall>n. uuid_gen we n \<noteq> [])"
  from a show "map OperationHash (delegations (pollOnce s we)) = map Hash page_events"
    by (elim conjE) (rule seed_page_result(1); assumption)
  from a show "map Level (delegations (pollOnce s we)) =
      map (\<lambda>d. FormatInt (tzLevel d)) page_events"
    by (elim conjE) (rule seed_page_result(2); assumption)
  from a show "map Amount (delegations (pollOnce s we)) =
      map (\<lambda>d. FormatInt (tzAmount d)) page_events"
    by (elim conjE) (rule seed_page_result(3); assumption)
  from a show "\<exists>m \<in> set (map tzLevel page_events).
      fst (GetLastIndexedLevel (pollOnce s we)) = Inr m
      \<and> (\<forall>d \<in> set page_events. sint (tzLevel d) \<le> sint m)"
    by (elim conjE) (rule seed_page_result(4); assumption)
  from a show "\<exists>rows. fst (FindAll None (pollOnce s we)) = Inr rows
      \<and> length rows = length page_events"
    by (elim conjE) (rule seed_page_result(5); assumption)
next
  assume a: "delegations w = [] \<and> db_faults w = [] \<and> http w = [Response 200 (JArray [j1, j2])]
        \<and> js_level j1 = 1000 \<and> js_level j2 = 1001
        \<and> in_int64 (js_id j1) \<and> in_int64 (js_id j2)
        \<and> in_int64 (js_amount j1) \<and> in_int64 (js_amount j2)
        \<and> js_status j1 = ''applied'' \<and> js_status j2 = ''applied'' \<and> js_hash j1 \<noteq> js_hash j2
        \<and> uuid_gen w (uuid_next w) \<noteq> [] \<and> uuid_gen w (Suc (uuid_next w)) \<noteq> []
        \<and> uuid_gen w (uuid_next w) \<noteq> uuid_gen w (Suc (uuid_next w))"
  then show "fst (GetLastIndexedLevel w) = Inr 0" by (simp add: GetLastIndexedLevel_empty)
  from a show "fst (GetLastIndexedLevel (pollOnce s w)) = Inr 1001"
    by (elim conjE) (rule seed_two_result(1); assumption)
  from a show "\<exists>rows. fst (FindAll None (pollOnce s w)) = Inr rows \<and> length rows = 2"
    by (elim conjE) (rule seed_two_result(2); assumption)
qed

text \<open>
  Witness for C4. The highest level of a table that holds the levels 1001 and 1000, in
  that order, is 1001. The tick on the empty store asks for the events of the last 30 days
  and stores the page of two it gets, which leaves 1001 as the highest level; the next
  tick, with the levels 1000 and 1001 stored, asks for the events from level 1002, and
  when that fetch returns one event the tick adds its row to the two.
\<close>

theorem pollOnce_fetches_from_cursor_witness:
  "GetLastIndexedLevel world_seed = (Inr 0, world_seed) \<and> http world_seed \<noteq> []
   \<and> GetLastIndexedLevel world_unordered = (Inr 1001, world_unordered)
   \<and> (\<exists>k>0. requests (pollOnce svc0 world_seed) = requests world_seed @ replicate k
         (delegations_request client0 (since_params (now world_seed + (- 30 * 24 * hour)) 1000)))
   \<and> GetLastIndexedLevel world_next = (Inr 1001, world_next) \<and> http world_next \<noteq> []
   \<and> (\<exists>k>0. requests (pollOnce svc0 world_next) = requests world_next @ replicate k
         (delegations_request client0 (level_params 1002 100)))
   \<and> GetDelegationsSince client0 (now world_seed + (- 30 * 24 * hour)) 1000
        (world_seed\<lparr>m_LastIndexedLevel := 0\<rparr>) = (Inr [rs1, rs2], world_seed_fetched)
   \<and> convertToDomainDelegations [rs1, rs2] world_seed_fetched =
        (seed_batch, world_seed_fetched\<lparr>uuid_next := 2\<rparr>)
   \<and> delegations (pollOnce svc0 world_seed) = seed_batch
   \<and> GetLastIndexedLevel world_more = (Inr 1001, world_more)
   \<and> GetDelegationsFromLevel client0 (1001 + 1) 100 (world_more\<lparr>m_LastIndexedLevel := 1001\<rparr>) =
        (Inr [rs_n 7], world_more_fetched)
   \<and> delegations (pollOnce svc0 world_more) =
        seed_batch @ [convert_one (rs_n 7) ''uuid-2'' (63900000030 * second)]
   \<and> map OperationHash (delegations (pollOnce svc0 world_seed)) = map Hash [rs1, rs2]
   \<and> map Level (delegations (pollOnce svc0 world_seed)) =
        map (\<lambda>d. FormatInt (tzLevel d)) [rs1, rs2]
   \<and> delegations world_seed = [] \<and> db_faults world_seed = []
   \<and> http world_seed = [Response 200 (JArray [js1, js2])]
   \<and> js_level js1 = 1000 \<and> js_level js2 = 1001
   \<and> js_status js1 = ''applied'' \<and> js_status js2 = ''applied'' \<and> js_hash js1 \<noteq> js_hash js2
   \<and> fst (GetLastIndexedLevel (pollOnce svc0 world_seed)) = Inr 1001
   \<and> (\<exists>rows. fst (FindAll None (pollOnce svc0 world_seed)) = Inr rows \<and> length rows = 2)"
proof -
  have c: "tzktClient svc0 = client0" by (simp add: svc0_def NewService_def)
  note tS = pollOnce_fetches_from_cursor
    [where s = svc0 and w = world_seed and wa = world_seed and wb = world_unordered
       and ?l0.0 = 1001 and ls = "[1000]" and wp = world_seed and cursor = 0
       and ?wp1.0 = world_seed and dels = "[rs1, rs2]" and ?wp3.0 = world_seed_fetched
       and ds = seed_batch and ?wp4.0 = "world_seed_fetched\<lparr>uuid_next := 2\<rparr>"
       and we = world_seed and js = "[js1, js2]" and rest = "[]"
       and page_events = "[rs1, rs2]" and ?j1.0 = js1 and ?j2.0 = js2]
  note tM = pollOnce_fetches_from_cursor
    [where s = svc0 and w = world_next and wp = world_more and cursor = 1001
       and ?wp1.0 = world_more and dels = "[rs_n 7]" and ?wp3.0 = world_more_fetched
       and ds = "[convert_one (rs_n 7) ''uuid-2'' (63900000030 * second)]"
       and ?wp4.0 = "world_more_fetched\<lparr>uuid_next := 3\<rparr>"]
  have e: "db_faults world_seed = [] \<and> delegations world_seed = []"
    by (simp add: world_seed_fields)
  from tS e have g0: "GetLastIndexedLevel world_seed = (Inr 0, world_seed)" by blast
  have hs: "http world_seed \<noteq> []" by (simp add: world_seed_fields)
  have hn: "http world_next \<noteq> []" by (simp add: world_next_fields)
  have u: "db_faults world_unordered = []
      \<and> map Level (delegations world_unordered) = map FormatInt ((1001::int64) # [1000])"
    by (simp add: world_unordered_levels)
  from tS u have "\<exists>m \<in> set ((1001::int64) # [1000]).
      GetLastIndexedLevel world_unordered = (Inr m, world_unordered)
      \<and> (\<forall>x \<in> set ((1001::int64) # [1000]). sint x \<le> sint m)" by blast
  then have gu: "GetLastIndexedLevel world_unordered = (Inr 1001, world_unordered)" by auto
  have a: "\<exists>k>0. requests (pollOnce svc0 world_seed) = requests world_seed @ replicate k
         (delegations_request client0 (since_params (now world_seed + (- 30 * 24 * hour)) 1000))"
    using tS g0 by (simp add: c world_seed_fields)
  have b: "\<exists>k>0. requests (pollOnce svc0 world_next) = requests world_next @ replicate k
         (delegations_request client0 (level_params 1002 100))"
    using tM world_next_level by (simp add: c world_next_fields)
  note sf = seed_fetch and sc = seed_convert
  have ps: "GetLastIndexedLevel world_seed = (Inr 0, world_seed)
        \<and> (if (0::int64) = 0
            then GetDelegationsSince (tzktClient svc0) (now world_seed + (- 30 * 24 * hour)) 1000
            else GetDelegationsFromLevel (tzktClient svc0) (0 + 1) 100)
             (world_seed\<lparr>m_LastIndexedLevel := 0\<rparr>) = (Inr [rs1, rs2], world_seed_fetched)
        \<and> [rs1, rs2] \<noteq> []
        \<and> convertToDomainDelegations [rs1, rs2] world_seed_fetched =
            (seed_batch, world_seed_fetched\<lparr>uuid_next := 2\<rparr>)"
    using g0 sf sc by (simp add: c)
  from tS ps have "delegations (pollOnce svc0 world_seed) =
      delegations (snd (SaveBatch seed_batch (world_seed_fetched\<lparr>uuid_next := 2\<rparr>)))" by blast
  then have ds: "delegations (pollOnce svc0 world_seed) = seed_batch" by (simp only: seed_save)
  note mf = more_fetch and ml = world_more_level
  have pm: "GetLastIndexedLevel world_more = (Inr 1001, world_more)
        \<and> (if (1001::int64) = 0
            then GetDelegationsSince (tzktClient svc0) (now world_more + (- 30 * 24 * hour)) 1000
            else GetDelegationsFromLevel (tzktClient svc0) (1001 + 1) 100)
             (world_more\<lparr>m_LastIndexedLevel := 1001\<rparr>) = (Inr [rs_n 7], world_more_fetched)
        \<and> [rs_n 7] \<noteq> []
        \<and> convertToDomainDelegations [rs_n 7] world_more_fetched =
            ([convert_one (rs_n 7) ''uuid-2'' (63900000030 * second)],
             world_more_fetched\<lparr>uuid_next := 3\<rparr>)"
    using ml mf more_convert by (simp add: c)
  from tM pm have "delegations (pollOnce svc0 world_more) =
      delegations (snd (SaveBatch [convert_one (rs_n 7) ''uuid-2'' (63900000030 * second)]
         (world_more_fetched\<lparr>uuid_next := 3\<rparr>)))" by blast
  then have dm: "delegations (pollOnce svc0 world_more) =
      seed_batch @ [convert_one (rs_n 7) ''uuid-2'' (63900000030 * second)]"
    by (simp only: more_save)
  have "inj (\<lambda>n. ''uuid-'' @ digits n)" using inj_digits by (auto simp: inj_def)
  then have ij: "inj (uuid_gen world_seed)"
    by (simp add: world_seed_def world0_def)
  have pe: "delegations world_seed = [] \<and> db_faults world_seed = [] \<and> now world_seed \<noteq> 0
        \<and> http world_seed = Response 200 (JArray [js1, js2]) # []
        \<and> those (map decode_delegation [js1, js2]) = Some [rs1, rs2]
        \<and> [rs1, rs2] \<noteq> [] \<and> (\<forall>d \<in> set [rs1, rs2]. Status d = ''applied'')
        \<and> distinct (map Hash [rs1, rs2])
        \<and> inj (uuid_gen world_seed) \<and> (\<forall>n. uuid_gen world_seed n \<noteq> [])"
    using ij by (simp add: world_seed_fields decode_js1 decode_js2 rs1_def rs2_def
        second_def millisecond_def)
  from tS pe have n4: "map OperationHash (delegations (pollOnce svc0 world_seed)) = map Hash [rs1, rs2]"
    and n5: "map Level (delegations (pollOnce svc0 world_seed)) =
        map (\<lambda>d. FormatInt (tzLevel d)) [rs1, rs2]"
    by blast+
  have h: "delegations world_seed = [] \<and> db_faults world_seed = []
        \<and> http world_seed = [Response 200 (JArray [js1, js2])]
        \<and> js_level js1 = 1000 \<and> js_level js2 = 1001
        \<and> in_int64 (js_id js1) \<and> in_int64 (js_id js2)
        \<and> in_int64 (js_amount js1) \<and> in_int64 (js_amount js2)
        \<and> js_status js1 = ''applied'' \<and> js_status js2 = ''applied'' \<and> js_hash js1 \<noteq> js_hash js2
        \<and> uuid_gen world_seed (uuid_next world_seed) \<noteq> []
        \<and> uuid_gen world_seed (Suc (uuid_next world_seed)) \<noteq> []
        \<and> uuid_gen world_seed (uuid_next world_seed) \<noteq> uuid_gen world_seed (Suc (uuid_next world_seed))"
    by (simp add: world_seed_fields js1_def js2_def in_int64_def digits_0_1)
  from tS h have r: "fst (GetLastIndexedLevel (pollOnce svc0 world_seed)) = Inr 1001
     \<and> (\<exists>rows. fst (FindAll None (pollOnce svc0 world_seed)) = Inr rows \<and> length rows = 2)"
    by blast
  from h have h': "delegations world_seed = []" "db_faults world_seed = []"
    "http world_seed = [Response 200 (JArray [js1, js2])]"
    "js_level js1 = 1000" "js_level js2 = 1001"
    "js_status js1 = ''applied''" "js_status js2 = ''applied''" "js_hash js1 \<noteq> js_hash js2"
    by blast+
  from r have r1: "fst (GetLastIndexedLevel (pollOnce svc0 world_seed)) = Inr 1001"
    and r2: "\<exists>rows. fst (FindAll None (pollOnce svc0 world_seed)) = Inr rows \<and> length rows = 2"
    by blast+
  note wl = world_next_level
  show ?thesis
    by (intro conjI) (fact g0 hs gu a wl hn b sf sc ds ml mf dm n4 n5 h' r1 r2)+
qed


end
